theory Spec2Isabelle
  imports Complex_Main "HOL-Library.Word"
begin

unbundle bit_operations_syntax

section \<open>Data model of ReliableSocket.h\<close>

type_synonym byte = "8 word"
type_synonym u32 = "32 word"
type_synonym i32 = "32 word"

text \<open>
  \<^verbatim>\<open>enum RDTMessageType : uint8_t {RDT_SYN, RDT_SYNACK, RDT_ACK, RDT_DATA, RDT_CLOSE}\<close>.
  The code reads the tag out of a raw receive buffer, where it can be any byte, and compares
  it with the enumerators; so the tags are byte constants, not a five-element datatype.
\<close>

definition RDT_SYN :: byte where "RDT_SYN = 0"
definition RDT_SYNACK :: byte where "RDT_SYNACK = 1"
definition RDT_ACK :: byte where "RDT_ACK = 2"
definition RDT_DATA :: byte where "RDT_DATA = 3"
definition RDT_CLOSE :: byte where "RDT_CLOSE = 4"

lemmas RDT_defs = RDT_SYN_def RDT_SYNACK_def RDT_ACK_def RDT_DATA_def RDT_CLOSE_def

datatype connection_status = INIT | ESTABLISHED | FIN | CLOSED

definition MAX_SEG_SIZE :: nat where "MAX_SEG_SIZE = 1400"
definition WAIT_TIME :: int where "WAIT_TIME = 4000"

text \<open>
  \<^verbatim>\<open>sizeof(RDTHeader)\<close>: two \<^verbatim>\<open>uint32_t\<close> and a one-byte tag, padded to the alignment
  of \<^verbatim>\<open>uint32_t\<close>. The sequence number is at offset 0, the ack number at offset 4, the tag
  at offset 8.
\<close>

definition sizeof_RDTHeader :: nat where "sizeof_RDTHeader = 12"
definition MAX_DATA_SIZE :: nat where "MAX_DATA_SIZE = MAX_SEG_SIZE - sizeof_RDTHeader"

lemmas size_defs = MAX_SEG_SIZE_def sizeof_RDTHeader_def MAX_DATA_SIZE_def

text \<open>
  What the process can observe from outside the object. \<^verbatim>\<open>recv\<close> either returns a
  datagram, or fails with \<^verbatim>\<open>errno == EAGAIN\<close> (the receive deadline expired), or fails
  with another error. \<^verbatim>\<open>rdt_time.h\<close> is not among the sources: the value
  \<^verbatim>\<open>current_msec() - airTime\<close> that send_seg_reliable computes around a successful
  receive, a 32-bit \<^verbatim>\<open>int\<close>, is an input of the model, carried by the event.
\<close>

datatype event = Recv i32 "byte list" | Timeout | Error

datatype errno_t = ENONE | EAGAIN | EOTHER

text \<open>
  What the object does to the outside: datagrams handed to \<^verbatim>\<open>send\<close>, receive deadlines
  handed to \<^verbatim>\<open>setsockopt\<close> (in milliseconds), the fixed-text diagnostics written with
  \<^verbatim>\<open>cerr\<close> and \<^verbatim>\<open>perror\<close>, and the final \<^verbatim>\<open>close\<close> of the descriptor. The
  diagnostics with interpolated numbers (the INFO lines of set_timeout_length and
  receive_data) are left out. \<^verbatim>\<open>send\<close>, \<^verbatim>\<open>bind\<close>, \<^verbatim>\<open>connect\<close> and
  \<^verbatim>\<open>setsockopt\<close> are taken to succeed: a failing \<^verbatim>\<open>send\<close> or \<^verbatim>\<open>bind\<close> only prints
  a diagnostic in the source, and the code carries on as modelled.
\<close>

datatype action = Send "byte list" | SetTimeout u32 | Diag string | CloseFd

text \<open>
  The fields of class ReliableSocket, then the process state the methods read and write
  beside them: the receive deadline of the descriptor, \<^verbatim>\<open>errno\<close>, and the trace of
  actions performed so far.
\<close>

record reliable_socket =
  sequence_number :: u32
  expected_sequence_number :: u32
  estimated_rtt :: i32
  dev_rtt :: i32
  current_rtt :: i32
  state :: connection_status
  rcvtimeo :: u32
  errno :: errno_t
  trace :: "action list"

text \<open>
  A \<^verbatim>\<open>memcpy\<close> that cannot be carried out is a result of its own: \<open>n\<close> is the count as
  written in the call and \<open>cap\<close> the room of the destination, where \<open>n < 0\<close> (a
  \<^verbatim>\<open>size_t\<close> beyond any memory) or, for the caller's buffer of receive_data, \<open>cap < n\<close>.
\<close>

datatype fault = Memcpy_overrun int int

text \<open>
  A call returns (\<open>Done\<close>, with the events it has not consumed), ends the process with
  \<^verbatim>\<open>exit(EXIT_FAILURE)\<close>, runs into undefined behaviour, or stays blocked in
  \<^verbatim>\<open>recv\<close> because the events have run out.
\<close>

datatype 'a outcome =
    Done 'a reliable_socket "event list"
  | Exit reliable_socket
  | Fault fault reliable_socket
  | Blocked reliable_socket

section \<open>Wire format\<close>

definition htonl :: "u32 \<Rightarrow> byte list" where
  "htonl x = [ucast (drop_bit 24 x), ucast (drop_bit 16 x), ucast (drop_bit 8 x), ucast x]"

definition ntohl :: "byte list \<Rightarrow> u32" where
  "ntohl bs = push_bit 24 (ucast (bs ! 0)) OR push_bit 16 (ucast (bs ! 1))
                OR push_bit 8 (ucast (bs ! 2)) OR ucast (bs ! 3)"

text \<open>The bytes of an RDTHeader in a zeroed buffer, with the fields stored through htonl.\<close>

definition header :: "u32 \<Rightarrow> u32 \<Rightarrow> byte \<Rightarrow> byte list" where
  "header seq_no ack_no ty = htonl seq_no @ htonl ack_no @ [ty, 0, 0, 0]"

text \<open>A \<^verbatim>\<open>char[MAX_SEG_SIZE] = {0}\<close> buffer that starts with the given bytes.\<close>

definition segment :: "byte list \<Rightarrow> byte list" where
  "segment bs = take MAX_SEG_SIZE bs @ replicate (MAX_SEG_SIZE - length bs) 0"

text \<open>
  \<^verbatim>\<open>memset(recvSegment, 0, MAX_SEG_SIZE); recv(sock_fd, recvSegment, MAX_SEG_SIZE, 0)\<close>:
  the buffer afterwards, and the count returned, for a datagram \<open>bs\<close>.
\<close>

definition recv_buf :: "byte list \<Rightarrow> byte list" where
  "recv_buf bs = segment bs"

definition recv_ret :: "byte list \<Rightarrow> int" where
  "recv_ret bs = int (min (length bs) MAX_SEG_SIZE)"

definition hdr_type :: "byte list \<Rightarrow> byte" where
  "hdr_type buf = buf ! 8"

definition hdr_sequence_number :: "byte list \<Rightarrow> byte list" where
  "hdr_sequence_number buf = take 4 buf"

definition hdr_ack_number :: "byte list \<Rightarrow> byte list" where
  "hdr_ack_number buf = take 4 (drop 4 buf)"

section \<open>ReliableSocket.cpp\<close>

definition emit :: "action \<Rightarrow> reliable_socket \<Rightarrow> reliable_socket" where
  "emit a s = s\<lparr>trace := trace s @ [a]\<rparr>"

text \<open>The constructor, after \<^verbatim>\<open>socket()\<close> has succeeded.\<close>

definition ReliableSocket :: reliable_socket where
  "ReliableSocket = \<lparr>sequence_number = 0, expected_sequence_number = 0, estimated_rtt = 100,
     dev_rtt = 10, current_rtt = 0, state = INIT, rcvtimeo = 0, errno = ENONE, trace = []\<rparr>"

definition get_estimated_rtt :: "reliable_socket \<Rightarrow> u32" where
  "get_estimated_rtt s = estimated_rtt s"

definition set_timeout_length :: "reliable_socket \<Rightarrow> u32 \<Rightarrow> reliable_socket" where
  "set_timeout_length s timeout_length_ms = emit (SetTimeout timeout_length_ms) (s\<lparr>rcvtimeo := timeout_length_ms\<rparr>)"

text \<open>
  The conversion of a \<^verbatim>\<open>double\<close> to \<^verbatim>\<open>int\<close> truncates towards zero. The doubles of
  set_estimated_rtt are a 32-bit integer times 0.875, 0.75, 0.125 or 0.25 and sums of two
  such values: each is exact in a 53-bit mantissa, so real arithmetic computes them, and
  each lies within the range of \<^verbatim>\<open>int\<close>. The members estimated_rtt, dev_rtt and current_rtt
  and the local \<open>deviation\<close> are 32-bit \<^verbatim>\<open>int\<close>: words read through \<open>sint\<close>, whose
  subtraction, negation, addition and multiplication wrap around. Passing an \<^verbatim>\<open>int\<close> for
  the \<^verbatim>\<open>uint32_t\<close> parameter of set_timeout_length keeps its bits.
\<close>

definition double_to_int :: "real \<Rightarrow> int" where
  "double_to_int x = (if x < 0 then \<lceil>x\<rceil> else \<lfloor>x\<rfloor>)"

definition set_estimated_rtt :: "reliable_socket \<Rightarrow> reliable_socket" where
  "set_estimated_rtt s =
     (let e1 = (word_of_int (double_to_int (real_of_int (sint (estimated_rtt s)) * (1 - 0.125))) :: i32);
          e2 = (word_of_int (double_to_int (real_of_int (sint e1)
                  + real_of_int (sint (current_rtt s)) * 0.125)) :: i32);
          d1 = (word_of_int (double_to_int (real_of_int (sint (dev_rtt s)) * (1 - 0.25))) :: i32);
          deviation = current_rtt s - e2;
          deviation = (if sint deviation < 0 then deviation * - 1 else deviation);
          d2 = (word_of_int (double_to_int (real_of_int (sint d1)
                  + real_of_int (sint deviation) * 0.25)) :: i32);
          s' = s\<lparr>estimated_rtt := e2, dev_rtt := d2\<rparr>
      in set_timeout_length s' (estimated_rtt s' + 4 * dev_rtt s'))"

text \<open>
  The loop of send_seg_reliable. \<open>curTimeout\<close> is uninitialised in the source and is
  read only when \<open>lastTimeout\<close> holds, that is after it has been written.
\<close>

fun send_seg_loop ::
  "byte list \<Rightarrow> nat \<Rightarrow> bool \<Rightarrow> u32 \<Rightarrow> reliable_socket \<Rightarrow> event list \<Rightarrow> (byte list) outcome" where
  "send_seg_loop sendSegment senderSize lastTimeout curTimeout s [] =
     Blocked (emit (Send (take senderSize sendSegment)) s)"
| "send_seg_loop sendSegment senderSize lastTimeout curTimeout s (ev # evs) =
     (let s1 = emit (Send (take senderSize sendSegment)) s in
      case ev of
        Recv dt bs \<Rightarrow> Done (recv_buf bs) (s1\<lparr>current_rtt := dt\<rparr>) evs
      | Timeout \<Rightarrow>
          (let s2 = emit (Diag ''TIMEOUT. DOUBLING THE LENGTH OF TIMEOUT'') (s1\<lparr>errno := EAGAIN\<rparr>);
               cur = (if lastTimeout then 2 * curTimeout
                      else ((estimated_rtt s2 + 4 * dev_rtt s2) * 2))
           in send_seg_loop sendSegment senderSize True cur (set_timeout_length s2 cur) evs)
      | Error \<Rightarrow> Exit (emit (Diag ''No ACK recv'') (s1\<lparr>errno := EOTHER\<rparr>)))"

definition send_seg_reliable ::
  "byte list \<Rightarrow> nat \<Rightarrow> reliable_socket \<Rightarrow> event list \<Rightarrow> (byte list) outcome" where
  "send_seg_reliable sendSegment senderSize s evs =
     (let s0 = set_timeout_length s ((estimated_rtt s + 4 * dev_rtt s)) in
      case send_seg_loop sendSegment senderSize False 0 s0 evs of
        Done recvSegment s1 evs1 \<Rightarrow> Done recvSegment (set_estimated_rtt s1) evs1
      | Exit s1 \<Rightarrow> Exit s1
      | Fault f s1 \<Rightarrow> Fault f s1
      | Blocked s1 \<Rightarrow> Blocked s1)"

fun send_timeout :: "byte list \<Rightarrow> reliable_socket \<Rightarrow> event list \<Rightarrow> unit outcome" where
  "send_timeout sendSegment s [] =
     (let s1 = emit (Send (take sizeof_RDTHeader sendSegment)) s in
      Blocked (set_timeout_length s1 ((estimated_rtt s1 + 4 * dev_rtt s1))))"
| "send_timeout sendSegment s (ev # evs) =
     (let s1 = emit (Send (take sizeof_RDTHeader sendSegment)) s;
          s2 = set_timeout_length s1 ((estimated_rtt s1 + 4 * dev_rtt s1)) in
      case ev of
        Recv dt bs \<Rightarrow> send_timeout sendSegment s2 evs
      | Timeout \<Rightarrow> Done () (s2\<lparr>errno := EAGAIN\<rparr>) evs
      | Error \<Rightarrow> Exit (emit (Diag ''send_timeout recieve error'') (s2\<lparr>errno := EOTHER\<rparr>)))"

lemma send_seg_loop_consumes:
  "send_seg_loop sendSegment senderSize lastTimeout curTimeout s evs = Done r s' evs'
     \<Longrightarrow> length evs' < length evs"
proof (induction evs arbitrary: lastTimeout curTimeout s)
  case Nil
  then show ?case by simp
next
  case (Cons ev evs)
  show ?case
  proof (cases ev)
    case (Recv dt bs)
    with Cons.prems show ?thesis by (simp add: Let_def)
  next
    case Timeout
    with Cons.prems have "length evs' < length evs"
      by (auto simp: Let_def dest: Cons.IH)
    then show ?thesis by simp
  next
    case Error
    with Cons.prems show ?thesis by (simp add: Let_def)
  qed
qed

lemma send_seg_reliable_consumes:
  "send_seg_reliable sendSegment senderSize s evs = Done r s' evs' \<Longrightarrow> length evs' < length evs"
  by (auto simp: send_seg_reliable_def Let_def split: outcome.splits
      dest: send_seg_loop_consumes)

subsection \<open>accept_connection\<close>

text \<open>The \<^verbatim>\<open>while(1)\<close> of accept_connection: SYNACK until the reply is an ACK or DATA.\<close>

function accept_loop :: "byte list \<Rightarrow> reliable_socket \<Rightarrow> event list \<Rightarrow> unit outcome" where
  "accept_loop sendSegment s evs =
     (let s1 = set_timeout_length s ((estimated_rtt s + 4 * dev_rtt s)) in
      case send_seg_reliable sendSegment sizeof_RDTHeader s1 evs of
        Done recvSegment s2 evs2 \<Rightarrow>
          if hdr_type recvSegment = RDT_ACK then Done () s2 evs2
          else if hdr_type recvSegment = RDT_DATA then Done () s2 evs2
          else accept_loop sendSegment s2 evs2
      | Exit s2 \<Rightarrow> Exit s2
      | Fault f s2 \<Rightarrow> Fault f s2
      | Blocked s2 \<Rightarrow> Blocked s2)"
  by pat_completeness auto
termination
  by (relation "measure (\<lambda>(sendSegment, s, evs). length evs)")
    (auto dest: send_seg_reliable_consumes)

declare accept_loop.simps [simp del]

definition accept_connection :: "reliable_socket \<Rightarrow> event list \<Rightarrow> unit outcome" where
  "accept_connection s evs =
     (if state s \<noteq> INIT then Exit (emit (Diag ''Cannot call accept on used socket'') s)
      else case evs of
        [] \<Rightarrow> Blocked s
      | Timeout # evs1 \<Rightarrow> Exit (emit (Diag ''accept recvfrom'') (s\<lparr>errno := EAGAIN\<rparr>))
      | Error # evs1 \<Rightarrow> Exit (emit (Diag ''accept recvfrom'') (s\<lparr>errno := EOTHER\<rparr>))
      | Recv dt bs # evs1 \<Rightarrow>
          if hdr_type (recv_buf bs) \<noteq> RDT_SYN
          then Exit (emit (Diag ''ERROR: Didn't get the expected RDT_SYN type.'') s)
          else (case accept_loop (segment (header 0 0 RDT_SYNACK)) s evs1 of
                  Done u s1 evs2 \<Rightarrow>
                    Done () (emit (Diag ''INFO: Connection ESTABLISHED'') (s1\<lparr>state := ESTABLISHED\<rparr>)) evs2
                | Exit s1 \<Rightarrow> Exit s1
                | Fault f s1 \<Rightarrow> Fault f s1
                | Blocked s1 \<Rightarrow> Blocked s1))"

subsection \<open>connect_to_remote\<close>

definition connect_to_remote :: "reliable_socket \<Rightarrow> event list \<Rightarrow> unit outcome" where
  "connect_to_remote s evs =
     (if state s \<noteq> INIT
      then Done () (emit (Diag ''Cannot call connect_to_remote on used socket'') s) evs
      else
        let s1 = set_timeout_length s ((estimated_rtt s + 4 * dev_rtt s)) in
        case send_seg_reliable (segment (header 0 0 RDT_SYN)) sizeof_RDTHeader s1 evs of
          Done recvSegment s2 evs2 \<Rightarrow>
            (let s3 = (if hdr_type recvSegment \<noteq> RDT_SYNACK then emit (Diag ''Not a SYNACK'') s2
                       else s2) in
             case send_timeout (segment (header 0 0 RDT_ACK)) s3 evs2 of
               Done u s4 evs4 \<Rightarrow>
                 Done () (emit (Diag ''INFO: Connection ESTABLISHED'') (s4\<lparr>state := ESTABLISHED\<rparr>)) evs4
             | Exit s4 \<Rightarrow> Exit s4
             | Fault f s4 \<Rightarrow> Fault f s4
             | Blocked s4 \<Rightarrow> Blocked s4)
        | Exit s2 \<Rightarrow> Exit s2
        | Fault f s2 \<Rightarrow> Fault f s2
        | Blocked s2 \<Rightarrow> Blocked s2)"

subsection \<open>send_data\<close>

text \<open>The \<^verbatim>\<open>while(1)\<close> of send_data: the same DATA segment until the matching ACK.\<close>

function send_data_loop :: "byte list \<Rightarrow> nat \<Rightarrow> reliable_socket \<Rightarrow> event list \<Rightarrow> unit outcome" where
  "send_data_loop sendSegment length_arg s evs =
     (case send_seg_reliable sendSegment (sizeof_RDTHeader + length_arg) s evs of
        Done recvSegment s1 evs1 \<Rightarrow>
          if hdr_type recvSegment = RDT_ACK then
            (if sequence_number s1 = ntohl (hdr_ack_number recvSegment) then Done () s1 evs1
             else send_data_loop sendSegment length_arg s1 evs1)
          else send_data_loop sendSegment length_arg s1 evs1
      | Exit s1 \<Rightarrow> Exit s1
      | Fault f s1 \<Rightarrow> Fault f s1
      | Blocked s1 \<Rightarrow> Blocked s1)"
  by pat_completeness auto
termination
  by (relation "measure (\<lambda>(sendSegment, length_arg, s, evs). length evs)")
    (auto dest: send_seg_reliable_consumes)

declare send_data_loop.simps [simp del]

text \<open>
  The caller's \<^verbatim>\<open>const void *data\<close> is the memory from that address on, a function
  from offsets to bytes; \<^verbatim>\<open>memcpy(hdr+1, data, length)\<close> writes its first \<open>length\<close>
  bytes behind the header of the zeroed \<^verbatim>\<open>MAX_SEG_SIZE\<close> buffer. The source has no check
  of \<open>length\<close>: bytes written past the end of the buffer lie in the memory behind it, and
  \<^verbatim>\<open>send\<close> with \<open>sizeof(RDTHeader) + length\<close> reads them back from there. So the bytes
  from the address of sendSegment on are the header, the \<open>length\<close> data bytes, and the
  zeros left of the buffer if any. The count of \<^verbatim>\<open>memcpy\<close> is a \<^verbatim>\<open>size_t\<close>: a negative
  \<open>length\<close> converts to more than \<open>2 ^ 63\<close> bytes, a copy that no memory holds.
\<close>

definition data_segment :: "u32 \<Rightarrow> (nat \<Rightarrow> byte) \<Rightarrow> nat \<Rightarrow> byte list" where
  "data_segment seq_no data n =
     (let bs = header seq_no 0 RDT_DATA @ map data [0..<n]
      in bs @ replicate (MAX_SEG_SIZE - length bs) 0)"

definition send_data :: "(nat \<Rightarrow> byte) \<Rightarrow> int \<Rightarrow> reliable_socket \<Rightarrow> event list \<Rightarrow> unit outcome" where
  "send_data data length_arg s evs =
     (if state s \<noteq> ESTABLISHED
      then Done () (emit (Diag ''INFO: Cannot send: Connection not established.'') s) evs
      else if length_arg < 0
      then Fault (Memcpy_overrun length_arg (int MAX_DATA_SIZE)) s
      else
        case send_data_loop (data_segment (sequence_number s) data (nat length_arg)) (nat length_arg) s evs of
          Done u s1 evs1 \<Rightarrow> Done () (s1\<lparr>sequence_number := sequence_number s1 + 1\<rparr>) evs1
        | Exit s1 \<Rightarrow> Exit s1
        | Fault f s1 \<Rightarrow> Fault f s1
        | Blocked s1 \<Rightarrow> Blocked s1)"

subsection \<open>receive_data\<close>

text \<open>
  The \<^verbatim>\<open>while(1)\<close> of receive_data. The caller's \<^verbatim>\<open>char buffer[MAX_DATA_SIZE]\<close> is a
  byte list; the result is the returned count with the buffer afterwards.
  \<^verbatim>\<open>recv_data_size = recv_count - sizeof(RDTHeader)\<close> is computed in \<^verbatim>\<open>size_t\<close> and
  narrowed to \<^verbatim>\<open>int\<close>, which gives the difference as a signed number.
\<close>

fun receive_loop :: "byte list \<Rightarrow> reliable_socket \<Rightarrow> event list \<Rightarrow> (int \<times> byte list) outcome" where
  "receive_loop buffer s [] = Blocked s"
| "receive_loop buffer s (Timeout # evs) = Exit (emit (Diag ''receive_data recv'') (s\<lparr>errno := EAGAIN\<rparr>))"
| "receive_loop buffer s (Error # evs) = Exit (emit (Diag ''receive_data recv'') (s\<lparr>errno := EOTHER\<rparr>))"
| "receive_loop buffer s (Recv dt bs # evs) =
     (let recvSegment = recv_buf bs;
          recv_count = recv_ret bs;
          sequence_num = hdr_sequence_number recvSegment in
      if hdr_type recvSegment = RDT_ACK then receive_loop buffer s evs
      else if hdr_type recvSegment = RDT_CLOSE then
        (case send_timeout (header 0 0 RDT_ACK) s evs of
           Done u s1 evs1 \<Rightarrow> Done (0, buffer) (s1\<lparr>state := FIN\<rparr>) evs1
         | Exit s1 \<Rightarrow> Exit s1
         | Fault f s1 \<Rightarrow> Fault f s1
         | Blocked s1 \<Rightarrow> Blocked s1)
      else
        (let s1 = emit (Send (sequence_num @ sequence_num @ [RDT_ACK, 0, 0, 0])) s in
         if ntohl sequence_num = sequence_number s1 then
           (let s2 = s1\<lparr>sequence_number := sequence_number s1 + 1\<rparr>;
                recv_data_size = recv_count - int sizeof_RDTHeader in
            if recv_data_size < 0 \<or> int (length buffer) < recv_data_size
            then Fault (Memcpy_overrun recv_data_size (int (length buffer))) s2
            else Done (recv_data_size,
                       take (nat recv_data_size) (drop sizeof_RDTHeader recvSegment)
                         @ drop (nat recv_data_size) buffer) s2 evs)
         else receive_loop buffer s1 evs))"

definition receive_data :: "byte list \<Rightarrow> reliable_socket \<Rightarrow> event list \<Rightarrow> (int \<times> byte list) outcome" where
  "receive_data buffer s evs =
     (if state s \<noteq> ESTABLISHED
      then Done (0, buffer) (emit (Diag ''INFO: Cannot receive: Connection not established.'') s) evs
      else receive_loop buffer (set_timeout_length s 0) evs)"

subsection \<open>close_connection\<close>

text \<open>First loop of send_close: CLOSE until the reply is an ACK or a CLOSE.\<close>

function send_close_request :: "byte list \<Rightarrow> reliable_socket \<Rightarrow> event list \<Rightarrow> unit outcome" where
  "send_close_request sendSegment s evs =
     (case send_seg_reliable sendSegment sizeof_RDTHeader s evs of
        Done recvSegment s1 evs1 \<Rightarrow>
          if hdr_type recvSegment = RDT_ACK then Done () s1 evs1
          else if hdr_type recvSegment = RDT_CLOSE then Done () s1 evs1
          else send_close_request sendSegment s1 evs1
      | Exit s1 \<Rightarrow> Exit s1
      | Fault f s1 \<Rightarrow> Fault f s1
      | Blocked s1 \<Rightarrow> Blocked s1)"
  by pat_completeness auto
termination
  by (relation "measure (\<lambda>(sendSegment, s, evs). length evs)")
    (auto dest: send_seg_reliable_consumes)

declare send_close_request.simps [simp del]

text \<open>Second loop of send_close: wait for the peer's CLOSE.\<close>

fun send_close_await :: "reliable_socket \<Rightarrow> event list \<Rightarrow> unit outcome" where
  "send_close_await s [] = Blocked s"
| "send_close_await s (Error # evs) = Exit (emit (Diag ''send_close recv error'') (s\<lparr>errno := EOTHER\<rparr>))"
| "send_close_await s (Timeout # evs) = send_close_await (s\<lparr>errno := EAGAIN\<rparr>) evs"
| "send_close_await s (Recv dt bs # evs) =
     (if hdr_type (recv_buf bs) = RDT_CLOSE then Done () s evs else send_close_await s evs)"

text \<open>
  Third loop of send_close: the final ACK and the wait of \<^verbatim>\<open>WAIT_TIME\<close>. The branch
  is taken on \<^verbatim>\<open>recv(...) > 0\<close>; in the other branch \<^verbatim>\<open>errno\<close> is read whether or not
  this \<^verbatim>\<open>recv\<close> has set it.
\<close>

fun send_close_wait :: "byte list \<Rightarrow> reliable_socket \<Rightarrow> event list \<Rightarrow> unit outcome" where
  "send_close_wait sendSegment s [] =
     Blocked (set_timeout_length (emit (Send (take sizeof_RDTHeader sendSegment)) s) (word_of_int WAIT_TIME))"
| "send_close_wait sendSegment s (ev # evs) =
     (let s1 = emit (Send (take sizeof_RDTHeader sendSegment)) s;
          s2 = set_timeout_length s1 (word_of_int WAIT_TIME) in
      case ev of
        Recv dt bs \<Rightarrow>
          if recv_ret bs > 0 then
            (if hdr_type (recv_buf bs) = RDT_CLOSE then send_close_wait sendSegment s2 evs
             else send_close_wait sendSegment s2 evs)
          else if errno s2 = EAGAIN then Done () s2 evs
          else Exit (emit (Diag ''send_close recv error'') s2)
      | Timeout \<Rightarrow> Done () (s2\<lparr>errno := EAGAIN\<rparr>) evs
      | Error \<Rightarrow> Exit (emit (Diag ''send_close recv error'') (s2\<lparr>errno := EOTHER\<rparr>)))"

definition send_close :: "reliable_socket \<Rightarrow> event list \<Rightarrow> unit outcome" where
  "send_close s evs =
     (case send_close_request (segment (header 0 0 RDT_CLOSE)) s evs of
        Done u s1 evs1 \<Rightarrow>
          (case send_close_await s1 evs1 of
             Done u s2 evs2 \<Rightarrow> send_close_wait (segment (header 0 0 RDT_ACK)) s2 evs2
           | Exit s2 \<Rightarrow> Exit s2
           | Fault f s2 \<Rightarrow> Fault f s2
           | Blocked s2 \<Rightarrow> Blocked s2)
      | Exit s1 \<Rightarrow> Exit s1
      | Fault f s1 \<Rightarrow> Fault f s1
      | Blocked s1 \<Rightarrow> Blocked s1)"

function recv_close_loop :: "byte list \<Rightarrow> reliable_socket \<Rightarrow> event list \<Rightarrow> unit outcome" where
  "recv_close_loop sendSegment s evs =
     (case send_seg_reliable sendSegment sizeof_RDTHeader s evs of
        Done recvSegment s1 evs1 \<Rightarrow>
          if hdr_type recvSegment = RDT_ACK then Done () s1 evs1
          else recv_close_loop sendSegment s1 evs1
      | Exit s1 \<Rightarrow> Exit s1
      | Fault f s1 \<Rightarrow> Fault f s1
      | Blocked s1 \<Rightarrow> Blocked s1)"
  by pat_completeness auto
termination
  by (relation "measure (\<lambda>(sendSegment, s, evs). length evs)")
    (auto dest: send_seg_reliable_consumes)

declare recv_close_loop.simps [simp del]

definition recv_close :: "reliable_socket \<Rightarrow> event list \<Rightarrow> unit outcome" where
  "recv_close s evs =
     recv_close_loop (segment (header 0 0 RDT_CLOSE))
       (set_timeout_length s ((estimated_rtt s + 4 * dev_rtt s))) evs"

definition close_connection :: "reliable_socket \<Rightarrow> event list \<Rightarrow> unit outcome" where
  "close_connection s evs =
     (case (if state s \<noteq> FIN then send_close s evs else recv_close s evs) of
        Done u s1 evs1 \<Rightarrow>
          Done () (emit (Diag ''Connection Closed as Expected'') (emit CloseFd (s1\<lparr>state := CLOSED\<rparr>))) evs1
      | Exit s1 \<Rightarrow> Exit s1
      | Fault f s1 \<Rightarrow> Fault f s1
      | Blocked s1 \<Rightarrow> Blocked s1)"

section \<open>A caller\<close>

text \<open>
  A program that calls send_data and receive_data one after the other on one connection,
  and stops at the first call that does not return.
\<close>

datatype call = Call_send "nat \<Rightarrow> byte" int | Call_receive "byte list"

fun run_calls :: "call list \<Rightarrow> reliable_socket \<Rightarrow> event list \<Rightarrow> unit outcome" where
  "run_calls [] s evs = Done () s evs"
| "run_calls (Call_send data length_arg # cs) s evs =
     (case send_data data length_arg s evs of
        Done u s1 evs1 \<Rightarrow> run_calls cs s1 evs1
      | Exit s1 \<Rightarrow> Exit s1
      | Fault f s1 \<Rightarrow> Fault f s1
      | Blocked s1 \<Rightarrow> Blocked s1)"
| "run_calls (Call_receive buffer # cs) s evs =
     (case receive_data buffer s evs of
        Done r s1 evs1 \<Rightarrow> run_calls cs s1 evs1
      | Exit s1 \<Rightarrow> Exit s1
      | Fault f s1 \<Rightarrow> Fault f s1
      | Blocked s1 \<Rightarrow> Blocked s1)"

section \<open>Reading a trace\<close>

text \<open>The receive deadlines handed to setsockopt, in order.\<close>

fun deadlines :: "action list \<Rightarrow> u32 list" where
  "deadlines [] = []"
| "deadlines (SetTimeout t # tr) = t # deadlines tr"
| "deadlines (a # tr) = deadlines tr"

text \<open>The datagrams handed to send, in order.\<close>

fun sends :: "action list \<Rightarrow> byte list list" where
  "sends [] = []"
| "sends (Send b # tr) = b # sends tr"
| "sends (a # tr) = sends tr"

text \<open>
  The claim's words for the retries: \<open>k\<close> values of which the first is twice \<open>t\<close> and each
  later one twice the one before it, in unbounded arithmetic.
\<close>

definition doubled :: "nat \<Rightarrow> nat \<Rightarrow> nat list" where
  "doubled t k = map (\<lambda>i. 2 ^ Suc i * t) [0..<k]"

text \<open>The member variables of the class, without the process state beside them.\<close>

definition fields :: "reliable_socket \<Rightarrow> u32 \<times> u32 \<times> i32 \<times> i32 \<times> i32 \<times> connection_status" where
  "fields s = (sequence_number s, expected_sequence_number s, estimated_rtt s, dev_rtt s,
               current_rtt s, state s)"

text \<open>The state a call ends in, and the fields that no retry may change.\<close>

fun outcome_state :: "'a outcome \<Rightarrow> reliable_socket" where
  "outcome_state (Done x s evs) = s"
| "outcome_state (Exit s) = s"
| "outcome_state (Fault f s) = s"
| "outcome_state (Blocked s) = s"

definition control :: "reliable_socket \<Rightarrow> u32 \<times> u32 \<times> connection_status" where
  "control s = (sequence_number s, expected_sequence_number s, state s)"

text \<open>
  The events without the deadline expiries, and two results that end the same way with the
  same member variables, the second having been run on the events without the expiries.
\<close>

fun no_timeouts :: "event list \<Rightarrow> event list" where
  "no_timeouts [] = []"
| "no_timeouts (Timeout # evs) = no_timeouts evs"
| "no_timeouts (ev # evs) = ev # no_timeouts evs"

fun same_ending :: "'a outcome \<Rightarrow> 'a outcome \<Rightarrow> bool" where
  "same_ending (Done x s evs) (Done y t evs') = (x = y \<and> fields s = fields t \<and> evs' = no_timeouts evs)"
| "same_ending (Exit s) (Exit t) = (fields s = fields t)"
| "same_ending (Fault f s) (Fault g t) = (f = g \<and> fields s = fields t)"
| "same_ending (Blocked s) (Blocked t) = (fields s = fields t)"
| "same_ending a b = False"

text \<open>
  Two results that end the same way with the same return value, the same member variables
  and the same events left.
\<close>

fun same_result :: "'a outcome \<Rightarrow> 'a outcome \<Rightarrow> bool" where
  "same_result (Done x s evs) (Done y t evs') = (x = y \<and> fields s = fields t \<and> evs' = evs)"
| "same_result (Exit s) (Exit t) = (fields s = fields t)"
| "same_result (Fault f s) (Fault g t) = (f = g \<and> fields s = fields t)"
| "same_result (Blocked s) (Blocked t) = (fields s = fields t)"
| "same_result a b = False"

section \<open>Basic facts\<close>

lemma deadlines_append: "deadlines (xs @ ys) = deadlines xs @ deadlines ys"
  by (induction xs rule: deadlines.induct) simp_all

lemma sends_append: "sends (xs @ ys) = sends xs @ sends ys"
  by (induction xs rule: sends.induct) simp_all

lemma ntohl_htonl: "ntohl (htonl x) = x"
  unfolding ntohl_def htonl_def
  apply simp
  apply (rule bit_word_eqI)
  apply (auto simp: bit_simps)
  subgoal for n by (cases "16 \<le> n") auto
  subgoal for n by (cases "24 \<le> n"; cases "16 \<le> n") auto
  done

lemma double_to_int_near: "\<bar>real_of_int (double_to_int x) - x\<bar> < 1"
  unfolding double_to_int_def by (auto; linarith)

lemma set_estimated_rtt_fields:
  "sequence_number (set_estimated_rtt s) = sequence_number s"
  "expected_sequence_number (set_estimated_rtt s) = expected_sequence_number s"
  "state (set_estimated_rtt s) = state s"
  "current_rtt (set_estimated_rtt s) = current_rtt s"
  "errno (set_estimated_rtt s) = errno s"
  by (simp_all add: set_estimated_rtt_def Let_def set_timeout_length_def emit_def)

lemma set_estimated_rtt_timeout:
  "rcvtimeo (set_estimated_rtt s) =
     (estimated_rtt (set_estimated_rtt s) + 4 * dev_rtt (set_estimated_rtt s))"
  "trace (set_estimated_rtt s) = trace s @ [SetTimeout (rcvtimeo (set_estimated_rtt s))]"
  by (simp_all add: set_estimated_rtt_def Let_def set_timeout_length_def emit_def)

lemma fields_simps [simp]:
  "fields (emit a s) = fields s"
  "fields (set_timeout_length s t) = fields s"
  "fields (s\<lparr>errno := e\<rparr>) = fields s"
  "fields (s\<lparr>trace := tr\<rparr>) = fields s"
  "fields (s\<lparr>rcvtimeo := t\<rparr>) = fields s"
  by (simp_all add: fields_def emit_def set_timeout_length_def)

lemma fields_set_estimated_rtt:
  "fields a = fields b \<Longrightarrow> fields (set_estimated_rtt a) = fields (set_estimated_rtt b)"
  by (simp add: fields_def set_estimated_rtt_def Let_def set_timeout_length_def emit_def)

lemma fields_current_rtt:
  "fields a = fields b \<Longrightarrow> fields (a\<lparr>current_rtt := dt\<rparr>) = fields (b\<lparr>current_rtt := dt\<rparr>)"
  by (simp add: fields_def)

lemma length_segment [simp]: "length (segment bs) = MAX_SEG_SIZE"
  by (simp add: segment_def)

lemma length_recv_buf [simp]: "length (recv_buf bs) = MAX_SEG_SIZE"
  by (simp add: recv_buf_def)

lemma length_htonl [simp]: "length (htonl x) = 4"
  by (simp add: htonl_def)

lemma length_header [simp]: "length (header a b ty) = sizeof_RDTHeader"
  by (simp add: header_def sizeof_RDTHeader_def)

lemma length_hdr_sequence_number:
  "length buf = MAX_SEG_SIZE \<Longrightarrow> length (hdr_sequence_number buf) = 4"
  by (simp add: hdr_sequence_number_def MAX_SEG_SIZE_def)

lemma RDT_distinct:
  "RDT_DATA \<noteq> RDT_ACK" "RDT_DATA \<noteq> RDT_CLOSE" "RDT_ACK \<noteq> RDT_CLOSE" "RDT_SYN \<noteq> RDT_ACK"
  "RDT_SYN \<noteq> RDT_CLOSE" "RDT_SYNACK \<noteq> RDT_ACK" "RDT_SYNACK \<noteq> RDT_CLOSE"
  "RDT_SYN \<noteq> RDT_SYNACK" "RDT_DATA \<noteq> RDT_SYNACK" "RDT_DATA \<noteq> RDT_SYN"
  by (simp_all add: RDT_defs)

text \<open>Reading the header of a received datagram that starts with a header.\<close>

lemma hdr_type_recv_header:
  "hdr_type (recv_buf (header a b ty @ payload)) = ty"
  by (simp add: hdr_type_def recv_buf_def segment_def header_def nth_append MAX_SEG_SIZE_def)

lemma hdr_seq_recv_header:
  "hdr_sequence_number (recv_buf (header a b ty @ payload)) = htonl a"
  by (simp add: hdr_sequence_number_def recv_buf_def segment_def header_def MAX_SEG_SIZE_def)

lemma hdr_ack_recv_header:
  "hdr_ack_number (recv_buf (header a b ty @ payload)) = htonl b"
  by (simp add: hdr_ack_number_def recv_buf_def segment_def header_def MAX_SEG_SIZE_def)

lemma take_header_segment [simp]:
  "take sizeof_RDTHeader (segment (header a b ty)) = header a b ty"
  by (simp add: segment_def size_defs header_def)

section \<open>The RTT estimator\<close>

text \<open>Reading a 32-bit \<^verbatim>\<open>int\<close>, and storing a value that fits one.\<close>

lemma sint32_range: "- (2 ^ 31) \<le> sint (w :: i32)" "sint w < 2 ^ 31"
  using sint_ge [of w] sint_lt [of w] by simp_all

lemma sint_word_of_int32:
  "- (2 ^ 31) \<le> i \<Longrightarrow> i < 2 ^ 31 \<Longrightarrow> sint (word_of_int i :: i32) = i"
  by (simp add: signed_of_int signed_take_bit_int_eq_self)

text \<open>
  The truncations of set_estimated_rtt stay within the range of \<^verbatim>\<open>int\<close>: the conversions of
  the source are defined, and the stored word reads back as the truncated value.
\<close>

lemma double_to_int_bounds:
  assumes "real_of_int a - 1 < x" and "x < real_of_int b + 1" and "a \<le> 0" and "0 \<le> b"
  shows "a \<le> double_to_int x" and "double_to_int x \<le> b"
proof -
  have c: "a \<le> \<lceil>x\<rceil>"
    using assms(1) by linarith
  have f: "\<lfloor>x\<rfloor> \<le> b"
    using assms(2) by linarith
  show "a \<le> double_to_int x"
  proof (cases "x < 0")
    case True
    then show ?thesis using c by (simp add: double_to_int_def)
  next
    case False
    then have "0 \<le> \<lfloor>x\<rfloor>" by simp
    moreover have "double_to_int x = \<lfloor>x\<rfloor>"
      using False by (simp add: double_to_int_def)
    ultimately show ?thesis using assms(3) by linarith
  qed
  show "double_to_int x \<le> b"
  proof (cases "x < 0")
    case True
    then have "\<lceil>x\<rceil> \<le> 0" by (simp add: ceiling_le_iff)
    moreover have "double_to_int x = \<lceil>x\<rceil>"
      using True by (simp add: double_to_int_def)
    ultimately show ?thesis using assms(4) by linarith
  next
    case False
    then show ?thesis using f by (simp add: double_to_int_def)
  qed
qed

lemma real_of_int32_range:
  assumes "- (2 ^ 31) \<le> i" and "i < 2 ^ 31"
  shows "- 2147483648 \<le> real_of_int i" and "real_of_int i \<le> 2147483647"
proof -
  have "- 2147483648 \<le> i" "i \<le> 2147483647"
    using assms by simp_all
  then show "- 2147483648 \<le> real_of_int i" "real_of_int i \<le> 2147483647"
    by linarith+
qed

lemma scaled_estimate_bounds:
  assumes "- (2 ^ 31) \<le> i" and "i < 2 ^ 31"
  shows "- 1879048192 \<le> double_to_int (real_of_int i * (1 - 0.125))"
    and "double_to_int (real_of_int i * (1 - 0.125)) \<le> 1879048191"
proof -
  let ?x = "real_of_int i * (1 - 0.125)"
  note r = real_of_int32_range [OF assms]
  have lo: "real_of_int (- 1879048192) - 1 < ?x" and hi: "?x < real_of_int 1879048191 + 1"
    using r by simp_all
  from double_to_int_bounds [OF lo hi]
  show "- 1879048192 \<le> double_to_int ?x" "double_to_int ?x \<le> 1879048191"
    by simp_all
qed

lemma scaled_deviation_bounds:
  assumes "- (2 ^ 31) \<le> i" and "i < 2 ^ 31"
  shows "- 1610612736 \<le> double_to_int (real_of_int i * (1 - 0.25))"
    and "double_to_int (real_of_int i * (1 - 0.25)) \<le> 1610612735"
proof -
  let ?x = "real_of_int i * (1 - 0.25)"
  note r = real_of_int32_range [OF assms]
  have lo: "real_of_int (- 1610612736) - 1 < ?x" and hi: "?x < real_of_int 1610612735 + 1"
    using r by simp_all
  from double_to_int_bounds [OF lo hi]
  show "- 1610612736 \<le> double_to_int ?x" "double_to_int ?x \<le> 1610612735"
    by simp_all
qed

lemma added_sample_bounds:
  assumes "- 1879048192 \<le> e" and "e \<le> 1879048191" and "- (2 ^ 31) \<le> i" and "i < 2 ^ 31"
  shows "- (2 ^ 31) \<le> double_to_int (real_of_int e + real_of_int i * 0.125)"
    and "double_to_int (real_of_int e + real_of_int i * 0.125) < 2 ^ 31"
proof -
  let ?x = "real_of_int e + real_of_int i * 0.125"
  note r = real_of_int32_range [OF assms(3,4)]
  have "- 1879048192 \<le> real_of_int e" "real_of_int e \<le> 1879048191"
    using assms(1,2) by linarith+
  then have lo: "real_of_int (- 2147483648) - 1 < ?x" and hi: "?x < real_of_int 2147483647 + 1"
    using r by simp_all
  from double_to_int_bounds [OF lo hi]
  show "- (2 ^ 31) \<le> double_to_int ?x" "double_to_int ?x < 2 ^ 31"
    by simp_all
qed

lemma added_deviation_bounds:
  assumes "- 1610612736 \<le> d" and "d \<le> 1610612735" and "- (2 ^ 31) \<le> i" and "i < 2 ^ 31"
  shows "- (2 ^ 31) \<le> double_to_int (real_of_int d + real_of_int i * 0.25)"
    and "double_to_int (real_of_int d + real_of_int i * 0.25) < 2 ^ 31"
proof -
  let ?x = "real_of_int d + real_of_int i * 0.25"
  note r = real_of_int32_range [OF assms(3,4)]
  have "- 1610612736 \<le> real_of_int d" "real_of_int d \<le> 1610612735"
    using assms(1,2) by linarith+
  then have lo: "real_of_int (- 2147483648) - 1 < ?x" and hi: "?x < real_of_int 2147483647 + 1"
    using r by simp_all
  from double_to_int_bounds [OF lo hi]
  show "- (2 ^ 31) \<le> double_to_int ?x" "double_to_int ?x < 2 ^ 31"
    by simp_all
qed

text \<open>The absolute value of the 32-bit difference, where the difference fits.\<close>

lemma sint_abs_difference:
  fixes r e :: i32
  assumes "- (2 ^ 31) < sint r - sint e" and "sint r - sint e < 2 ^ 31"
  shows "sint (if sint (r - e) < 0 then (r - e) * - 1 else r - e) = \<bar>sint r - sint e\<bar>"
proof -
  have d: "sint (r - e) = sint r - sint e"
  proof -
    have "r - e = word_of_int (sint r - sint e)" by simp
    then have "sint (r - e) = sint (word_of_int (sint r - sint e) :: i32)" by simp
    also have "\<dots> = sint r - sint e"
      using assms by (intro sint_word_of_int32) simp_all
    finally show ?thesis .
  qed
  have n: "sint ((r - e) * - 1) = sint e - sint r"
  proof -
    have "(r - e) * - 1 = word_of_int (sint e - sint r)" by simp
    then have "sint ((r - e) * - 1) = sint (word_of_int (sint e - sint r) :: i32)" by simp
    also have "\<dots> = sint e - sint r"
      using assms by (intro sint_word_of_int32) simp_all
    finally show ?thesis .
  qed
  show ?thesis
    using d n by auto
qed

text \<open>
  C1, as stated, at the constructor's values and the sample 4: the claim's formula gives
  \<open>100 * 0.875 + 4 * 0.125 = 88\<close>, a whole number. The code truncates \<open>87.5\<close> to 87
  in the first assignment and \<open>87 + 0.5\<close> to 87 in the second: the \<^verbatim>\<open>int\<close> field
  holds 87.
\<close>

theorem set_estimated_rtt_not_exact:
  "sint (estimated_rtt (set_estimated_rtt (ReliableSocket\<lparr>current_rtt := 4\<rparr>))) = 87
   \<and> real_of_int (sint (estimated_rtt ReliableSocket)) * (1 - 0.125) + 4 * 0.125 = 88
   \<and> real_of_int (sint (estimated_rtt (set_estimated_rtt (ReliableSocket\<lparr>current_rtt := 4\<rparr>))))
     \<noteq> real_of_int (sint (estimated_rtt ReliableSocket)) * (1 - 0.125) + 4 * 0.125"
  by (simp add: set_estimated_rtt_def ReliableSocket_def double_to_int_def
      set_timeout_length_def emit_def Let_def)

text \<open>
  The local \<open>deviation\<close> is an \<^verbatim>\<open>int\<close>: where \<open>current_rtt - estimated_rtt\<close> leaves the
  range of \<^verbatim>\<open>int\<close> it wraps, and so does the deadline \<open>estimated_rtt + 4 * dev_rtt\<close> passed
  as \<^verbatim>\<open>uint32_t\<close>.
\<close>

lemma set_estimated_rtt_wraps:
  "dev_rtt (set_estimated_rtt
      (ReliableSocket\<lparr>estimated_rtt := 2000000000, current_rtt := - 2000000000\<rparr>)) = 198741831
   \<and> estimated_rtt (set_estimated_rtt
      (ReliableSocket\<lparr>estimated_rtt := 2000000000, current_rtt := - 2000000000\<rparr>)) = 1500000000
   \<and> rcvtimeo (set_estimated_rtt
      (ReliableSocket\<lparr>estimated_rtt := 2000000000, current_rtt := - 2000000000\<rparr>)) = 2294967324"
  by (simp add: set_estimated_rtt_def ReliableSocket_def double_to_int_def
      set_timeout_length_def emit_def Let_def)

text \<open>
  C1, amended. With \<open>E\<close>, \<open>D\<close> the \<^verbatim>\<open>int\<close> fields estimated_rtt and dev_rtt and
  \<open>R = current_rtt\<close> the sample, set_estimated_rtt stores the truncation to \<^verbatim>\<open>int\<close> of
  \<open>trunc (E * (1 - 0.125)) + R * 0.125\<close> as the new estimated_rtt \<open>E'\<close>, and the truncation of
  \<open>trunc (D * (1 - 0.25)) + deviation * 0.25\<close> as the new dev_rtt \<open>D'\<close>, where \<open>deviation\<close>
  is the \<^verbatim>\<open>int\<close> holding the absolute value of \<open>R - E'\<close>, taken against the estimate just
  updated: it is \<open>\<bar>R - E'\<bar>\<close> whenever \<open>R - E'\<close> fits an \<^verbatim>\<open>int\<close>. Each stored value is less
  than 2 away from the untruncated formula. The last action is to set the receive deadline
  to the new \<open>estimated_rtt + 4 * dev_rtt\<close> as a \<^verbatim>\<open>uint32_t\<close>, that is \<open>E' + 4 * D'\<close>
  modulo \<open>2 ^ 32\<close>; the sample, the sequence number and the connection state are left as
  they were.
\<close>

theorem set_estimated_rtt_truncates:
  fixes s :: reliable_socket
  defines "E \<equiv> sint (estimated_rtt s)"
  defines "D \<equiv> sint (dev_rtt s)"
  defines "R \<equiv> sint (current_rtt s)"
  defines "s' \<equiv> set_estimated_rtt s"
  defines "E' \<equiv> sint (estimated_rtt s')"
  defines "D' \<equiv> sint (dev_rtt s')"
  defines "deviation \<equiv> sint (if sint (current_rtt s - estimated_rtt s') < 0
                              then (current_rtt s - estimated_rtt s') * - 1
                              else current_rtt s - estimated_rtt s')"
  shows "E' = double_to_int (real_of_int (double_to_int (real_of_int E * (1 - 0.125)))
                              + real_of_int R * 0.125)
       \<and> D' = double_to_int (real_of_int (double_to_int (real_of_int D * (1 - 0.25)))
                              + real_of_int deviation * 0.25)
       \<and> (- (2 ^ 31) < R - E' \<and> R - E' < 2 ^ 31 \<longrightarrow> deviation = \<bar>R - E'\<bar>)
       \<and> \<bar>real_of_int E' - (real_of_int E * (1 - 0.125) + real_of_int R * 0.125)\<bar> < 2
       \<and> \<bar>real_of_int D' - (real_of_int D * (1 - 0.25) + real_of_int deviation * 0.25)\<bar> < 2
       \<and> rcvtimeo s' = estimated_rtt s' + 4 * dev_rtt s'
       \<and> uint (rcvtimeo s') = (E' + 4 * D') mod 2 ^ 32
       \<and> trace s' = trace s @ [SetTimeout (estimated_rtt s' + 4 * dev_rtt s')]
       \<and> current_rtt s' = current_rtt s \<and> sequence_number s' = sequence_number s
       \<and> state s' = state s"
proof -
  define e1 where "e1 = double_to_int (real_of_int E * (1 - 0.125))"
  define e2 where "e2 = double_to_int (real_of_int e1 + real_of_int R * 0.125)"
  define d1 where "d1 = double_to_int (real_of_int D * (1 - 0.25))"
  define e1w :: i32 where "e1w = word_of_int e1"
  define e2w :: i32 where "e2w = word_of_int e2"
  define d1w :: i32 where "d1w = word_of_int d1"
  define dvw :: i32 where
    "dvw = (if sint (current_rtt s - e2w) < 0 then (current_rtt s - e2w) * - 1
            else current_rtt s - e2w)"
  define d2 where "d2 = double_to_int (real_of_int d1 + real_of_int (sint dvw) * 0.25)"
  define d2w :: i32 where "d2w = word_of_int d2"
  note rE = sint32_range [of "estimated_rtt s", folded E_def]
  note rD = sint32_range [of "dev_rtt s", folded D_def]
  note rR = sint32_range [of "current_rtt s", folded R_def]
  note rV = sint32_range [of dvw]
  note b1 = scaled_estimate_bounds [OF rE, folded e1_def]
  note b3 = scaled_deviation_bounds [OF rD, folded d1_def]
  have s1: "sint e1w = e1"
    unfolding e1w_def using b1 by (intro sint_word_of_int32) simp_all
  note b2 = added_sample_bounds [OF b1 rR, folded e2_def]
  have s2: "sint e2w = e2"
    unfolding e2w_def using b2 by (intro sint_word_of_int32)
  have s3: "sint d1w = d1"
    unfolding d1w_def using b3 by (intro sint_word_of_int32) simp_all
  note b4 = added_deviation_bounds [OF b3 rV, folded d2_def]
  have s4: "sint d2w = d2"
    unfolding d2w_def using b4 by (intro sint_word_of_int32)
  have unfold: "set_estimated_rtt s =
     set_timeout_length (s\<lparr>estimated_rtt := e2w, dev_rtt := d2w\<rparr>) (e2w + 4 * d2w)"
    unfolding set_estimated_rtt_def Let_def e2w_def d2w_def d2_def dvw_def d1_def e2_def e1_def
      E_def D_def R_def
    unfolding s1 [unfolded e1w_def e1_def E_def] s3 [unfolded d1w_def d1_def D_def]
    by simp
  have e: "estimated_rtt s' = e2w" and d: "dev_rtt s' = d2w"
    and t: "rcvtimeo s' = e2w + 4 * d2w"
    and tr: "trace s' = trace s @ [SetTimeout (e2w + 4 * d2w)]"
    and rest: "current_rtt s' = current_rtt s" "sequence_number s' = sequence_number s"
      "state s' = state s"
    unfolding s'_def unfold by (simp_all add: set_timeout_length_def emit_def)
  have E': "E' = e2" unfolding E'_def e s2 ..
  have D': "D' = d2" unfolding D'_def d s4 ..
  have dv: "deviation = sint dvw" unfolding deviation_def e dvw_def ..
  have wrap: "- (2 ^ 31) < R - e2 \<and> R - e2 < 2 ^ 31 \<longrightarrow> sint dvw = \<bar>R - e2\<bar>"
    unfolding dvw_def R_def s2 [symmetric] using sint_abs_difference by blast
  have n1: "\<bar>real_of_int e1 - real_of_int E * (1 - 0.125)\<bar> < 1"
    unfolding e1_def by (rule double_to_int_near)
  have n2: "\<bar>real_of_int e2 - (real_of_int e1 + real_of_int R * 0.125)\<bar> < 1"
    unfolding e2_def by (rule double_to_int_near)
  have n3: "\<bar>real_of_int d1 - real_of_int D * (1 - 0.25)\<bar> < 1"
    unfolding d1_def by (rule double_to_int_near)
  have n4: "\<bar>real_of_int d2 - (real_of_int d1 + real_of_int (sint dvw) * 0.25)\<bar> < 1"
    unfolding d2_def by (rule double_to_int_near)
  have c1: "\<bar>real_of_int e2 - (real_of_int E * (1 - 0.125) + real_of_int R * 0.125)\<bar> < 2"
    using n1 n2 by linarith
  have c2: "\<bar>real_of_int d2 - (real_of_int D * (1 - 0.25) + real_of_int (sint dvw) * 0.25)\<bar> < 2"
    using n3 n4 by linarith
  have u: "uint (e2w + 4 * d2w) = (e2 + 4 * d2) mod 2 ^ 32"
  proof -
    have w: "e2w + 4 * d2w = word_of_int (e2 + 4 * d2)"
      unfolding e2w_def d2w_def by simp
    have "uint (word_of_int (e2 + 4 * d2) :: i32) = (e2 + 4 * d2) mod 2 ^ 32"
      by (simp only: uint_word_of_int) simp
    then show ?thesis
      unfolding w .
  qed
  show ?thesis
    unfolding E' D' dv e d t tr
    using wrap c1 c2 u rest
    unfolding e2_def [symmetric] e1_def [symmetric] d2_def [symmetric] d1_def [symmetric]
    by blast
qed

theorem set_estimated_rtt_truncates_witness:
  "sint (estimated_rtt (set_estimated_rtt (ReliableSocket\<lparr>current_rtt := 50\<rparr>))) = 93
   \<and> sint (dev_rtt (set_estimated_rtt (ReliableSocket\<lparr>current_rtt := 50\<rparr>))) = 17
   \<and> (- (2 ^ 31) < sint (current_rtt (ReliableSocket\<lparr>current_rtt := 50\<rparr>)) - 93
      \<and> sint (current_rtt (ReliableSocket\<lparr>current_rtt := 50\<rparr>)) - (93 :: int) < 2 ^ 31)
   \<and> \<bar>sint (current_rtt (ReliableSocket\<lparr>current_rtt := 50\<rparr>)) - 93\<bar> = 43
   \<and> uint (rcvtimeo (set_estimated_rtt (ReliableSocket\<lparr>current_rtt := 50\<rparr>))) = 161"
  using set_estimated_rtt_truncates [of "ReliableSocket\<lparr>current_rtt := 50\<rparr>"]
  by (simp add: set_estimated_rtt_def ReliableSocket_def double_to_int_def
      set_timeout_length_def emit_def Let_def)

section \<open>The reliable send primitive\<close>

text \<open>
  The deadlines of the retries as the loop computes them: \<open>2 * curTimeout\<close> in \<^verbatim>\<open>uint32_t\<close>.
\<close>

lemma send_seg_loop_backoff:
  "\<exists>s' tr. send_seg_loop seg n True cur s (replicate k Timeout @ Recv dt bs # evs)
           = Done (recv_buf bs) s' evs
     \<and> trace s' = trace s @ tr
     \<and> deadlines tr = map (\<lambda>i. 2 ^ Suc i * cur) [0..<k]
     \<and> sends tr = replicate (Suc k) (take n seg)
     \<and> fields s' = fields (s\<lparr>current_rtt := dt\<rparr>)"
proof (induction k arbitrary: cur s)
  case 0
  show ?case by (simp add: Let_def emit_def fields_def)
next
  case (Suc k)
  let ?s2 = "set_timeout_length (emit (Diag ''TIMEOUT. DOUBLING THE LENGTH OF TIMEOUT'')
      ((emit (Send (take n seg)) s)\<lparr>errno := EAGAIN\<rparr>)) (2 * cur)"
  from Suc.IH [of "2 * cur" ?s2] obtain s' tr where
    "send_seg_loop seg n True (2 * cur) ?s2 (replicate k Timeout @ Recv dt bs # evs)
       = Done (recv_buf bs) s' evs"
    "trace s' = trace ?s2 @ tr" "deadlines tr = map (\<lambda>i. 2 ^ Suc i * (2 * cur)) [0..<k]"
    "sends tr = replicate (Suc k) (take n seg)"
    "fields s' = fields (?s2\<lparr>current_rtt := dt\<rparr>)"
    by blast
  moreover have "map (\<lambda>i. 2 ^ Suc i * cur) [0..<Suc k]
      = 2 * cur # map (\<lambda>i. 2 ^ Suc i * (2 * cur)) [0..<k]"
    by (simp only: map_upt_Suc) (simp add: mult.assoc mult.left_commute)
  ultimately have "send_seg_loop seg n True cur s (replicate (Suc k) Timeout @ Recv dt bs # evs)
       = Done (recv_buf bs) s' evs
     \<and> trace s' = trace s @ ([Send (take n seg), Diag ''TIMEOUT. DOUBLING THE LENGTH OF TIMEOUT'',
          SetTimeout (2 * cur)] @ tr)
     \<and> deadlines ([Send (take n seg), Diag ''TIMEOUT. DOUBLING THE LENGTH OF TIMEOUT'',
          SetTimeout (2 * cur)] @ tr) = map (\<lambda>i. 2 ^ Suc i * cur) [0..<Suc k]
     \<and> sends ([Send (take n seg), Diag ''TIMEOUT. DOUBLING THE LENGTH OF TIMEOUT'',
          SetTimeout (2 * cur)] @ tr) = replicate (Suc (Suc k)) (take n seg)
     \<and> fields s' = fields (s\<lparr>current_rtt := dt\<rparr>)"
    by (simp add: Let_def emit_def set_timeout_length_def fields_def)
  then show ?case by blast
qed

lemma send_seg_loop_first:
  "\<exists>s' tr. send_seg_loop seg n False c0 s (replicate k Timeout @ Recv dt bs # evs)
           = Done (recv_buf bs) s' evs
     \<and> trace s' = trace s @ tr
     \<and> deadlines tr = map (\<lambda>i. 2 ^ Suc i * (estimated_rtt s + 4 * dev_rtt s)) [0..<k]
     \<and> sends tr = replicate (Suc k) (take n seg)
     \<and> fields s' = fields (s\<lparr>current_rtt := dt\<rparr>)"
proof (cases k)
  case 0
  then show ?thesis by (simp add: Let_def emit_def fields_def)
next
  case (Suc j)
  let ?T = "estimated_rtt s + 4 * dev_rtt s :: u32"
  let ?cur = "?T * 2"
  let ?s2 = "set_timeout_length (emit (Diag ''TIMEOUT. DOUBLING THE LENGTH OF TIMEOUT'')
      ((emit (Send (take n seg)) s)\<lparr>errno := EAGAIN\<rparr>)) ?cur"
  from send_seg_loop_backoff [of seg n ?cur ?s2 j dt bs evs] obtain s' tr where
    "send_seg_loop seg n True ?cur ?s2 (replicate j Timeout @ Recv dt bs # evs)
       = Done (recv_buf bs) s' evs"
    "trace s' = trace ?s2 @ tr" "deadlines tr = map (\<lambda>i. 2 ^ Suc i * ?cur) [0..<j]"
    "sends tr = replicate (Suc j) (take n seg)"
    "fields s' = fields (?s2\<lparr>current_rtt := dt\<rparr>)"
    by blast
  moreover have "map (\<lambda>i. 2 ^ Suc i * ?T) [0..<Suc j]
      = ?cur # map (\<lambda>i. 2 ^ Suc i * ?cur) [0..<j]"
    by (simp only: map_upt_Suc) (simp add: algebra_simps)
  ultimately have "send_seg_loop seg n False c0 s (replicate k Timeout @ Recv dt bs # evs)
       = Done (recv_buf bs) s' evs
     \<and> trace s' = trace s @ ([Send (take n seg), Diag ''TIMEOUT. DOUBLING THE LENGTH OF TIMEOUT'',
          SetTimeout ?cur] @ tr)
     \<and> deadlines ([Send (take n seg), Diag ''TIMEOUT. DOUBLING THE LENGTH OF TIMEOUT'',
          SetTimeout ?cur] @ tr) = map (\<lambda>i. 2 ^ Suc i * ?T) [0..<k]
     \<and> sends ([Send (take n seg), Diag ''TIMEOUT. DOUBLING THE LENGTH OF TIMEOUT'',
          SetTimeout ?cur] @ tr) = replicate (Suc k) (take n seg)
     \<and> fields s' = fields (s\<lparr>current_rtt := dt\<rparr>)"
    using Suc
    by (simp add: Let_def emit_def set_timeout_length_def fields_def)
  then show ?thesis by blast
qed

lemma send_seg_reliable_call:
  "\<exists>s' tr. send_seg_reliable seg n s (replicate k Timeout @ Recv dt bs # evs)
           = Done (recv_buf bs) s' evs
     \<and> trace s' = trace s @ tr
     \<and> deadlines tr = [estimated_rtt s + 4 * dev_rtt s]
          @ map (\<lambda>i. 2 ^ Suc i * (estimated_rtt s + 4 * dev_rtt s)) [0..<k] @ [rcvtimeo s']
     \<and> sends tr = replicate (Suc k) (take n seg)
     \<and> rcvtimeo s' = estimated_rtt s' + 4 * dev_rtt s'
     \<and> fields s' = fields (set_estimated_rtt (s\<lparr>current_rtt := dt\<rparr>))"
proof -
  let ?T0 = "estimated_rtt s + 4 * dev_rtt s :: u32"
  let ?s0 = "set_timeout_length s ?T0"
  from send_seg_loop_first [of seg n 0 ?s0 k dt bs evs] obtain s1 tr where
    s1: "send_seg_loop seg n False 0 ?s0 (replicate k Timeout @ Recv dt bs # evs)
           = Done (recv_buf bs) s1 evs"
      "trace s1 = trace ?s0 @ tr"
      "deadlines tr = map (\<lambda>i. 2 ^ Suc i * (estimated_rtt ?s0 + 4 * dev_rtt ?s0)) [0..<k]"
      "sends tr = replicate (Suc k) (take n seg)"
      "fields s1 = fields (?s0\<lparr>current_rtt := dt\<rparr>)"
    by blast
  let ?s' = "set_estimated_rtt s1"
  let ?tr = "[SetTimeout ?T0] @ tr @ [SetTimeout (rcvtimeo ?s')]"
  have call: "send_seg_reliable seg n s (replicate k Timeout @ Recv dt bs # evs)
      = Done (recv_buf bs) ?s' evs"
    using s1(1) by (simp add: send_seg_reliable_def Let_def)
  have tr: "trace ?s' = trace s @ ?tr"
    using s1(2) by (simp add: set_estimated_rtt_timeout(2) set_timeout_length_def emit_def)
  have dl: "deadlines ?tr = [?T0] @ map (\<lambda>i. 2 ^ Suc i * ?T0) [0..<k] @ [rcvtimeo ?s']"
    using s1(3) by (simp add: deadlines_append set_timeout_length_def emit_def)
  have sn: "sends ?tr = replicate (Suc k) (take n seg)"
    using s1(4) by (simp add: sends_append)
  have "fields s1 = fields (s\<lparr>current_rtt := dt\<rparr>)"
    using s1(5) by (simp add: fields_def set_timeout_length_def emit_def)
  then have fl: "fields ?s' = fields (set_estimated_rtt (s\<lparr>current_rtt := dt\<rparr>))"
    by (rule fields_set_estimated_rtt)
  show ?thesis
    using call tr dl sn fl set_estimated_rtt_timeout(1) [of s1] by blast
qed

text \<open>The \<^verbatim>\<open>uint32_t\<close> deadlines of the retries are the doubled values modulo \<open>2 ^ 32\<close>.\<close>

lemma unat_retry_deadlines:
  "map unat (map (\<lambda>i. 2 ^ Suc i * (c :: u32)) [0..<k])
     = map (\<lambda>d. d mod 2 ^ 32) (doubled (unat c) k)"
proof -
  have "unat (2 ^ Suc i * c) = (2 ^ Suc i * unat c) mod 2 ^ 32" for i
  proof -
    have "2 ^ Suc i * c = (word_of_nat (2 ^ Suc i * unat c) :: u32)"
      by simp
    then have "unat (2 ^ Suc i * c) = unat (word_of_nat (2 ^ Suc i * unat c) :: u32)"
      by (rule arg_cong)
    also have "\<dots> = (2 ^ Suc i * unat c) mod 2 ^ 32"
      by (simp only: unat_of_nat) simp
    finally show ?thesis .
  qed
  then show ?thesis
    by (simp add: doubled_def comp_def)
qed

lemma doubled_in_range:
  assumes "2 ^ k * t < (2 :: nat) ^ 32"
  shows "map (\<lambda>d. d mod 2 ^ 32) (doubled t k) = doubled t k"
proof -
  have "2 ^ Suc i * t < (2 :: nat) ^ 32" if "i < k" for i
  proof -
    from that have "Suc i \<le> k" by simp
    then have "(2 :: nat) ^ Suc i \<le> 2 ^ k"
      by (intro power_increasing) simp_all
    then have "2 ^ Suc i * t \<le> 2 ^ k * t"
      by (rule mult_le_mono1)
    with assms show ?thesis by linarith
  qed
  then show ?thesis
    unfolding doubled_def by (simp add: map_idI)
qed

text \<open>send_timeout: any number of datagrams, then a deadline expiry.\<close>

lemma send_timeout_returns:
  "\<exists>s' tr. send_timeout seg s (map (\<lambda>(dt, bs). Recv dt bs) strays @ Timeout # evs) = Done () s' evs
     \<and> trace s' = trace s @ tr
     \<and> sends tr = replicate (Suc (length strays)) (take sizeof_RDTHeader seg)
     \<and> deadlines tr = replicate (Suc (length strays)) ((estimated_rtt s + 4 * dev_rtt s))
     \<and> fields s' = fields s"
proof (induction strays arbitrary: s)
  case Nil
  let ?tr = "[Send (take sizeof_RDTHeader seg), SetTimeout ((estimated_rtt s + 4 * dev_rtt s))]"
  have "send_timeout seg s (map (\<lambda>(dt, bs). Recv dt bs) [] @ Timeout # evs)
      = Done () (s\<lparr>rcvtimeo := (estimated_rtt s + 4 * dev_rtt s), trace := trace s @ ?tr, errno := EAGAIN\<rparr>) evs"
    by (simp add: Let_def emit_def set_timeout_length_def)
  moreover have "sends ?tr = replicate (Suc (length ([] :: (int \<times> byte list) list))) (take sizeof_RDTHeader seg)"
    by simp
  moreover have "deadlines ?tr = replicate (Suc (length ([] :: (int \<times> byte list) list))) ((estimated_rtt s + 4 * dev_rtt s))"
    by simp
  ultimately show ?case
    by (intro exI [of _ "s\<lparr>rcvtimeo := (estimated_rtt s + 4 * dev_rtt s), trace := trace s @ ?tr, errno := EAGAIN\<rparr>"] exI [of _ ?tr])
      (simp add: fields_def)
next
  case (Cons x strays)
  obtain dt bs where x: "x = (dt, bs)" by (cases x)
  let ?T = "(estimated_rtt s + 4 * dev_rtt s) :: u32"
  let ?s2 = "set_timeout_length (emit (Send (take sizeof_RDTHeader seg)) s) ?T"
  from Cons.IH [of ?s2] obtain s' tr where
    "send_timeout seg ?s2 (map (\<lambda>(dt, bs). Recv dt bs) strays @ Timeout # evs) = Done () s' evs"
    "trace s' = trace ?s2 @ tr"
    "sends tr = replicate (Suc (length strays)) (take sizeof_RDTHeader seg)"
    "deadlines tr = replicate (Suc (length strays)) ((estimated_rtt ?s2 + 4 * dev_rtt ?s2))"
    "fields s' = fields ?s2"
    by blast
  then have "send_timeout seg s (map (\<lambda>(dt, bs). Recv dt bs) (x # strays) @ Timeout # evs) = Done () s' evs
     \<and> trace s' = trace s @ ([Send (take sizeof_RDTHeader seg), SetTimeout ?T] @ tr)
     \<and> sends ([Send (take sizeof_RDTHeader seg), SetTimeout ?T] @ tr) = replicate (Suc (length (x # strays))) (take sizeof_RDTHeader seg)
     \<and> deadlines ([Send (take sizeof_RDTHeader seg), SetTimeout ?T] @ tr) = replicate (Suc (length (x # strays))) ?T
     \<and> fields s' = fields s"
    using x by (simp add: Let_def emit_def set_timeout_length_def)
  then show ?case by blast
qed

text \<open>
  C2, as stated, on a fresh socket (\<open>estimated_rtt + 4 * dev_rtt = 140\<close>) that sees 25
  consecutive deadline expiries: the deadline is a \<^verbatim>\<open>uint32_t\<close>, the 24th retry waits
  \<open>2 ^ 24 * 140 = 2348810240\<close> ms and the 25th waits 402653184 ms, which is not twice
  the previous retry's deadline.
\<close>

theorem send_seg_reliable_backoff_wraps:
  "map unat (deadlines (trace (outcome_state (send_seg_reliable (segment (header 0 0 RDT_SYN))
      sizeof_RDTHeader ReliableSocket (replicate 25 Timeout @ [Recv 0 []]))))) ! 24 = 2348810240
   \<and> map unat (deadlines (trace (outcome_state (send_seg_reliable (segment (header 0 0 RDT_SYN))
      sizeof_RDTHeader ReliableSocket (replicate 25 Timeout @ [Recv 0 []]))))) ! 25 = 402653184
   \<and> (402653184 :: nat) \<noteq> 2 * 2348810240"
proof -
  let ?seg = "segment (header 0 0 RDT_SYN)"
  from send_seg_reliable_call [of ?seg sizeof_RDTHeader ReliableSocket 25 0 "[]" "[]"]
  obtain s' tr where
    r: "send_seg_reliable ?seg sizeof_RDTHeader ReliableSocket (replicate 25 Timeout @ [Recv 0 []])
          = Done (recv_buf []) s' []"
      "trace s' = trace ReliableSocket @ tr"
      "deadlines tr = [estimated_rtt ReliableSocket + 4 * dev_rtt ReliableSocket]
          @ map (\<lambda>i. 2 ^ Suc i * (estimated_rtt ReliableSocket + 4 * dev_rtt ReliableSocket)) [0..<25]
          @ [rcvtimeo s']"
    by blast
  have d: "deadlines (trace s') = (140 :: u32) # map (\<lambda>i. 2 ^ Suc i * 140) [0..<25] @ [rcvtimeo s']"
    using r(2,3) by (simp add: ReliableSocket_def)
  have "deadlines (trace s') ! 24 = (2 ^ 24 * 140 :: u32)"
    unfolding d by (simp add: nth_append)
  moreover have "deadlines (trace s') ! 25 = (2 ^ 25 * 140 :: u32)"
    unfolding d by (simp add: nth_append)
  moreover have "length (deadlines (trace s')) = 27"
    unfolding d by simp
  ultimately show ?thesis
    unfolding r(1) by simp
qed

text \<open>
  C2, amended. A call of send_seg_reliable that sees \<open>k\<close> consecutive deadline expiries
  before a datagram arrives sets, after the RTT-derived deadline
  \<open>T0 = estimated_rtt + 4 * dev_rtt\<close> of its first attempt, the deadline \<open>2 * T0\<close> for the
  first retry and twice the previous deadline for each later retry, each reduced modulo
  \<open>2 ^ 32\<close>: the deadlines are the doubled values themselves as long as \<open>2 ^ k * T0\<close> stays
  below \<open>2 ^ 32\<close>. When the call returns, the deadline is the RTT-derived one of the updated
  estimate, and the next call starts from that value and doubles from it, not from the
  doubled value of the call before.
\<close>

theorem send_seg_reliable_backoff:
  fixes s :: reliable_socket and k' :: nat and dt' :: i32 and bs' :: "byte list"
    and evs :: "event list"
  defines "T0 \<equiv> estimated_rtt s + 4 * dev_rtt s"
  defines "later \<equiv> replicate k' Timeout @ Recv dt' bs' # evs"
  shows "\<exists>s1. send_seg_reliable seg n s (replicate k Timeout @ Recv dt bs # later)
                 = Done (recv_buf bs) s1 later
     \<and> map unat (deadlines (trace s1)) = map unat (deadlines (trace s)) @ [unat T0]
          @ map (\<lambda>d. d mod 2 ^ 32) (doubled (unat T0) k) @ [unat (rcvtimeo s1)]
     \<and> (2 ^ k * unat T0 < 2 ^ 32
          \<longrightarrow> map (\<lambda>d. d mod 2 ^ 32) (doubled (unat T0) k) = doubled (unat T0) k)
     \<and> rcvtimeo s1 = estimated_rtt s1 + 4 * dev_rtt s1
     \<and> (\<exists>s2. send_seg_reliable seg' n' s1 later = Done (recv_buf bs') s2 evs
           \<and> map unat (deadlines (trace s2)) = map unat (deadlines (trace s1))
                @ [unat (rcvtimeo s1)]
                @ map (\<lambda>d. d mod 2 ^ 32) (doubled (unat (rcvtimeo s1)) k')
                @ [unat (rcvtimeo s2)]
           \<and> (2 ^ k' * unat (rcvtimeo s1) < 2 ^ 32
                \<longrightarrow> map (\<lambda>d. d mod 2 ^ 32) (doubled (unat (rcvtimeo s1)) k')
                    = doubled (unat (rcvtimeo s1)) k'))"
proof -
  from send_seg_reliable_call [of seg n s k dt bs later] obtain s1 tr1 where
    s1: "send_seg_reliable seg n s (replicate k Timeout @ Recv dt bs # later)
           = Done (recv_buf bs) s1 later"
      "trace s1 = trace s @ tr1"
      "deadlines tr1 = [T0] @ map (\<lambda>i. 2 ^ Suc i * T0) [0..<k] @ [rcvtimeo s1]"
      "rcvtimeo s1 = estimated_rtt s1 + 4 * dev_rtt s1"
    unfolding T0_def by blast
  from send_seg_reliable_call [of seg' n' s1 k' dt' bs' evs] obtain s2 tr2 where
    s2: "send_seg_reliable seg' n' s1 later = Done (recv_buf bs') s2 evs"
      "trace s2 = trace s1 @ tr2"
      "deadlines tr2 = [rcvtimeo s1] @ map (\<lambda>i. 2 ^ Suc i * rcvtimeo s1) [0..<k'] @ [rcvtimeo s2]"
    unfolding later_def s1(4) by blast
  have d1: "map unat (deadlines (trace s1)) = map unat (deadlines (trace s)) @ [unat T0]
      @ map (\<lambda>d. d mod 2 ^ 32) (doubled (unat T0) k) @ [unat (rcvtimeo s1)]"
    unfolding s1(2) deadlines_append s1(3) map_append unat_retry_deadlines by simp
  have d2: "map unat (deadlines (trace s2)) = map unat (deadlines (trace s1))
      @ [unat (rcvtimeo s1)] @ map (\<lambda>d. d mod 2 ^ 32) (doubled (unat (rcvtimeo s1)) k')
      @ [unat (rcvtimeo s2)]"
    unfolding s2(2) deadlines_append s2(3) map_append unat_retry_deadlines by simp
  show ?thesis
    using s1(1,4) s2(1) d1 d2 doubled_in_range [of k "unat T0"]
      doubled_in_range [of k' "unat (rcvtimeo s1)"]
    by blast
qed

theorem send_seg_reliable_backoff_witness:
  "2 ^ 2 * unat (estimated_rtt ReliableSocket + 4 * dev_rtt ReliableSocket) < (2 :: nat) ^ 32
   \<and> take 3 (map unat (deadlines (trace (outcome_state
        (send_seg_reliable (segment (header 0 0 RDT_SYN)) sizeof_RDTHeader ReliableSocket
           (replicate 2 Timeout @ Recv 0 [] # replicate 0 Timeout @ Recv 0 [] # []))))))
       = [140, 280, 560]"
proof -
  have small: "2 ^ 2 * unat (estimated_rtt ReliableSocket + 4 * dev_rtt ReliableSocket) < (2 :: nat) ^ 32"
    by (simp add: ReliableSocket_def)
  from send_seg_reliable_backoff [of "segment (header 0 0 RDT_SYN)" sizeof_RDTHeader
      ReliableSocket 2 0 "[]" 0 0 "[]" "[]" "segment (header 0 0 RDT_SYN)" sizeof_RDTHeader]
  obtain s1 where
    r: "send_seg_reliable (segment (header 0 0 RDT_SYN)) sizeof_RDTHeader ReliableSocket
          (replicate 2 Timeout @ Recv 0 [] # replicate 0 Timeout @ Recv 0 [] # [])
        = Done (recv_buf []) s1 (replicate 0 Timeout @ Recv 0 [] # [])"
      "map unat (deadlines (trace s1)) = map unat (deadlines (trace ReliableSocket))
         @ [unat (estimated_rtt ReliableSocket + 4 * dev_rtt ReliableSocket)]
         @ map (\<lambda>d. d mod 2 ^ 32)
             (doubled (unat (estimated_rtt ReliableSocket + 4 * dev_rtt ReliableSocket)) 2)
         @ [unat (rcvtimeo s1)]"
      "2 ^ 2 * unat (estimated_rtt ReliableSocket + 4 * dev_rtt ReliableSocket) < 2 ^ 32
         \<longrightarrow> map (\<lambda>d. d mod 2 ^ 32)
               (doubled (unat (estimated_rtt ReliableSocket + 4 * dev_rtt ReliableSocket)) 2)
             = doubled (unat (estimated_rtt ReliableSocket + 4 * dev_rtt ReliableSocket)) 2"
    by blast
  from r(3) small have "map (\<lambda>d. d mod 2 ^ 32)
       (doubled (unat (estimated_rtt ReliableSocket + 4 * dev_rtt ReliableSocket)) 2)
     = doubled (unat (estimated_rtt ReliableSocket + 4 * dev_rtt ReliableSocket)) 2"
    by blast
  moreover have "unat (estimated_rtt ReliableSocket + 4 * dev_rtt ReliableSocket) = 140"
    by (simp add: ReliableSocket_def)
  moreover have "doubled 140 2 = [280, 560]"
    by (simp add: doubled_def eval_nat_numeral)
  ultimately have "take 3 (map unat (deadlines (trace s1))) = [140, 280, 560]"
    unfolding r(2) by (simp add: ReliableSocket_def)
  then show ?thesis
    unfolding r(1) using small by simp
qed

section \<open>receive_data\<close>

text \<open>
  The loop of receive_data on datagrams whose tag is neither RDT_ACK nor RDT_CLOSE and whose
  sequence number is not the connection's: each is answered with an ACK made of its own
  sequence number, and the loop goes on with the same buffer and the same sequence number.
\<close>

lemma receive_loop_out_of_order:
  assumes "list_all (\<lambda>(dt, bs). hdr_type (recv_buf bs) \<noteq> RDT_ACK
              \<and> hdr_type (recv_buf bs) \<noteq> RDT_CLOSE
              \<and> ntohl (hdr_sequence_number (recv_buf bs)) \<noteq> sequence_number s) dups"
  shows "receive_loop buffer s (map (\<lambda>(dt, bs). Recv dt bs) dups @ evs)
       = receive_loop buffer
           (s\<lparr>trace := trace s @ map (\<lambda>(dt, bs). Send (hdr_sequence_number (recv_buf bs)
               @ hdr_sequence_number (recv_buf bs) @ [RDT_ACK, 0, 0, 0])) dups\<rparr>) evs"
  using assms
proof (induction dups arbitrary: s)
  case Nil
  show ?case by simp
next
  case (Cons x dups)
  obtain dt bs where x: "x = (dt, bs)" by (cases x)
  let ?ack = "hdr_sequence_number (recv_buf bs) @ hdr_sequence_number (recv_buf bs)
      @ [RDT_ACK, 0, 0, 0]"
  from Cons.prems x have
    h: "hdr_type (recv_buf bs) \<noteq> RDT_ACK" "hdr_type (recv_buf bs) \<noteq> RDT_CLOSE"
      "ntohl (hdr_sequence_number (recv_buf bs)) \<noteq> sequence_number s"
    and rest: "list_all (\<lambda>(dt, bs). hdr_type (recv_buf bs) \<noteq> RDT_ACK
              \<and> hdr_type (recv_buf bs) \<noteq> RDT_CLOSE
              \<and> ntohl (hdr_sequence_number (recv_buf bs)) \<noteq> sequence_number (emit (Send ?ack) s))
           dups"
    by (simp_all add: emit_def)
  have "receive_loop buffer s (map (\<lambda>(dt, bs). Recv dt bs) (x # dups) @ evs)
      = receive_loop buffer (emit (Send ?ack) s) (map (\<lambda>(dt, bs). Recv dt bs) dups @ evs)"
    using h x by (simp add: Let_def emit_def)
  also note Cons.IH [OF rest]
  finally show ?case
    using x by (simp add: emit_def)
qed

text \<open>
  C3. receive_data, on an ESTABLISHED connection, receives any number of datagrams whose
  tag is RDT_DATA and whose sequence number is not the connection's sequence_number. For
  each it sends an ACK whose sequence and ack fields are the received sequence number, and
  nothing else; then it is blocked in \<^verbatim>\<open>recv\<close>, waiting, with the sequence number and the
  state unchanged. When the DATA segment with the connection's sequence number follows,
  the call returns with that segment's payload alone in the caller's buffer and the
  sequence number incremented once; whatever follows instead is handled by the loop as if
  it had come first.
\<close>

theorem receive_data_out_of_order:
  fixes s :: reliable_socket and dups :: "(i32 \<times> byte list) list" and bs0 :: "byte list"
  defines "ack \<equiv> \<lambda>bs. hdr_sequence_number (recv_buf bs) @ hdr_sequence_number (recv_buf bs)
                        @ [RDT_ACK, 0, 0, 0]"
  defines "waiting \<equiv> s\<lparr>rcvtimeo := 0,
                        trace := trace s @ SetTimeout 0 # map (\<lambda>(dt, bs). Send (ack bs)) dups\<rparr>"
  defines "recv_data_size \<equiv> recv_ret bs0 - int sizeof_RDTHeader"
  assumes "state s = ESTABLISHED"
    and "list_all (\<lambda>(dt, bs). hdr_type (recv_buf bs) = RDT_DATA
            \<and> ntohl (hdr_sequence_number (recv_buf bs)) \<noteq> sequence_number s) dups"
  shows "receive_data buffer s (map (\<lambda>(dt, bs). Recv dt bs) dups) = Blocked waiting
       \<and> (hdr_type (recv_buf bs0) = RDT_DATA
            \<and> ntohl (hdr_sequence_number (recv_buf bs0)) = sequence_number s
            \<and> 0 \<le> recv_data_size \<and> recv_data_size \<le> int (length buffer)
          \<longrightarrow> receive_data buffer s (map (\<lambda>(dt, bs). Recv dt bs) dups @ Recv dt0 bs0 # evs)
              = Done (recv_data_size, take (nat recv_data_size) (drop sizeof_RDTHeader (recv_buf bs0))
                              @ drop (nat recv_data_size) buffer)
                  (waiting\<lparr>sequence_number := sequence_number s + 1,
                           trace := trace waiting @ [Send (ack bs0)]\<rparr>) evs)
       \<and> receive_data buffer s (map (\<lambda>(dt, bs). Recv dt bs) dups @ evs)
           = receive_loop buffer waiting evs
       \<and> fields waiting = fields s
       \<and> (\<forall>bs. hdr_type (ack bs) = RDT_ACK
               \<and> hdr_sequence_number (ack bs) = hdr_sequence_number (recv_buf bs)
               \<and> hdr_ack_number (ack bs) = hdr_sequence_number (recv_buf bs))"
proof -
  let ?s0 = "set_timeout_length s 0"
  have ooo: "list_all (\<lambda>(dt, bs). hdr_type (recv_buf bs) \<noteq> RDT_ACK
              \<and> hdr_type (recv_buf bs) \<noteq> RDT_CLOSE
              \<and> ntohl (hdr_sequence_number (recv_buf bs)) \<noteq> sequence_number ?s0) dups"
    using assms(5)
    by (auto simp: list_all_iff RDT_distinct set_timeout_length_def emit_def)
  have w: "?s0\<lparr>trace := trace ?s0 @ map (\<lambda>(dt, bs). Send (hdr_sequence_number (recv_buf bs)
               @ hdr_sequence_number (recv_buf bs) @ [RDT_ACK, 0, 0, 0])) dups\<rparr> = waiting"
    by (simp add: waiting_def ack_def set_timeout_length_def emit_def)
  have loop: "receive_data buffer s (map (\<lambda>(dt, bs). Recv dt bs) dups @ evs')
      = receive_loop buffer waiting evs'" for evs'
    using assms(4) receive_loop_out_of_order [OF ooo, of buffer evs']
    unfolding w by (simp add: receive_data_def)
  have blocked: "receive_data buffer s (map (\<lambda>(dt, bs). Recv dt bs) dups) = Blocked waiting"
    using loop [of "[]"] by simp
  have sq: "sequence_number waiting = sequence_number s"
    by (simp add: waiting_def)
  have matching: "receive_loop buffer waiting (Recv dt0 bs0 # evs)
      = Done (recv_data_size, take (nat recv_data_size) (drop sizeof_RDTHeader (recv_buf bs0)) @ drop (nat recv_data_size) buffer)
          (waiting\<lparr>sequence_number := sequence_number s + 1,
                   trace := trace waiting @ [Send (ack bs0)]\<rparr>) evs"
    if "hdr_type (recv_buf bs0) = RDT_DATA"
      "ntohl (hdr_sequence_number (recv_buf bs0)) = sequence_number s"
      "0 \<le> recv_data_size" "recv_data_size \<le> int (length buffer)"
    using that sq unfolding recv_data_size_def ack_def
    by (simp add: Let_def RDT_distinct emit_def)
  have len: "length (hdr_sequence_number (recv_buf bs)) = 4" for bs
    by (rule length_hdr_sequence_number) simp
  have acks: "hdr_type (ack bs) = RDT_ACK
      \<and> hdr_sequence_number (ack bs) = hdr_sequence_number (recv_buf bs)
      \<and> hdr_ack_number (ack bs) = hdr_sequence_number (recv_buf bs)" for bs
    using len [of bs]
    by (simp add: ack_def hdr_type_def hdr_sequence_number_def hdr_ack_number_def nth_append)
  have fl: "fields waiting = fields s"
    by (simp add: waiting_def fields_def)
  show ?thesis
    using blocked loop [of evs] loop [of "Recv dt0 bs0 # evs"] matching fl acks
    by simp
qed

text \<open>
  C3 at a concrete input: a fresh ESTABLISHED connection (sequence number 0) receives the
  DATA segments number 5 and number 7, then the DATA segment number 0 with payload 8, 9.
  It has sent the ACKs for 5, 7 and 0; the caller's buffer holds 8, 9 and its old third
  byte, and the sequence number is 1.
\<close>

theorem receive_data_out_of_order_witness:
  "state (ReliableSocket\<lparr>state := ESTABLISHED\<rparr>) = ESTABLISHED
   \<and> list_all (\<lambda>(dt, bs). hdr_type (recv_buf bs) = RDT_DATA
        \<and> ntohl (hdr_sequence_number (recv_buf bs))
            \<noteq> sequence_number (ReliableSocket\<lparr>state := ESTABLISHED\<rparr>))
       [(0 :: i32, header 5 0 RDT_DATA @ [1, 2, 3]), (0, header 7 0 RDT_DATA @ [4])]
   \<and> hdr_type (recv_buf (header 0 0 RDT_DATA @ [8, 9])) = RDT_DATA
   \<and> ntohl (hdr_sequence_number (recv_buf (header 0 0 RDT_DATA @ [8, 9])))
        = sequence_number (ReliableSocket\<lparr>state := ESTABLISHED\<rparr>)
   \<and> 0 \<le> recv_ret (header 0 0 RDT_DATA @ [8, 9]) - int sizeof_RDTHeader
   \<and> recv_ret (header 0 0 RDT_DATA @ [8, 9]) - int sizeof_RDTHeader \<le> int (length [7 :: byte, 7, 7])
   \<and> receive_data [7, 7, 7] (ReliableSocket\<lparr>state := ESTABLISHED\<rparr>)
        (map (\<lambda>(dt, bs). Recv dt bs)
           [(0, header 5 0 RDT_DATA @ [1, 2, 3]), (0, header 7 0 RDT_DATA @ [4])]
         @ Recv 0 (header 0 0 RDT_DATA @ [8, 9]) # [])
      = Done (2, [8, 9, 7])
          (ReliableSocket\<lparr>state := ESTABLISHED, sequence_number := 1,
             trace := [SetTimeout 0, Send (htonl 5 @ htonl 5 @ [RDT_ACK, 0, 0, 0]),
                       Send (htonl 7 @ htonl 7 @ [RDT_ACK, 0, 0, 0]),
                       Send (htonl 0 @ htonl 0 @ [RDT_ACK, 0, 0, 0])]\<rparr>) []"
proof -
  define s where "s = ReliableSocket\<lparr>state := ESTABLISHED\<rparr>"
  define b5 where "b5 = header 5 0 RDT_DATA @ [1, 2, 3]"
  define b7 where "b7 = header 7 0 RDT_DATA @ [4]"
  define b0 where "b0 = header 0 0 RDT_DATA @ [8, 9]"
  have st: "state s = ESTABLISHED" and sq: "sequence_number s = 0"
    and tr: "trace s = []"
    by (simp_all add: s_def ReliableSocket_def)
  have ty: "hdr_type (recv_buf b5) = RDT_DATA" "hdr_type (recv_buf b7) = RDT_DATA"
    "hdr_type (recv_buf b0) = RDT_DATA"
    unfolding b5_def b7_def b0_def by (rule hdr_type_recv_header)+
  have sn: "hdr_sequence_number (recv_buf b5) = htonl 5"
    "hdr_sequence_number (recv_buf b7) = htonl 7" "hdr_sequence_number (recv_buf b0) = htonl 0"
    unfolding b5_def b7_def b0_def by (rule hdr_seq_recv_header)+
  have ooo: "list_all (\<lambda>(dt, bs). hdr_type (recv_buf bs) = RDT_DATA
        \<and> ntohl (hdr_sequence_number (recv_buf bs)) \<noteq> sequence_number s)
          [(0 :: i32, b5), (0, b7)]"
    by (simp add: ty sn ntohl_htonl sq)
  have inorder: "ntohl (hdr_sequence_number (recv_buf b0)) = sequence_number s"
    by (simp add: sn ntohl_htonl sq)
  have cnt: "recv_ret b0 - int sizeof_RDTHeader = 2"
    by (simp add: b0_def recv_ret_def size_defs)
  have pl: "take 2 (drop sizeof_RDTHeader (recv_buf b0)) = [8, 9]"
    by (simp add: b0_def recv_buf_def segment_def size_defs header_def)
  from receive_data_out_of_order [OF st ooo, where ?bs0.0 = b0 and buffer = "[7, 7, 7]"
      and ?dt0.0 = 0 and evs = "[]", THEN conjunct2, THEN conjunct1] ty(3) inorder cnt
  have run: "receive_data [7, 7, 7] s (map (\<lambda>(dt, bs). Recv dt bs) [(0, b5), (0, b7)]
                  @ Recv 0 b0 # [])
      = Done (2, [8, 9, 7])
          (s\<lparr>sequence_number := 1,
             trace := [SetTimeout 0, Send (htonl 5 @ htonl 5 @ [RDT_ACK, 0, 0, 0]),
                       Send (htonl 7 @ htonl 7 @ [RDT_ACK, 0, 0, 0]),
                       Send (htonl 0 @ htonl 0 @ [RDT_ACK, 0, 0, 0])]\<rparr>) []"
    by (simp add: sn sq tr pl s_def ReliableSocket_def)
  show ?thesis
    using st ooo ty(3) inorder cnt run
    unfolding s_def [symmetric] b5_def [symmetric] b7_def [symmetric] b0_def [symmetric]
    by (simp add: s_def)
qed

text \<open>
  C5, evaluated where the code departs from it. An ESTABLISHED connection with sequence
  number 0 receives a datagram with the type tag 7, sequence number 0 and payload 1, 2, 3:
  receive_data acknowledges it, increments the sequence number and returns the three bytes
  to the caller. It receives the empty datagram instead: the zeroed buffer reads as tag 0
  and sequence number 0, so receive_data acknowledges it, increments the sequence number
  and calls \<^verbatim>\<open>memcpy\<close> with the count \<open>0 - sizeof(RDTHeader)\<close>.
\<close>

theorem receive_data_unrecognized:
  "receive_data (replicate MAX_DATA_SIZE 0) (ReliableSocket\<lparr>state := ESTABLISHED\<rparr>)
       [Recv 0 (header 0 0 7 @ [1, 2, 3])]
     = Done (3, [1, 2, 3] @ replicate (MAX_DATA_SIZE - 3) 0)
         (ReliableSocket\<lparr>state := ESTABLISHED, sequence_number := 1,
            trace := [SetTimeout 0, Send (htonl 0 @ htonl 0 @ [RDT_ACK, 0, 0, 0])]\<rparr>) []
   \<and> receive_data (replicate MAX_DATA_SIZE 0) (ReliableSocket\<lparr>state := ESTABLISHED\<rparr>)
       [Recv 0 []]
     = Fault (Memcpy_overrun (- 12) (int MAX_DATA_SIZE))
         (ReliableSocket\<lparr>state := ESTABLISHED, sequence_number := 1,
            trace := [SetTimeout 0, Send (htonl 0 @ htonl 0 @ [RDT_ACK, 0, 0, 0])]\<rparr>)"
proof -
  have t7: "hdr_type (recv_buf (header 0 0 7 @ [1, 2, 3])) = 7"
    by (rule hdr_type_recv_header)
  have s7: "hdr_sequence_number (recv_buf (header 0 0 7 @ [1, 2, 3])) = htonl 0"
    by (rule hdr_seq_recv_header)
  have p7: "take 3 (drop sizeof_RDTHeader (recv_buf (header 0 0 7 @ [1, 2, 3]))) = [1, 2, 3]"
    by (simp add: recv_buf_def segment_def size_defs header_def)
  have c7: "recv_ret (header 0 0 7 @ [1, 2, 3]) = 15"
    by (simp add: recv_ret_def size_defs)
  have a: "receive_data (replicate MAX_DATA_SIZE 0) (ReliableSocket\<lparr>state := ESTABLISHED\<rparr>)
       [Recv 0 (header 0 0 7 @ [1, 2, 3])]
     = Done (3, [1, 2, 3] @ replicate (MAX_DATA_SIZE - 3) 0)
         (ReliableSocket\<lparr>state := ESTABLISHED, sequence_number := 1,
            trace := [SetTimeout 0, Send (htonl 0 @ htonl 0 @ [RDT_ACK, 0, 0, 0])]\<rparr>) []"
    by (simp add: receive_data_def t7 s7 p7 [unfolded sizeof_RDTHeader_def] c7 Let_def
        ntohl_htonl RDT_defs ReliableSocket_def set_timeout_length_def emit_def size_defs)
  have t0: "hdr_type (recv_buf []) = 0"
    by (simp add: hdr_type_def recv_buf_def segment_def size_defs)
  have r4: "replicate 4 (0 :: byte) = [0, 0, 0, 0]"
    by (simp add: eval_nat_numeral)
  have s0: "hdr_sequence_number (recv_buf []) = htonl 0"
    by (simp add: hdr_sequence_number_def recv_buf_def segment_def size_defs htonl_def r4)
  have c0: "recv_ret [] = 0"
    by (simp add: recv_ret_def)
  have b: "receive_data (replicate MAX_DATA_SIZE 0) (ReliableSocket\<lparr>state := ESTABLISHED\<rparr>)
       [Recv 0 []]
     = Fault (Memcpy_overrun (- 12) (int MAX_DATA_SIZE))
         (ReliableSocket\<lparr>state := ESTABLISHED, sequence_number := 1,
            trace := [SetTimeout 0, Send (htonl 0 @ htonl 0 @ [RDT_ACK, 0, 0, 0])]\<rparr>)"
    by (simp add: receive_data_def t0 s0 c0 Let_def ntohl_htonl RDT_defs ReliableSocket_def
        set_timeout_length_def emit_def size_defs)
  from a b show ?thesis by simp
qed

section \<open>Calls in the wrong state\<close>

text \<open>
  C8. accept_connection and connect_to_remote on a connection whose state is not INIT,
  and send_data and receive_data on one whose state is not ESTABLISHED, do nothing but
  write a diagnostic: accept_connection then ends the process, the other three return
  (receive_data returns 0 and leaves the buffer). No event is consumed, and writing the
  diagnostic changes no member variable, sends nothing and sets no deadline.
\<close>

theorem wrong_state_refused:
  "(state s \<noteq> INIT \<longrightarrow>
      accept_connection s evs = Exit (emit (Diag ''Cannot call accept on used socket'') s)
    \<and> connect_to_remote s evs
        = Done () (emit (Diag ''Cannot call connect_to_remote on used socket'') s) evs)
   \<and> (state s \<noteq> ESTABLISHED \<longrightarrow>
      send_data data length_arg s evs
        = Done () (emit (Diag ''INFO: Cannot send: Connection not established.'') s) evs
    \<and> receive_data buffer s evs
        = Done (0, buffer) (emit (Diag ''INFO: Cannot receive: Connection not established.'') s) evs)
   \<and> fields (emit (Diag msg) s) = fields s
   \<and> sends (trace (emit (Diag msg) s)) = sends (trace s)
   \<and> deadlines (trace (emit (Diag msg) s)) = deadlines (trace s)
   \<and> rcvtimeo (emit (Diag msg) s) = rcvtimeo s"
  by (simp add: accept_connection_def connect_to_remote_def send_data_def receive_data_def
      emit_def sends_append deadlines_append)

text \<open>C8 on a connection in state FIN, for each of the four calls.\<close>

theorem wrong_state_refused_witness:
  "state (ReliableSocket\<lparr>state := FIN\<rparr>) \<noteq> INIT
   \<and> state (ReliableSocket\<lparr>state := FIN\<rparr>) \<noteq> ESTABLISHED
   \<and> accept_connection (ReliableSocket\<lparr>state := FIN\<rparr>) [Recv 0 (header 0 0 RDT_SYN)]
       = Exit (ReliableSocket\<lparr>state := FIN, trace := [Diag ''Cannot call accept on used socket'']\<rparr>)
   \<and> connect_to_remote (ReliableSocket\<lparr>state := FIN\<rparr>) [Recv 0 (header 0 0 RDT_SYNACK)]
       = Done () (ReliableSocket\<lparr>state := FIN,
            trace := [Diag ''Cannot call connect_to_remote on used socket'']\<rparr>)
           [Recv 0 (header 0 0 RDT_SYNACK)]
   \<and> send_data (\<lambda>i. 7) 3 (ReliableSocket\<lparr>state := FIN\<rparr>) [Recv 0 (header 0 0 RDT_ACK)]
       = Done () (ReliableSocket\<lparr>state := FIN,
            trace := [Diag ''INFO: Cannot send: Connection not established.'']\<rparr>)
           [Recv 0 (header 0 0 RDT_ACK)]
   \<and> receive_data [9, 9] (ReliableSocket\<lparr>state := FIN\<rparr>) [Recv 0 (header 0 0 RDT_DATA @ [1])]
       = Done (0, [9, 9]) (ReliableSocket\<lparr>state := FIN,
            trace := [Diag ''INFO: Cannot receive: Connection not established.'']\<rparr>)
           [Recv 0 (header 0 0 RDT_DATA @ [1])]"
  using wrong_state_refused [of "ReliableSocket\<lparr>state := FIN\<rparr>" "[Recv 0 (header 0 0 RDT_SYN)]"
      "\<lambda>i. 7" 3 "[9, 9]" "''x''"]
    wrong_state_refused [of "ReliableSocket\<lparr>state := FIN\<rparr>" "[Recv 0 (header 0 0 RDT_SYNACK)]"
      "\<lambda>i. 7" 3 "[9, 9]" "''x''"]
    wrong_state_refused [of "ReliableSocket\<lparr>state := FIN\<rparr>" "[Recv 0 (header 0 0 RDT_ACK)]"
      "\<lambda>i. 7" 3 "[9, 9]" "''x''"]
    wrong_state_refused [of "ReliableSocket\<lparr>state := FIN\<rparr>" "[Recv 0 (header 0 0 RDT_DATA @ [1])]"
      "\<lambda>i. 7" 3 "[9, 9]" "''x''"]
  by (simp add: ReliableSocket_def emit_def)

section \<open>connect_to_remote\<close>

text \<open>
  C6. connect_to_remote on a connection in state INIT, where the reply to the SYN arrives
  after \<open>k\<close> deadline expiries and its tag is not RDT_SYNACK: the call writes the
  diagnostic "Not a SYNACK" and carries on. It then sends the bare ACK (once more for each
  datagram that arrives before the deadline of send_timeout expires) and returns with the
  state ESTABLISHED.
\<close>

theorem connect_to_remote_not_synack:
  assumes "state s = INIT" and "hdr_type (recv_buf bs) \<noteq> RDT_SYNACK"
  shows "\<exists>s' tr1 tr2.
     connect_to_remote s
       (replicate k Timeout @ Recv dt bs # map (\<lambda>(d, b). Recv d b) strays @ Timeout # evs)
       = Done () s' evs
     \<and> state s' = ESTABLISHED
     \<and> trace s' = trace s @ tr1 @ [Diag ''Not a SYNACK''] @ tr2
          @ [Diag ''INFO: Connection ESTABLISHED'']
     \<and> sends tr1 = replicate (Suc k) (header 0 0 RDT_SYN)
     \<and> sends tr2 = replicate (Suc (length strays)) (header 0 0 RDT_ACK)"
proof -
  let ?T = "(estimated_rtt s + 4 * dev_rtt s) :: u32"
  let ?s1 = "set_timeout_length s ?T"
  let ?rest = "map (\<lambda>(d, b). Recv d b) strays @ Timeout # evs"
  from send_seg_reliable_call [of "segment (header 0 0 RDT_SYN)" sizeof_RDTHeader ?s1 k dt bs ?rest]
  obtain s2 tr where s2:
    "send_seg_reliable (segment (header 0 0 RDT_SYN)) sizeof_RDTHeader ?s1
       (replicate k Timeout @ Recv dt bs # ?rest) = Done (recv_buf bs) s2 ?rest"
    "trace s2 = trace ?s1 @ tr"
    "sends tr = replicate (Suc k) (take sizeof_RDTHeader (segment (header 0 0 RDT_SYN)))"
    by blast
  let ?s3 = "emit (Diag ''Not a SYNACK'') s2"
  from send_timeout_returns [of "segment (header 0 0 RDT_ACK)" ?s3 strays evs]
  obtain s4 tr2 where s4:
    "send_timeout (segment (header 0 0 RDT_ACK)) ?s3 ?rest = Done () s4 evs"
    "trace s4 = trace ?s3 @ tr2"
    "sends tr2 = replicate (Suc (length strays)) (take sizeof_RDTHeader (segment (header 0 0 RDT_ACK)))"
    by blast
  let ?s' = "emit (Diag ''INFO: Connection ESTABLISHED'') (s4\<lparr>state := ESTABLISHED\<rparr>)"
  let ?tr1 = "SetTimeout ?T # tr"
  have "connect_to_remote s (replicate k Timeout @ Recv dt bs # ?rest) = Done () ?s' evs"
    using assms s2(1) s4(1) by (simp add: connect_to_remote_def Let_def)
  moreover have "state ?s' = ESTABLISHED"
    by (simp add: emit_def)
  moreover have "trace ?s' = trace s @ ?tr1 @ [Diag ''Not a SYNACK''] @ tr2
      @ [Diag ''INFO: Connection ESTABLISHED'']"
    using s2(2) s4(2) by (simp add: emit_def set_timeout_length_def)
  moreover have "sends ?tr1 = replicate (Suc k) (header 0 0 RDT_SYN)"
    using s2(3) by simp
  moreover have "sends tr2 = replicate (Suc (length strays)) (header 0 0 RDT_ACK)"
    using s4(3) by simp
  ultimately show ?thesis by blast
qed

text \<open>
  C6 on a fresh socket: the SYN times out once, then a DATA segment arrives in place of
  the SYNACK, then nothing until the deadline.
\<close>

theorem connect_to_remote_not_synack_witness:
  "state ReliableSocket = INIT
   \<and> hdr_type (recv_buf (header 0 0 RDT_DATA @ [1, 2])) \<noteq> RDT_SYNACK
   \<and> (\<exists>s' tr1 tr2.
        connect_to_remote ReliableSocket [Timeout, Recv 30 (header 0 0 RDT_DATA @ [1, 2]), Timeout]
          = Done () s' []
        \<and> state s' = ESTABLISHED
        \<and> trace s' = tr1 @ [Diag ''Not a SYNACK''] @ tr2 @ [Diag ''INFO: Connection ESTABLISHED'']
        \<and> sends tr1 = [header 0 0 RDT_SYN, header 0 0 RDT_SYN]
        \<and> sends tr2 = [header 0 0 RDT_ACK])"
proof -
  have h1: "state ReliableSocket = INIT"
    by (simp add: ReliableSocket_def)
  have h2: "hdr_type (recv_buf (header 0 0 RDT_DATA @ [1, 2])) \<noteq> RDT_SYNACK"
    by (simp add: hdr_type_recv_header RDT_distinct)
  have tr0: "trace ReliableSocket = []"
    by (simp add: ReliableSocket_def)
  from connect_to_remote_not_synack [OF h1 h2, of 1 30 "[]" "[]"] h1 h2
  show ?thesis
    by (simp add: tr0)
qed

section \<open>close_connection\<close>

lemma send_close_request_done:
  "send_seg_reliable seg sizeof_RDTHeader s evs = Done r s1 evs1
     \<Longrightarrow> hdr_type r = RDT_ACK \<or> hdr_type r = RDT_CLOSE
     \<Longrightarrow> send_close_request seg s evs = Done () s1 evs1"
  by (subst send_close_request.simps) auto

lemma send_close_request_retry:
  "send_seg_reliable seg sizeof_RDTHeader s evs = Done r s1 evs1
     \<Longrightarrow> hdr_type r \<noteq> RDT_ACK \<Longrightarrow> hdr_type r \<noteq> RDT_CLOSE
     \<Longrightarrow> send_close_request seg s evs = send_close_request seg s1 evs1"
  by (subst send_close_request.simps) auto

text \<open>The final wait of send_close on a datagram that is not empty, and on a deadline expiry.\<close>

lemma send_close_wait_resends:
  "0 < recv_ret bs \<Longrightarrow>
     send_close_wait seg s (Recv dt bs # evs)
       = send_close_wait seg
           (set_timeout_length (emit (Send (take sizeof_RDTHeader seg)) s) (word_of_int WAIT_TIME)) evs"
  by (simp add: Let_def)

lemma send_close_wait_expires:
  "send_close_wait seg s (Timeout # evs)
     = Done () ((set_timeout_length (emit (Send (take sizeof_RDTHeader seg)) s)
                  (word_of_int WAIT_TIME))\<lparr>errno := EAGAIN\<rparr>) evs"
  by (simp add: Let_def)

text \<open>
  Two runs of close_connection on an ESTABLISHED connection in which an empty datagram
  arrives during the final wait.
\<close>

lemma close_scenario_a:
  "close_connection (ReliableSocket\<lparr>state := ESTABLISHED\<rparr>)
     [Recv 40 (header 0 0 RDT_ACK), Timeout, Recv 0 (header 0 0 RDT_CLOSE), Recv 0 [],
      Recv 0 (header 0 0 RDT_CLOSE)]
   = Done ()
      (ReliableSocket\<lparr>state := CLOSED, estimated_rtt := 92, dev_rtt := 20, current_rtt := 40,
         rcvtimeo := 4000, errno := EAGAIN,
         trace := [SetTimeout 140, Send (header 0 0 RDT_CLOSE), SetTimeout 172,
                   Send (header 0 0 RDT_ACK), SetTimeout 4000, CloseFd,
                   Diag ''Connection Closed as Expected'']\<rparr>)
      [Recv 0 (header 0 0 RDT_CLOSE)]"
proof -
  define s0 where "s0 = ReliableSocket\<lparr>state := ESTABLISHED\<rparr>"
  define s1 where "s1 = ReliableSocket\<lparr>state := ESTABLISHED, estimated_rtt := 92, dev_rtt := 20,
      current_rtt := 40, rcvtimeo := 172,
      trace := [SetTimeout 140, Send (header 0 0 RDT_CLOSE), SetTimeout 172]\<rparr>"
  define s2 where "s2 = s1\<lparr>errno := EAGAIN\<rparr>"
  define s3 where "s3 = ReliableSocket\<lparr>state := ESTABLISHED, estimated_rtt := 92, dev_rtt := 20,
      current_rtt := 40, rcvtimeo := 4000, errno := EAGAIN,
      trace := [SetTimeout 140, Send (header 0 0 RDT_CLOSE), SetTimeout 172,
                Send (header 0 0 RDT_ACK), SetTimeout 4000]\<rparr>"
  define evs1 where
    "evs1 = [Timeout, Recv 0 (header 0 0 RDT_CLOSE), Recv 0 [], Recv 0 (header 0 0 RDT_CLOSE)]"
  define evs2 where "evs2 = [Recv 0 [], Recv 0 (header 0 0 RDT_CLOSE)]"
  have ty: "hdr_type (recv_buf (header 0 0 RDT_ACK)) = RDT_ACK"
    "hdr_type (recv_buf (header 0 0 RDT_CLOSE)) = RDT_CLOSE"
    using hdr_type_recv_header [of 0 0 RDT_ACK "[]"] hdr_type_recv_header [of 0 0 RDT_CLOSE "[]"]
    by simp_all
  have seg: "send_seg_reliable (segment (header 0 0 RDT_CLOSE)) sizeof_RDTHeader s0
      (Recv 40 (header 0 0 RDT_ACK) # evs1) = Done (recv_buf (header 0 0 RDT_ACK)) s1 evs1"
    unfolding s0_def s1_def
    by (simp add: send_seg_reliable_def Let_def set_estimated_rtt_def double_to_int_def
        set_timeout_length_def emit_def ReliableSocket_def)
  have req: "send_close_request (segment (header 0 0 RDT_CLOSE)) s0
      (Recv 40 (header 0 0 RDT_ACK) # evs1) = Done () s1 evs1"
    using seg ty(1) by (rule send_close_request_done [OF _ disjI1])
  have await: "send_close_await s1 evs1 = Done () s2 evs2"
    unfolding evs1_def evs2_def s2_def by (simp add: ty)
  have wait: "send_close_wait (segment (header 0 0 RDT_ACK)) s2 evs2
      = Done () s3 [Recv 0 (header 0 0 RDT_CLOSE)]"
    unfolding evs2_def s2_def s1_def s3_def
    by (simp add: Let_def recv_ret_def set_timeout_length_def emit_def WAIT_TIME_def
        ReliableSocket_def)
  have st: "state s0 \<noteq> FIN"
    by (simp add: s0_def)
  have "close_connection s0 (Recv 40 (header 0 0 RDT_ACK) # evs1)
      = Done () (emit (Diag ''Connection Closed as Expected'') (emit CloseFd (s3\<lparr>state := CLOSED\<rparr>)))
          [Recv 0 (header 0 0 RDT_CLOSE)]"
    by (simp add: close_connection_def send_close_def st req await wait)
  then show ?thesis
    unfolding s0_def s3_def evs1_def
    by (simp add: emit_def ReliableSocket_def)
qed

lemma close_scenario_b:
  "close_connection (ReliableSocket\<lparr>state := ESTABLISHED\<rparr>)
     [Recv 40 (header 0 0 RDT_ACK), Recv 0 (header 0 0 RDT_CLOSE), Recv 0 []]
   = Exit
      (ReliableSocket\<lparr>state := ESTABLISHED, estimated_rtt := 92, dev_rtt := 20, current_rtt := 40,
         rcvtimeo := 4000,
         trace := [SetTimeout 140, Send (header 0 0 RDT_CLOSE), SetTimeout 172,
                   Send (header 0 0 RDT_ACK), SetTimeout 4000,
                   Diag ''send_close recv error'']\<rparr>)"
proof -
  define s0 where "s0 = ReliableSocket\<lparr>state := ESTABLISHED\<rparr>"
  define s1 where "s1 = ReliableSocket\<lparr>state := ESTABLISHED, estimated_rtt := 92, dev_rtt := 20,
      current_rtt := 40, rcvtimeo := 172,
      trace := [SetTimeout 140, Send (header 0 0 RDT_CLOSE), SetTimeout 172]\<rparr>"
  define s3 where "s3 = ReliableSocket\<lparr>state := ESTABLISHED, estimated_rtt := 92, dev_rtt := 20,
      current_rtt := 40, rcvtimeo := 4000,
      trace := [SetTimeout 140, Send (header 0 0 RDT_CLOSE), SetTimeout 172,
                Send (header 0 0 RDT_ACK), SetTimeout 4000, Diag ''send_close recv error'']\<rparr>"
  define evs1 where "evs1 = [Recv 0 (header 0 0 RDT_CLOSE), Recv 0 []]"
  define evs2 where "evs2 = [Recv 0 ([] :: byte list)]"
  have ty: "hdr_type (recv_buf (header 0 0 RDT_ACK)) = RDT_ACK"
    "hdr_type (recv_buf (header 0 0 RDT_CLOSE)) = RDT_CLOSE"
    using hdr_type_recv_header [of 0 0 RDT_ACK "[]"] hdr_type_recv_header [of 0 0 RDT_CLOSE "[]"]
    by simp_all
  have seg: "send_seg_reliable (segment (header 0 0 RDT_CLOSE)) sizeof_RDTHeader s0
      (Recv 40 (header 0 0 RDT_ACK) # evs1) = Done (recv_buf (header 0 0 RDT_ACK)) s1 evs1"
    unfolding s0_def s1_def
    by (simp add: send_seg_reliable_def Let_def set_estimated_rtt_def double_to_int_def
        set_timeout_length_def emit_def ReliableSocket_def)
  have req: "send_close_request (segment (header 0 0 RDT_CLOSE)) s0
      (Recv 40 (header 0 0 RDT_ACK) # evs1) = Done () s1 evs1"
    using seg ty(1) by (rule send_close_request_done [OF _ disjI1])
  have await: "send_close_await s1 evs1 = Done () s1 evs2"
    unfolding evs1_def evs2_def by (simp add: ty)
  have wait: "send_close_wait (segment (header 0 0 RDT_ACK)) s1 evs2 = Exit s3"
    unfolding evs2_def s1_def s3_def
    by (simp add: Let_def recv_ret_def set_timeout_length_def emit_def WAIT_TIME_def
        ReliableSocket_def)
  have st: "state s0 \<noteq> FIN"
    by (simp add: s0_def)
  have "close_connection s0 (Recv 40 (header 0 0 RDT_ACK) # evs1) = Exit s3"
    by (simp add: close_connection_def send_close_def st req await wait)
  then show ?thesis
    unfolding s0_def s3_def evs1_def
    by (simp add: ReliableSocket_def)
qed

text \<open>
  C7, evaluated where the code departs from it. The peer acknowledges the CLOSE and sends
  its own; during the final wait of \<^verbatim>\<open>WAIT_TIME\<close> an empty datagram arrives.
  \<^verbatim>\<open>recv\<close> returns 0, so the branch for \<^verbatim>\<open>recv(...) > 0\<close> is not taken and
  \<^verbatim>\<open>errno\<close> is read although this \<^verbatim>\<open>recv\<close> has not failed. In the first run an
  earlier \<^verbatim>\<open>recv\<close> had timed out: the wait ends at once, no deadline has expired, and
  the connection is released with the peer's retransmitted CLOSE unread. In the second run
  no earlier call had failed: the process exits.
\<close>

theorem close_connection_empty_datagram:
  "close_connection (ReliableSocket\<lparr>state := ESTABLISHED\<rparr>)
     [Recv 40 (header 0 0 RDT_ACK), Timeout, Recv 0 (header 0 0 RDT_CLOSE), Recv 0 [],
      Recv 0 (header 0 0 RDT_CLOSE)]
   = Done ()
      (ReliableSocket\<lparr>state := CLOSED, estimated_rtt := 92, dev_rtt := 20, current_rtt := 40,
         rcvtimeo := 4000, errno := EAGAIN,
         trace := [SetTimeout 140, Send (header 0 0 RDT_CLOSE), SetTimeout 172,
                   Send (header 0 0 RDT_ACK), SetTimeout 4000, CloseFd,
                   Diag ''Connection Closed as Expected'']\<rparr>)
      [Recv 0 (header 0 0 RDT_CLOSE)]
   \<and> close_connection (ReliableSocket\<lparr>state := ESTABLISHED\<rparr>)
     [Recv 40 (header 0 0 RDT_ACK), Recv 0 (header 0 0 RDT_CLOSE), Recv 0 []]
   = Exit
      (ReliableSocket\<lparr>state := ESTABLISHED, estimated_rtt := 92, dev_rtt := 20, current_rtt := 40,
         rcvtimeo := 4000,
         trace := [SetTimeout 140, Send (header 0 0 RDT_CLOSE), SetTimeout 172,
                   Send (header 0 0 RDT_ACK), SetTimeout 4000,
                   Diag ''send_close recv error'']\<rparr>)"
  using close_scenario_a close_scenario_b by (rule conjI)

section \<open>What the loops leave unchanged\<close>

lemma control_simps [simp]:
  "control (emit a s) = control s"
  "control (set_timeout_length s t) = control s"
  "control (set_estimated_rtt s) = control s"
  "control (s\<lparr>errno := e\<rparr>) = control s"
  "control (s\<lparr>trace := tr\<rparr>) = control s"
  "control (s\<lparr>rcvtimeo := t\<rparr>) = control s"
  "control (s\<lparr>current_rtt := c\<rparr>) = control s"
  by (simp_all add: control_def emit_def set_timeout_length_def set_estimated_rtt_def Let_def)

lemma fields_control: "fields a = fields b \<Longrightarrow> control a = control b"
  by (simp add: fields_def control_def)

lemma emit_simps [simp]:
  "sequence_number (emit a s) = sequence_number s"
  "expected_sequence_number (emit a s) = expected_sequence_number s"
  "estimated_rtt (emit a s) = estimated_rtt s"
  "dev_rtt (emit a s) = dev_rtt s"
  "current_rtt (emit a s) = current_rtt s"
  "state (emit a s) = state s"
  "rcvtimeo (emit a s) = rcvtimeo s"
  "errno (emit a s) = errno s"
  "trace (emit a s) = trace s @ [a]"
  by (simp_all add: emit_def)

lemma set_timeout_length_simps [simp]:
  "sequence_number (set_timeout_length s t) = sequence_number s"
  "expected_sequence_number (set_timeout_length s t) = expected_sequence_number s"
  "estimated_rtt (set_timeout_length s t) = estimated_rtt s"
  "dev_rtt (set_timeout_length s t) = dev_rtt s"
  "current_rtt (set_timeout_length s t) = current_rtt s"
  "state (set_timeout_length s t) = state s"
  "rcvtimeo (set_timeout_length s t) = t"
  "errno (set_timeout_length s t) = errno s"
  "trace (set_timeout_length s t) = trace s @ [SetTimeout t]"
  by (simp_all add: set_timeout_length_def emit_def)

lemma length_header12: "length (header a b ty) = 12"
  by (simp add: header_def)

text \<open>
  The bytes from the address of sendSegment on, for any length: the header, the \<open>n\<close> data
  bytes, and the zeros left of the buffer, which are none when \<open>n\<close> exceeds MAX_DATA_SIZE.
\<close>

lemma data_segment_layout:
  shows "length (data_segment sq data n) = max MAX_SEG_SIZE (sizeof_RDTHeader + n)"
    and "take sizeof_RDTHeader (data_segment sq data n) = header sq 0 RDT_DATA"
    and "take n (drop sizeof_RDTHeader (data_segment sq data n)) = map data [0..<n]"
    and "drop (sizeof_RDTHeader + n) (data_segment sq data n) = replicate (MAX_DATA_SIZE - n) 0"
    and "take (sizeof_RDTHeader + n) (data_segment sq data n) = header sq 0 RDT_DATA @ map data [0..<n]"
  by (simp_all add: data_segment_def Let_def size_defs length_header12)

text \<open>send_seg_loop and send_seg_reliable on any events.\<close>

lemma send_seg_loop_control:
  "control (outcome_state (send_seg_loop seg n lt cur s evs)) = control s"
proof (induction evs arbitrary: lt cur s)
  case Nil
  show ?case by simp
next
  case (Cons ev evs)
  show ?case
    by (cases ev) (simp_all add: Let_def Cons.IH)
qed

lemma send_seg_loop_sends:
  "\<exists>tr m. trace (outcome_state (send_seg_loop seg n lt cur s evs)) = trace s @ tr
     \<and> sends tr = replicate (Suc m) (take n seg)"
proof (induction evs arbitrary: lt cur s)
  case Nil
  have "trace (outcome_state (send_seg_loop seg n lt cur s [])) = trace s @ [Send (take n seg)]"
    by simp
  moreover have "sends [Send (take n seg)] = replicate (Suc 0) (take n seg)"
    by simp
  ultimately show ?case by blast
next
  case (Cons ev evs)
  show ?case
  proof (cases ev)
    case (Recv dt bs)
    then have "trace (outcome_state (send_seg_loop seg n lt cur s (ev # evs)))
        = trace s @ [Send (take n seg)]"
      by (simp add: Let_def)
    moreover have "sends [Send (take n seg)] = replicate (Suc 0) (take n seg)"
      by simp
    ultimately show ?thesis by blast
  next
    case Timeout
    let ?c = "if lt then 2 * cur else ((estimated_rtt s + 4 * dev_rtt s) * 2) :: u32"
    let ?s2 = "set_timeout_length (emit (Diag ''TIMEOUT. DOUBLING THE LENGTH OF TIMEOUT'')
      ((emit (Send (take n seg)) s)\<lparr>errno := EAGAIN\<rparr>)) ?c"
    from Timeout have eq: "send_seg_loop seg n lt cur s (ev # evs)
        = send_seg_loop seg n True ?c ?s2 evs"
      by (cases lt) (simp_all add: Let_def)
    from Cons.IH [of True ?c ?s2] obtain tr m where
      "trace (outcome_state (send_seg_loop seg n True ?c ?s2 evs)) = trace ?s2 @ tr"
      "sends tr = replicate (Suc m) (take n seg)"
      by blast
    then have "trace (outcome_state (send_seg_loop seg n lt cur s (ev # evs)))
        = trace s @ ([Send (take n seg),
            Diag ''TIMEOUT. DOUBLING THE LENGTH OF TIMEOUT'', SetTimeout ?c] @ tr)
      \<and> sends ([Send (take n seg),
        Diag ''TIMEOUT. DOUBLING THE LENGTH OF TIMEOUT'', SetTimeout ?c] @ tr)
          = replicate (Suc (Suc m)) (take n seg)"
      unfolding eq by simp
    then show ?thesis by blast
  next
    case Error
    then have "trace (outcome_state (send_seg_loop seg n lt cur s (ev # evs)))
        = trace s @ [Send (take n seg), Diag ''No ACK recv'']"
      by (simp add: Let_def)
    moreover have "sends [Send (take n seg), Diag ''No ACK recv''] = replicate (Suc 0) (take n seg)"
      by simp
    ultimately show ?thesis by blast
  qed
qed

lemma send_seg_reliable_control:
  "control (outcome_state (send_seg_reliable seg n s evs)) = control s"
proof -
  let ?s0 = "set_timeout_length s ((estimated_rtt s + 4 * dev_rtt s))"
  have "control (outcome_state (send_seg_loop seg n False 0 ?s0 evs)) = control s"
    by (simp add: send_seg_loop_control)
  then show ?thesis
    by (cases "send_seg_loop seg n False 0 ?s0 evs")
      (simp_all add: send_seg_reliable_def Let_def)
qed

lemma send_seg_reliable_sends:
  "\<exists>tr m. trace (outcome_state (send_seg_reliable seg n s evs)) = trace s @ tr
     \<and> sends tr = replicate (Suc m) (take n seg)"
proof -
  let ?T = "(estimated_rtt s + 4 * dev_rtt s) :: u32"
  let ?s0 = "set_timeout_length s ?T"
  from send_seg_loop_sends [of seg n False 0 ?s0 evs] obtain tr m where
    tr: "trace (outcome_state (send_seg_loop seg n False 0 ?s0 evs)) = trace ?s0 @ tr"
      "sends tr = replicate (Suc m) (take n seg)"
    by blast
  show ?thesis
  proof (cases "send_seg_loop seg n False 0 ?s0 evs")
    case (Done r s' evs1)
    let ?tr = "[SetTimeout ?T] @ tr @ [SetTimeout (rcvtimeo (set_estimated_rtt s'))]"
    have "trace (outcome_state (send_seg_reliable seg n s evs)) = trace s @ ?tr"
      using tr(1) Done by (simp add: send_seg_reliable_def Let_def set_estimated_rtt_timeout(2))
    moreover have "sends ?tr = replicate (Suc m) (take n seg)"
      using tr(2) by (simp add: sends_append)
    ultimately show ?thesis by blast
  next
    case (Exit s')
    have "trace (outcome_state (send_seg_reliable seg n s evs)) = trace s @ ([SetTimeout ?T] @ tr)"
      using tr(1) Exit by (simp add: send_seg_reliable_def Let_def)
    moreover have "sends ([SetTimeout ?T] @ tr) = replicate (Suc m) (take n seg)"
      using tr(2) by simp
    ultimately show ?thesis by blast
  next
    case (Fault f s')
    have "trace (outcome_state (send_seg_reliable seg n s evs)) = trace s @ ([SetTimeout ?T] @ tr)"
      using tr(1) Fault by (simp add: send_seg_reliable_def Let_def)
    moreover have "sends ([SetTimeout ?T] @ tr) = replicate (Suc m) (take n seg)"
      using tr(2) by simp
    ultimately show ?thesis by blast
  next
    case (Blocked s')
    have "trace (outcome_state (send_seg_reliable seg n s evs)) = trace s @ ([SetTimeout ?T] @ tr)"
      using tr(1) Blocked by (simp add: send_seg_reliable_def Let_def)
    moreover have "sends ([SetTimeout ?T] @ tr) = replicate (Suc m) (take n seg)"
      using tr(2) by simp
    ultimately show ?thesis by blast
  qed
qed

text \<open>The loop of send_data.\<close>

lemma send_data_loop_control:
  "control (outcome_state (send_data_loop seg n s evs)) = control s"
proof (induction seg n s evs rule: send_data_loop.induct)
  case (1 seg n s evs)
  have c: "control (outcome_state (send_seg_reliable seg (sizeof_RDTHeader + n) s evs)) = control s"
    by (rule send_seg_reliable_control)
  show ?case
  proof (cases "send_seg_reliable seg (sizeof_RDTHeader + n) s evs")
    case (Done r s1 evs1)
    with c have c1: "control s1 = control s" by simp
    show ?thesis
    proof (cases "hdr_type r = RDT_ACK \<and> sequence_number s1 = ntohl (hdr_ack_number r)")
      case True
      with Done c1 show ?thesis
        by (subst send_data_loop.simps) simp
    next
      case False
      then have "send_data_loop seg n s evs = send_data_loop seg n s1 evs1"
        using Done by (subst send_data_loop.simps) auto
      moreover have "control (outcome_state (send_data_loop seg n s1 evs1)) = control s1"
        using False Done "1.IH" by auto
      ultimately show ?thesis using c1 by simp
    qed
  next
    case (Exit s1)
    with c show ?thesis by (subst send_data_loop.simps) simp
  next
    case (Fault f s1)
    with c show ?thesis by (subst send_data_loop.simps) simp
  next
    case (Blocked s1)
    with c show ?thesis by (subst send_data_loop.simps) simp
  qed
qed

lemma send_data_loop_sends:
  "\<exists>tr m. trace (outcome_state (send_data_loop seg n s evs)) = trace s @ tr
     \<and> sends tr = replicate (Suc m) (take (sizeof_RDTHeader + n) seg)"
proof (induction seg n s evs rule: send_data_loop.induct)
  case (1 seg n s evs)
  from send_seg_reliable_sends [of seg "sizeof_RDTHeader + n" s evs] obtain tr m where
    tr: "trace (outcome_state (send_seg_reliable seg (sizeof_RDTHeader + n) s evs)) = trace s @ tr"
      "sends tr = replicate (Suc m) (take (sizeof_RDTHeader + n) seg)"
    by blast
  show ?case
  proof (cases "send_seg_reliable seg (sizeof_RDTHeader + n) s evs")
    case (Done r s1 evs1)
    with tr(1) have t1: "trace s1 = trace s @ tr" by simp
    show ?thesis
    proof (cases "hdr_type r = RDT_ACK \<and> sequence_number s1 = ntohl (hdr_ack_number r)")
      case True
      with Done have "send_data_loop seg n s evs = Done () s1 evs1"
        by (subst send_data_loop.simps) simp
      with t1 tr(2) show ?thesis by auto
    next
      case False
      then have eq: "send_data_loop seg n s evs = send_data_loop seg n s1 evs1"
        using Done by (subst send_data_loop.simps) auto
      have "\<exists>tr m. trace (outcome_state (send_data_loop seg n s1 evs1)) = trace s1 @ tr
           \<and> sends tr = replicate (Suc m) (take (sizeof_RDTHeader + n) seg)"
        using False Done "1.IH" by auto
      then obtain tr' m' where
        tr': "trace (outcome_state (send_data_loop seg n s1 evs1)) = trace s1 @ tr'"
          "sends tr' = replicate (Suc m') (take (sizeof_RDTHeader + n) seg)"
        by blast
      have "trace (outcome_state (send_data_loop seg n s evs)) = trace s @ (tr @ tr')"
        unfolding eq using t1 tr'(1) by simp
      moreover have "sends (tr @ tr')
          = replicate (Suc (Suc m + m')) (take (sizeof_RDTHeader + n) seg)"
        using tr(2) tr'(2) by (simp add: sends_append replicate_add [symmetric] del: replicate_Suc)
      ultimately show ?thesis by blast
    qed
  next
    case (Exit s1)
    then have "send_data_loop seg n s evs = Exit s1"
      by (subst send_data_loop.simps) simp
    with tr Exit show ?thesis by auto
  next
    case (Fault f s1)
    then have "send_data_loop seg n s evs = Fault f s1"
      by (subst send_data_loop.simps) simp
    with tr Fault show ?thesis by auto
  next
    case (Blocked s1)
    then have "send_data_loop seg n s evs = Blocked s1"
      by (subst send_data_loop.simps) simp
    with tr Blocked show ?thesis by auto
  qed
qed

section \<open>send_data\<close>

lemma send_data_loop_done:
  "send_seg_reliable seg (sizeof_RDTHeader + n) s evs = Done r s1 evs1
     \<Longrightarrow> hdr_type r = RDT_ACK \<Longrightarrow> sequence_number s1 = ntohl (hdr_ack_number r)
     \<Longrightarrow> send_data_loop seg n s evs = Done () s1 evs1"
  by (subst send_data_loop.simps) simp

lemma send_data_loop_retry:
  "send_seg_reliable seg (sizeof_RDTHeader + n) s evs = Done r s1 evs1
     \<Longrightarrow> hdr_type r \<noteq> RDT_ACK \<or> sequence_number s1 \<noteq> ntohl (hdr_ack_number r)
     \<Longrightarrow> send_data_loop seg n s evs = send_data_loop seg n s1 evs1"
  by (subst send_data_loop.simps) auto





section \<open>The sequence number\<close>

lemma send_timeout_fields: "fields (outcome_state (send_timeout seg s evs)) = fields s"
proof (induction evs arbitrary: s)
  case Nil
  show ?case by (simp add: Let_def)
next
  case (Cons ev evs)
  show ?case by (cases ev) (simp_all add: Let_def Cons.IH)
qed

lemma send_timeout_no_fault: "send_timeout seg s evs \<noteq> Fault f s'"
proof (induction evs arbitrary: s)
  case Nil
  show ?case by (simp add: Let_def)
next
  case (Cons ev evs)
  show ?case by (cases ev) (simp_all add: Let_def Cons.IH)
qed

lemma send_timeout_control: "control (outcome_state (send_timeout seg s evs)) = control s"
  by (rule fields_control) (rule send_timeout_fields)

lemma receive_loop_control:
  "case receive_loop buffer s evs of
     Done r s' evs' \<Rightarrow>
       control s' = (sequence_number s + 1, expected_sequence_number s, state s)
       \<or> control s' = (sequence_number s, expected_sequence_number s, FIN)
   | Exit s' \<Rightarrow> control s' = control s
   | Fault f s' \<Rightarrow> control s' = (sequence_number s + 1, expected_sequence_number s, state s)
   | Blocked s' \<Rightarrow> control s' = control s"
proof (induction buffer s evs rule: receive_loop.induct)
  case (1 buffer s)
  show ?case by simp
next
  case (2 buffer s evs)
  show ?case by simp
next
  case (3 buffer s evs)
  show ?case by simp
next
  case (4 buffer s dt bs evs)
  show ?case
  proof (cases "hdr_type (recv_buf bs) = RDT_ACK")
    case True
    with "4.IH"(1) show ?thesis by (simp add: Let_def)
  next
    case notack: False
    show ?thesis
    proof (cases "hdr_type (recv_buf bs) = RDT_CLOSE")
      case True
      have c: "control (outcome_state (send_timeout (header 0 0 RDT_ACK) s evs)) = control s"
        by (rule send_timeout_control)
      show ?thesis
      proof (cases "send_timeout (header 0 0 RDT_ACK) s evs")
        case (Done u s1 evs1)
        with c notack True show ?thesis by (simp add: Let_def control_def)
      next
        case (Exit s1)
        with c notack True show ?thesis by (simp add: Let_def)
      next
        case (Fault f s1)
        with send_timeout_no_fault show ?thesis by blast
      next
        case (Blocked s1)
        with c notack True show ?thesis by (simp add: Let_def)
      qed
    next
      case notclose: False
      let ?sn = "hdr_sequence_number (recv_buf bs)"
      let ?s1 = "emit (Send (?sn @ ?sn @ [RDT_ACK, 0, 0, 0])) s"
      show ?thesis
      proof (cases "ntohl ?sn = sequence_number s")
        case True
        with notack notclose show ?thesis
          by (simp add: Let_def control_def)
      next
        case False
        have eq: "receive_loop buffer s (Recv dt bs # evs) = receive_loop buffer ?s1 evs"
          using notack notclose False by (simp add: Let_def)
        have ih: "case receive_loop buffer ?s1 evs of
           Done r s' evs' \<Rightarrow>
             control s' = (sequence_number ?s1 + 1, expected_sequence_number ?s1, state ?s1)
             \<or> control s' = (sequence_number ?s1, expected_sequence_number ?s1, FIN)
         | Exit s' \<Rightarrow> control s' = control ?s1
         | Fault f s' \<Rightarrow> control s' = (sequence_number ?s1 + 1, expected_sequence_number ?s1, state ?s1)
         | Blocked s' \<Rightarrow> control s' = control ?s1"
          using "4.IH"(2) [OF refl refl refl notack notclose refl] False by simp
        show ?thesis
          unfolding eq using ih
          by (cases "receive_loop buffer ?s1 evs") simp_all
      qed
    qed
  qed
qed

lemma receive_data_control:
  assumes "state s = ESTABLISHED"
  shows "case receive_data buffer s evs of
     Done r s' evs' \<Rightarrow>
       control s' = (sequence_number s + 1, expected_sequence_number s, ESTABLISHED)
       \<or> control s' = (sequence_number s, expected_sequence_number s, FIN)
   | Exit s' \<Rightarrow> control s' = control s
   | Fault f s' \<Rightarrow> control s' = (sequence_number s + 1, expected_sequence_number s, ESTABLISHED)
   | Blocked s' \<Rightarrow> control s' = control s"
  using assms receive_loop_control [where buffer = buffer and s = "set_timeout_length s 0" and evs = evs]
  by (cases "receive_loop buffer (set_timeout_length s 0) evs") (simp_all add: receive_data_def)

lemma send_data_control:
  assumes "state s = ESTABLISHED"
  shows "case send_data data length_arg s evs of
     Done u s' evs' \<Rightarrow>
       control s' = (sequence_number s + 1, expected_sequence_number s, ESTABLISHED)
   | Exit s' \<Rightarrow> control s' = control s
   | Fault f s' \<Rightarrow> control s' = control s
   | Blocked s' \<Rightarrow> control s' = control s"
proof (cases "length_arg < 0")
  case True
  with assms show ?thesis by (simp add: send_data_def)
next
  case False
  let ?seg = "data_segment (sequence_number s) data (nat length_arg)"
  have c: "control (outcome_state (send_data_loop ?seg (nat length_arg) s evs)) = control s"
    by (rule send_data_loop_control)
  show ?thesis
    using assms False c
    by (cases "send_data_loop ?seg (nat length_arg) s evs")
      (simp_all add: send_data_def control_def)
qed

lemma send_data_sends:
  assumes "state s = ESTABLISHED" and "send_data data length_arg s evs = Done u s' evs'"
  shows "\<exists>tr m. trace s' = trace s @ tr
     \<and> sends tr = replicate (Suc m)
          (header (sequence_number s) 0 RDT_DATA @ map data [0..<nat length_arg])"
proof -
  let ?n = "nat length_arg"
  let ?seg = "data_segment (sequence_number s) data ?n"
  from assms have r: "\<not> length_arg < 0"
    by (auto simp: send_data_def)
  from assms r obtain s1 where
    loop: "send_data_loop ?seg ?n s evs = Done () s1 evs'"
    and s': "s' = s1\<lparr>sequence_number := sequence_number s1 + 1\<rparr>"
    by (auto simp: send_data_def split: outcome.splits)
  from send_data_loop_sends [of ?seg ?n s evs] loop obtain tr m where
    "trace s1 = trace s @ tr" "sends tr = replicate (Suc m) (take (sizeof_RDTHeader + ?n) ?seg)"
    by auto
  then have "trace s' = trace s @ tr
     \<and> sends tr = replicate (Suc m)
          (header (sequence_number s) 0 RDT_DATA @ map data [0..<nat length_arg])"
    using s' data_segment_layout(5) [where sq = "sequence_number s" and data = data and n = ?n]
    by simp
  then show ?thesis by blast
qed

text \<open>
  What a returning call has received. send_seg_reliable returns the datagram that ended
  its wait; send_data returns only on an ACK whose ack number is the sequence number;
  receive_data returns, with the connection still ESTABLISHED, only on a segment whose tag
  is neither RDT_ACK nor RDT_CLOSE and whose sequence number is the connection's.
\<close>

lemma send_seg_loop_received:
  "send_seg_loop seg n lt cur s evs = Done r s1 evs1
     \<Longrightarrow> \<exists>pre dt bs. evs = pre @ Recv dt bs # evs1 \<and> r = recv_buf bs"
proof (induction evs arbitrary: lt cur s)
  case Nil
  then show ?case by simp
next
  case (Cons ev evs)
  show ?case
  proof (cases ev)
    case (Recv dt bs)
    with Cons.prems have "ev # evs = [] @ Recv dt bs # evs1 \<and> r = recv_buf bs"
      by (auto simp: Let_def)
    then show ?thesis by blast
  next
    case Timeout
    let ?c = "if lt then 2 * cur else ((estimated_rtt s + 4 * dev_rtt s) * 2) :: u32"
    let ?s2 = "set_timeout_length (emit (Diag ''TIMEOUT. DOUBLING THE LENGTH OF TIMEOUT'')
      ((emit (Send (take n seg)) s)\<lparr>errno := EAGAIN\<rparr>)) ?c"
    from Cons.prems Timeout have "send_seg_loop seg n True ?c ?s2 evs = Done r s1 evs1"
      by (cases lt) (simp_all add: Let_def)
    from Cons.IH [OF this] obtain pre dt bs where
      "evs = pre @ Recv dt bs # evs1" "r = recv_buf bs"
      by blast
    then have "ev # evs = (ev # pre) @ Recv dt bs # evs1 \<and> r = recv_buf bs"
      by simp
    then show ?thesis by blast
  next
    case Error
    with Cons.prems show ?thesis by (simp add: Let_def)
  qed
qed

lemma send_seg_reliable_received:
  assumes "send_seg_reliable seg n s evs = Done r s1 evs1"
  shows "\<exists>pre dt bs. evs = pre @ Recv dt bs # evs1 \<and> r = recv_buf bs"
proof -
  let ?s0 = "set_timeout_length s (estimated_rtt s + 4 * dev_rtt s)"
  from assms obtain s' where "send_seg_loop seg n False 0 ?s0 evs = Done r s' evs1"
    by (auto simp: send_seg_reliable_def Let_def split: outcome.splits)
  then show ?thesis by (rule send_seg_loop_received)
qed

lemma send_data_loop_acknowledged:
  "send_data_loop seg n s evs = Done u s' evs'
     \<Longrightarrow> \<exists>pre dt bs. evs = pre @ Recv dt bs # evs'
           \<and> hdr_type (recv_buf bs) = RDT_ACK
           \<and> ntohl (hdr_ack_number (recv_buf bs)) = sequence_number s"
proof (induction seg n s evs rule: send_data_loop.induct)
  case (1 seg n s evs)
  from "1.prems" obtain r s1 evs1 where
    call: "send_seg_reliable seg (sizeof_RDTHeader + n) s evs = Done r s1 evs1"
    by (subst (asm) send_data_loop.simps) (auto split: outcome.splits)
  from send_seg_reliable_received [OF call] obtain pre dt bs where
    rcv: "evs = pre @ Recv dt bs # evs1" "r = recv_buf bs"
    by blast
  have "control (outcome_state (send_seg_reliable seg (sizeof_RDTHeader + n) s evs)) = control s"
    by (rule send_seg_reliable_control)
  with call have sq: "sequence_number s1 = sequence_number s"
    by (simp add: control_def)
  show ?case
  proof (cases "hdr_type r = RDT_ACK \<and> sequence_number s1 = ntohl (hdr_ack_number r)")
    case True
    with call "1.prems" have "evs' = evs1"
      by (subst (asm) send_data_loop.simps) simp
    with True rcv sq show ?thesis by auto
  next
    case False
    with call "1.prems" have rec: "send_data_loop seg n s1 evs1 = Done u s' evs'"
      by (subst (asm) send_data_loop.simps) (auto split: if_splits)
    have "\<exists>pre dt bs. evs1 = pre @ Recv dt bs # evs'
           \<and> hdr_type (recv_buf bs) = RDT_ACK
           \<and> ntohl (hdr_ack_number (recv_buf bs)) = sequence_number s1"
      using False call rec "1.IH" by auto
    then obtain pre' dt' bs' where
      "evs1 = pre' @ Recv dt' bs' # evs'" "hdr_type (recv_buf bs') = RDT_ACK"
      "ntohl (hdr_ack_number (recv_buf bs')) = sequence_number s1"
      by blast
    with rcv(1) sq have "evs = (pre @ Recv dt bs # pre') @ Recv dt' bs' # evs'
        \<and> hdr_type (recv_buf bs') = RDT_ACK
        \<and> ntohl (hdr_ack_number (recv_buf bs')) = sequence_number s"
      by simp
    then show ?thesis by blast
  qed
qed

lemma send_data_acknowledged:
  assumes "state s = ESTABLISHED" and "send_data data length_arg s evs = Done u s' evs'"
  shows "\<exists>pre dt bs. evs = pre @ Recv dt bs # evs'
           \<and> hdr_type (recv_buf bs) = RDT_ACK
           \<and> ntohl (hdr_ack_number (recv_buf bs)) = sequence_number s"
proof -
  from assms have r: "\<not> length_arg < 0"
    by (auto simp: send_data_def)
  from assms r obtain s1 where
    "send_data_loop (data_segment (sequence_number s) data (nat length_arg)) (nat length_arg) s evs
       = Done () s1 evs'"
    by (auto simp: send_data_def split: outcome.splits)
  then show ?thesis by (rule send_data_loop_acknowledged)
qed

lemma send_timeout_state: "state (outcome_state (send_timeout seg s evs)) = state s"
  using send_timeout_control [of seg s evs] by (simp add: control_def)

lemma receive_loop_accepted:
  "receive_loop buffer s evs = Done r s' evs' \<Longrightarrow> state s' \<noteq> FIN
     \<Longrightarrow> \<exists>pre dt bs. evs = pre @ Recv dt bs # evs'
           \<and> hdr_type (recv_buf bs) \<noteq> RDT_ACK \<and> hdr_type (recv_buf bs) \<noteq> RDT_CLOSE
           \<and> ntohl (hdr_sequence_number (recv_buf bs)) = sequence_number s"
proof (induction buffer s evs rule: receive_loop.induct)
  case (1 buffer s)
  then show ?case by simp
next
  case (2 buffer s evs)
  then show ?case by simp
next
  case (3 buffer s evs)
  then show ?case by simp
next
  case (4 buffer s dt bs evs)
  show ?case
  proof (cases "hdr_type (recv_buf bs) = RDT_ACK")
    case True
    with "4.prems" have "receive_loop buffer s evs = Done r s' evs'"
      by (simp add: Let_def)
    from "4.IH"(1) [OF refl refl refl True this "4.prems"(2)] obtain pre dt' bs' where
      "evs = pre @ Recv dt' bs' # evs'"
      "hdr_type (recv_buf bs') \<noteq> RDT_ACK" "hdr_type (recv_buf bs') \<noteq> RDT_CLOSE"
      "ntohl (hdr_sequence_number (recv_buf bs')) = sequence_number s"
      by blast
    then have "Recv dt bs # evs = (Recv dt bs # pre) @ Recv dt' bs' # evs'
        \<and> hdr_type (recv_buf bs') \<noteq> RDT_ACK \<and> hdr_type (recv_buf bs') \<noteq> RDT_CLOSE
        \<and> ntohl (hdr_sequence_number (recv_buf bs')) = sequence_number s"
      by simp
    then show ?thesis by blast
  next
    case notack: False
    show ?thesis
    proof (cases "hdr_type (recv_buf bs) = RDT_CLOSE")
      case True
      from "4.prems"(1) notack True obtain s1 where "s' = s1\<lparr>state := FIN\<rparr>"
        by (auto simp: Let_def split: outcome.splits)
      with "4.prems"(2) show ?thesis by simp
    next
      case notclose: False
      let ?sn = "hdr_sequence_number (recv_buf bs)"
      let ?s1 = "emit (Send (?sn @ ?sn @ [RDT_ACK, 0, 0, 0])) s"
      show ?thesis
      proof (cases "ntohl ?sn = sequence_number s")
        case True
        from "4.prems"(1) notack notclose True have "evs' = evs"
          by (auto simp: Let_def split: if_splits)
        with notack notclose True have "Recv dt bs # evs = [] @ Recv dt bs # evs'
            \<and> hdr_type (recv_buf bs) \<noteq> RDT_ACK \<and> hdr_type (recv_buf bs) \<noteq> RDT_CLOSE
            \<and> ntohl (hdr_sequence_number (recv_buf bs)) = sequence_number s"
          by simp
        then show ?thesis by blast
      next
        case False
        with "4.prems"(1) notack notclose have rec: "receive_loop buffer ?s1 evs = Done r s' evs'"
          by (simp add: Let_def)
        have ne: "ntohl ?sn \<noteq> sequence_number ?s1"
          using False by simp
        from "4.IH"(2) [OF refl refl refl notack notclose refl ne rec "4.prems"(2)]
        obtain pre dt' bs' where
          "evs = pre @ Recv dt' bs' # evs'"
          "hdr_type (recv_buf bs') \<noteq> RDT_ACK" "hdr_type (recv_buf bs') \<noteq> RDT_CLOSE"
          "ntohl (hdr_sequence_number (recv_buf bs')) = sequence_number ?s1"
          by blast
        then have "Recv dt bs # evs = (Recv dt bs # pre) @ Recv dt' bs' # evs'
            \<and> hdr_type (recv_buf bs') \<noteq> RDT_ACK \<and> hdr_type (recv_buf bs') \<noteq> RDT_CLOSE
            \<and> ntohl (hdr_sequence_number (recv_buf bs')) = sequence_number s"
          by simp
        then show ?thesis by blast
      qed
    qed
  qed
qed

lemma receive_data_accepted:
  assumes "state s = ESTABLISHED" and "receive_data buffer s evs = Done r s' evs'"
    and "state s' = ESTABLISHED"
  shows "sequence_number s' = sequence_number s + 1
     \<and> (\<exists>pre dt bs. evs = pre @ Recv dt bs # evs'
           \<and> hdr_type (recv_buf bs) \<noteq> RDT_ACK \<and> hdr_type (recv_buf bs) \<noteq> RDT_CLOSE
           \<and> ntohl (hdr_sequence_number (recv_buf bs)) = sequence_number s)"
proof -
  from assms(1,2) have loop: "receive_loop buffer (set_timeout_length s 0) evs = Done r s' evs'"
    by (simp add: receive_data_def)
  from assms(3) have "state s' \<noteq> FIN" by simp
  from receive_loop_accepted [OF loop this] have
    "\<exists>pre dt bs. evs = pre @ Recv dt bs # evs'
           \<and> hdr_type (recv_buf bs) \<noteq> RDT_ACK \<and> hdr_type (recv_buf bs) \<noteq> RDT_CLOSE
           \<and> ntohl (hdr_sequence_number (recv_buf bs)) = sequence_number s"
    by simp
  moreover from receive_data_control [OF assms(1), where buffer = buffer and evs = evs] assms(2,3)
  have "sequence_number s' = sequence_number s + 1"
    by (auto simp: control_def)
  ultimately show ?thesis by blast
qed

text \<open>An in-order DATA segment that fits the caller's buffer is accepted at once.\<close>

lemma receive_data_in_order:
  assumes "state s = ESTABLISHED" and "hdr_type (recv_buf bs) = RDT_DATA"
    and "ntohl (hdr_sequence_number (recv_buf bs)) = sequence_number s"
    and "0 \<le> recv_ret bs - int sizeof_RDTHeader"
    and "recv_ret bs - int sizeof_RDTHeader \<le> int (length buffer)"
  shows "receive_data buffer s (Recv dt bs # evs)
     = Done (recv_ret bs - int sizeof_RDTHeader,
             take (nat (recv_ret bs - int sizeof_RDTHeader)) (drop sizeof_RDTHeader (recv_buf bs))
               @ drop (nat (recv_ret bs - int sizeof_RDTHeader)) buffer)
         (s\<lparr>rcvtimeo := 0, sequence_number := sequence_number s + 1,
            trace := trace s @ [SetTimeout 0, Send (hdr_sequence_number (recv_buf bs)
                @ hdr_sequence_number (recv_buf bs) @ [RDT_ACK, 0, 0, 0])]\<rparr>) evs"
  using assms
  by (simp add: receive_data_def Let_def RDT_distinct set_timeout_length_def emit_def)

lemma run_calls_not_established:
  "state s \<noteq> ESTABLISHED \<Longrightarrow> state (outcome_state (run_calls cs s evs)) = state s"
proof (induction cs arbitrary: s)
  case Nil
  show ?case by simp
next
  case (Cons c cs)
  show ?case
  proof (cases c)
    case (Call_send data length_arg)
    with Cons.prems Cons.IH [of "emit (Diag ''INFO: Cannot send: Connection not established.'') s"]
    show ?thesis by (simp add: send_data_def)
  next
    case (Call_receive buffer)
    with Cons.prems Cons.IH [of "emit (Diag ''INFO: Cannot receive: Connection not established.'') s"]
    show ?thesis by (simp add: receive_data_def)
  qed
qed

lemma run_calls_counts:
  "state s = ESTABLISHED \<Longrightarrow> run_calls cs s evs = Done () s1 evs1 \<Longrightarrow> state s1 = ESTABLISHED
     \<Longrightarrow> sequence_number s1 = sequence_number s + of_nat (length cs)"
proof (induction cs arbitrary: s evs)
  case Nil
  then show ?case by simp
next
  case (Cons c cs)
  show ?case
  proof (cases c)
    case (Call_send data length_arg)
    with Cons.prems(2) obtain s' evs' where
      call: "send_data data length_arg s evs = Done () s' evs'"
      and rest: "run_calls cs s' evs' = Done () s1 evs1"
      by (auto split: outcome.splits)
    from send_data_control [OF Cons.prems(1), where data = data and length_arg = length_arg and evs = evs] call
    have c: "sequence_number s' = sequence_number s + 1" "state s' = ESTABLISHED"
      by (simp_all add: control_def)
    from Cons.IH [OF c(2) rest Cons.prems(3)] c(1) show ?thesis by simp
  next
    case (Call_receive buffer)
    with Cons.prems(2) obtain r s' evs' where
      call: "receive_data buffer s evs = Done r s' evs'"
      and rest: "run_calls cs s' evs' = Done () s1 evs1"
      by (auto split: outcome.splits)
    from receive_data_control [OF Cons.prems(1), where buffer = buffer and evs = evs] call
    have "sequence_number s' = sequence_number s + 1 \<and> state s' = ESTABLISHED
        \<or> state s' = FIN"
      by (auto simp: control_def)
    moreover have "state s' \<noteq> FIN"
    proof
      assume "state s' = FIN"
      then have "state (outcome_state (run_calls cs s' evs')) = FIN"
        using run_calls_not_established [of s' cs evs'] by simp
      with rest Cons.prems(3) show False by simp
    qed
    ultimately have c: "sequence_number s' = sequence_number s + 1" "state s' = ESTABLISHED"
      by simp_all
    from Cons.IH [OF c(2) rest Cons.prems(3)] c(1) show ?thesis by simp
  qed
qed

lemma send_seg_reliable_reply:
  "send_seg_reliable seg n s (Recv dt bs # evs)
     = Done (recv_buf bs)
         (set_estimated_rtt ((emit (Send (take n seg))
            (set_timeout_length s ((estimated_rtt s + 4 * dev_rtt s))))\<lparr>current_rtt := dt\<rparr>))
         evs"
  by (simp add: send_seg_reliable_def Let_def)

lemma send_data_acked_at_once:
  assumes "state s = ESTABLISHED" and "0 \<le> length_arg"
    and "hdr_type (recv_buf bs) = RDT_ACK"
    and "ntohl (hdr_ack_number (recv_buf bs)) = sequence_number s"
  shows "send_data data length_arg s (Recv dt bs # evs)
     = Done ()
         ((set_estimated_rtt ((emit (Send (header (sequence_number s) 0 RDT_DATA
               @ map data [0..<nat length_arg]))
            (set_timeout_length s ((estimated_rtt s + 4 * dev_rtt s))))\<lparr>current_rtt := dt\<rparr>))
          \<lparr>sequence_number := sequence_number s + 1\<rparr>) evs"
proof -
  let ?n = "nat length_arg"
  let ?seg = "data_segment (sequence_number s) data ?n"
  let ?s1 = "set_estimated_rtt ((emit (Send (take (sizeof_RDTHeader + ?n) ?seg))
            (set_timeout_length s ((estimated_rtt s + 4 * dev_rtt s))))\<lparr>current_rtt := dt\<rparr>)"
  have sq: "sequence_number ?s1 = sequence_number s"
    by (simp add: set_estimated_rtt_fields)
  have "send_data_loop ?seg ?n s (Recv dt bs # evs) = Done () ?s1 evs"
    using send_seg_reliable_reply assms(3)
    by (rule send_data_loop_done) (simp add: set_estimated_rtt_fields assms(4))
  then show ?thesis
    using assms(1,2) sq
      data_segment_layout(5) [where sq = "sequence_number s" and data = data and n = ?n]
    by (simp add: send_data_def)
qed

lemma first_send:
  "send_data (\<lambda>i. 7) 1 (ReliableSocket\<lparr>state := ESTABLISHED\<rparr>) (Recv 30 (header 0 0 RDT_ACK) # evs)
     = Done () (ReliableSocket\<lparr>state := ESTABLISHED, sequence_number := 1, estimated_rtt := 90,
          dev_rtt := 22, current_rtt := 30, rcvtimeo := 178,
          trace := [SetTimeout 140, Send (header 0 0 RDT_DATA @ [7]), SetTimeout 178]\<rparr>) evs"
proof -
  have ty: "hdr_type (recv_buf (header 0 0 RDT_ACK)) = RDT_ACK"
    using hdr_type_recv_header [of 0 0 RDT_ACK "[]"] by simp
  have ak: "ntohl (hdr_ack_number (recv_buf (header 0 0 RDT_ACK)))
      = sequence_number (ReliableSocket\<lparr>state := ESTABLISHED\<rparr>)"
    using hdr_ack_recv_header [of 0 0 RDT_ACK "[]"]
    by (simp add: ntohl_htonl ReliableSocket_def)
  have "state (ReliableSocket\<lparr>state := ESTABLISHED\<rparr>) = ESTABLISHED" "(0 :: int) \<le> 1"
    by simp_all
  from send_data_acked_at_once [OF this ty ak, of "\<lambda>i. 7" 30 evs] show ?thesis
    by (simp add: set_estimated_rtt_def Let_def double_to_int_def set_timeout_length_def
        emit_def ReliableSocket_def)
qed

lemma second_send:
  "send_data (\<lambda>i. 9) 1 (ReliableSocket\<lparr>state := ESTABLISHED, sequence_number := 1, estimated_rtt := 90,
          dev_rtt := 22, current_rtt := 30, rcvtimeo := 178,
          trace := [SetTimeout 140, Send (header 0 0 RDT_DATA @ [7]), SetTimeout 178]\<rparr>)
       (Recv 30 (header 0 1 RDT_ACK) # evs)
     = Done () (ReliableSocket\<lparr>state := ESTABLISHED, sequence_number := 2, estimated_rtt := 81,
          dev_rtt := 28, current_rtt := 30, rcvtimeo := 193,
          trace := [SetTimeout 140, Send (header 0 0 RDT_DATA @ [7]), SetTimeout 178,
                    SetTimeout 178, Send (header 1 0 RDT_DATA @ [9]), SetTimeout 193]\<rparr>) evs"
proof -
  let ?s = "ReliableSocket\<lparr>state := ESTABLISHED, sequence_number := 1, estimated_rtt := 90,
          dev_rtt := 22, current_rtt := 30, rcvtimeo := 178,
          trace := [SetTimeout 140, Send (header 0 0 RDT_DATA @ [7]), SetTimeout 178]\<rparr>"
  have ty: "hdr_type (recv_buf (header 0 1 RDT_ACK)) = RDT_ACK"
    using hdr_type_recv_header [of 0 1 RDT_ACK "[]"] by simp
  have ak: "ntohl (hdr_ack_number (recv_buf (header 0 1 RDT_ACK))) = sequence_number ?s"
    using hdr_ack_recv_header [of 0 1 RDT_ACK "[]"]
    by (simp add: ntohl_htonl ReliableSocket_def)
  have "state ?s = ESTABLISHED" "(0 :: int) \<le> 1"
    by simp_all
  from send_data_acked_at_once [OF this ty ak, of "\<lambda>i. 9" 30 evs] show ?thesis
    by (simp add: set_estimated_rtt_def Let_def double_to_int_def set_timeout_length_def
        emit_def ReliableSocket_def)
qed

text \<open>
  C4, as stated, on a fresh ESTABLISHED connection that first accepts the DATA segment
  number 0 in receive_data and then calls send_data for the first time: the DATA segment
  of this first acknowledged send carries the sequence number 1, not 0, because
  receive_data has incremented the same counter.
\<close>

theorem first_send_after_receive_carries_one:
  "run_calls [Call_receive [0, 0], Call_send (\<lambda>i. 7) 1] (ReliableSocket\<lparr>state := ESTABLISHED\<rparr>)
     [Recv 0 (header 0 0 RDT_DATA @ [5]), Recv 30 (header 0 1 RDT_ACK)]
   = Done () (ReliableSocket\<lparr>state := ESTABLISHED, sequence_number := 2, estimated_rtt := 90,
        dev_rtt := 22, current_rtt := 30, rcvtimeo := 178,
        trace := [SetTimeout 0, Send (htonl 0 @ htonl 0 @ [RDT_ACK, 0, 0, 0]),
                  SetTimeout 140, Send (header 1 0 RDT_DATA @ [7]), SetTimeout 178]\<rparr>) []
   \<and> ntohl (hdr_sequence_number (header 1 0 RDT_DATA @ [7])) = 1"
proof -
  define s0 where "s0 = ReliableSocket\<lparr>state := ESTABLISHED\<rparr>"
  define s1 where "s1 = ReliableSocket\<lparr>state := ESTABLISHED, sequence_number := 1,
      trace := [SetTimeout 0, Send (htonl 0 @ htonl 0 @ [RDT_ACK, 0, 0, 0])]\<rparr>"
  define s2 where "s2 = ReliableSocket\<lparr>state := ESTABLISHED, sequence_number := 2, estimated_rtt := 90,
        dev_rtt := 22, current_rtt := 30, rcvtimeo := 178,
        trace := [SetTimeout 0, Send (htonl 0 @ htonl 0 @ [RDT_ACK, 0, 0, 0]),
                  SetTimeout 140, Send (header 1 0 RDT_DATA @ [7]), SetTimeout 178]\<rparr>"
  have td: "hdr_type (recv_buf (header 0 0 RDT_DATA @ [5])) = RDT_DATA"
    by (rule hdr_type_recv_header)
  have sd: "hdr_sequence_number (recv_buf (header 0 0 RDT_DATA @ [5])) = htonl 0"
    by (rule hdr_seq_recv_header)
  have pd: "take (Suc 0) (drop 12 (recv_buf (header 0 0 RDT_DATA @ [5]))) = [5]"
    by (simp add: recv_buf_def segment_def size_defs header_def)
  have cd: "recv_ret (header 0 0 RDT_DATA @ [5]) = 13"
    by (simp add: recv_ret_def size_defs)
  have rcv: "receive_data [0, 0] s0 (Recv 0 (header 0 0 RDT_DATA @ [5]) # evs)
      = Done (1, [5, 0]) s1 evs" for evs
    unfolding s0_def s1_def
    by (simp add: receive_data_def td sd pd cd Let_def ntohl_htonl RDT_distinct ReliableSocket_def
        set_timeout_length_def emit_def size_defs)
  have ty: "hdr_type (recv_buf (header 0 1 RDT_ACK)) = RDT_ACK"
    using hdr_type_recv_header [of 0 1 RDT_ACK "[]"] by simp
  have ak: "ntohl (hdr_ack_number (recv_buf (header 0 1 RDT_ACK))) = sequence_number s1"
    using hdr_ack_recv_header [of 0 1 RDT_ACK "[]"]
    by (simp add: ntohl_htonl ReliableSocket_def s1_def)
  have "state s1 = ESTABLISHED" "(0 :: int) \<le> 1"
    by (simp_all add: s1_def)
  from send_data_acked_at_once [OF this ty ak, of "\<lambda>i. 7" 30 "[]"]
  have snd: "send_data (\<lambda>i. 7) 1 s1 [Recv 30 (header 0 1 RDT_ACK)] = Done () s2 []"
    unfolding s1_def s2_def
    by (simp add: set_estimated_rtt_def Let_def double_to_int_def set_timeout_length_def
        emit_def ReliableSocket_def)
  have "run_calls [Call_receive [0, 0], Call_send (\<lambda>i. 7) 1] s0
     [Recv 0 (header 0 0 RDT_DATA @ [5]), Recv 30 (header 0 1 RDT_ACK)] = Done () s2 []"
    by (simp add: rcv snd)
  moreover have "ntohl (hdr_sequence_number (header 1 0 RDT_DATA @ [7])) = 1"
    by (simp add: hdr_sequence_number_def header_def ntohl_htonl)
  ultimately show ?thesis
    unfolding s0_def s2_def by simp
qed

text \<open>The calls of a caller are sends or receives.\<close>

lemma length_calls:
  "length (filter (\<lambda>c. case c of Call_send d l \<Rightarrow> True | Call_receive b \<Rightarrow> False) cs)
     + length (filter (\<lambda>c. case c of Call_send d l \<Rightarrow> False | Call_receive b \<Rightarrow> True) cs)
   = length cs"
  by (induction cs) (simp_all split: call.splits)

text \<open>
  C4, amended. The constructor sets the sequence number to 0. send_data and receive_data
  share the one counter: it increments by exactly 1 (in \<^verbatim>\<open>uint32_t\<close> arithmetic) on each
  send_data call that returns, which it does only on an ACK whose ack number is the
  counter, and on each receive_data call that returns with the connection still
  ESTABLISHED, which it does only on a segment that carries the counter's value and whose
  tag is neither RDT_ACK nor RDT_CLOSE; an in-order DATA segment that fits the buffer is
  such a segment and is accepted. So after any sequence of calls that have all returned
  and left the connection ESTABLISHED the counter has grown by the number of send calls
  plus the number of receive calls, and a following send_data that returns has transmitted
  only DATA segments that carry this value: the \<open>N\<close>th acknowledged send carries \<open>N - 1\<close>
  plus the number of segments receive_data has accepted before it.
\<close>

theorem sequence_number_counts_calls:
  fixes cs :: "call list"
  defines "acknowledged \<equiv>
      length (filter (\<lambda>c. case c of Call_send d l \<Rightarrow> True | Call_receive b \<Rightarrow> False) cs)"
  defines "accepted \<equiv>
      length (filter (\<lambda>c. case c of Call_send d l \<Rightarrow> False | Call_receive b \<Rightarrow> True) cs)"
  assumes "state s = ESTABLISHED"
    and "run_calls cs s evs = Done () s1 evs1"
    and "state s1 = ESTABLISHED"
    and "send_data data length_arg s1 evs1 = Done () s2 evs2"
  shows "sequence_number ReliableSocket = 0
     \<and> sequence_number s1 = sequence_number s + of_nat acknowledged + of_nat accepted
     \<and> sequence_number s2 = sequence_number s1 + 1
     \<and> (\<exists>tr m. trace s2 = trace s1 @ tr
          \<and> sends tr = replicate (Suc m)
               (header (sequence_number s + of_nat acknowledged + of_nat accepted) 0 RDT_DATA
                  @ map data [0..<nat length_arg]))
     \<and> (\<forall>d l t es u t' es'.
          state t = ESTABLISHED \<and> send_data d l t es = Done u t' es'
          \<longrightarrow> sequence_number t' = sequence_number t + 1 \<and> state t' = ESTABLISHED
              \<and> (\<exists>pre dt bs. es = pre @ Recv dt bs # es'
                    \<and> hdr_type (recv_buf bs) = RDT_ACK
                    \<and> ntohl (hdr_ack_number (recv_buf bs)) = sequence_number t))
     \<and> (\<forall>b t es r t' es'.
          state t = ESTABLISHED \<and> receive_data b t es = Done r t' es' \<and> state t' = ESTABLISHED
          \<longrightarrow> sequence_number t' = sequence_number t + 1
              \<and> (\<exists>pre dt bs. es = pre @ Recv dt bs # es'
                    \<and> hdr_type (recv_buf bs) \<noteq> RDT_ACK \<and> hdr_type (recv_buf bs) \<noteq> RDT_CLOSE
                    \<and> ntohl (hdr_sequence_number (recv_buf bs)) = sequence_number t))
     \<and> (\<forall>b t dt bs es.
          state t = ESTABLISHED \<and> hdr_type (recv_buf bs) = RDT_DATA
            \<and> ntohl (hdr_sequence_number (recv_buf bs)) = sequence_number t
            \<and> 0 \<le> recv_ret bs - int sizeof_RDTHeader
            \<and> recv_ret bs - int sizeof_RDTHeader \<le> int (length b)
          \<longrightarrow> receive_data b t (Recv dt bs # es)
              = Done (recv_ret bs - int sizeof_RDTHeader,
                      take (nat (recv_ret bs - int sizeof_RDTHeader))
                          (drop sizeof_RDTHeader (recv_buf bs))
                        @ drop (nat (recv_ret bs - int sizeof_RDTHeader)) b)
                  (t\<lparr>rcvtimeo := 0, sequence_number := sequence_number t + 1,
                     trace := trace t @ [SetTimeout 0, Send (hdr_sequence_number (recv_buf bs)
                        @ hdr_sequence_number (recv_buf bs) @ [RDT_ACK, 0, 0, 0])]\<rparr>) es)"
proof -
  have "sequence_number s1 = sequence_number s + of_nat (length cs)"
    using assms(3,4,5) by (rule run_calls_counts)
  also have "length cs = acknowledged + accepted"
    unfolding acknowledged_def accepted_def by (rule length_calls [symmetric])
  finally have n: "sequence_number s1 = sequence_number s + of_nat acknowledged + of_nat accepted"
    by (simp add: add.assoc)
  from send_data_control [OF assms(5), where data = data and length_arg = length_arg and evs = evs1]
    assms(6)
  have n2: "sequence_number s2 = sequence_number s1 + 1"
    by (simp add: control_def)
  have tr: "\<exists>tr m. trace s2 = trace s1 @ tr
          \<and> sends tr = replicate (Suc m)
               (header (sequence_number s + of_nat acknowledged + of_nat accepted) 0 RDT_DATA
                  @ map data [0..<nat length_arg])"
    using send_data_sends [OF assms(5,6)] unfolding n .
  have snd: "sequence_number t' = sequence_number t + 1 \<and> state t' = ESTABLISHED
              \<and> (\<exists>pre dt bs. es = pre @ Recv dt bs # es'
                    \<and> hdr_type (recv_buf bs) = RDT_ACK
                    \<and> ntohl (hdr_ack_number (recv_buf bs)) = sequence_number t)"
    if "state t = ESTABLISHED" "send_data d l t es = Done u t' es'" for d l t es u t' es'
  proof -
    from send_data_control [OF that(1), where data = d and length_arg = l and evs = es] that(2)
    have "sequence_number t' = sequence_number t + 1 \<and> state t' = ESTABLISHED"
      by (simp add: control_def)
    with send_data_acknowledged [OF that] show ?thesis by blast
  qed
  have rcv: "sequence_number t' = sequence_number t + 1
              \<and> (\<exists>pre dt bs. es = pre @ Recv dt bs # es'
                    \<and> hdr_type (recv_buf bs) \<noteq> RDT_ACK \<and> hdr_type (recv_buf bs) \<noteq> RDT_CLOSE
                    \<and> ntohl (hdr_sequence_number (recv_buf bs)) = sequence_number t)"
    if "state t = ESTABLISHED" "receive_data b t es = Done r t' es'" "state t' = ESTABLISHED"
    for b t es r t' es'
    using that by (rule receive_data_accepted)
  have sq0: "sequence_number ReliableSocket = 0"
    by (simp add: ReliableSocket_def)
  show ?thesis
    apply (intro conjI allI impI)
    subgoal by (rule sq0)
    subgoal by (rule n)
    subgoal by (rule n2)
    subgoal by (rule tr)
    subgoal using snd by blast
    subgoal using snd by blast
    subgoal using snd by blast
    subgoal using rcv by blast
    subgoal using rcv by blast
    subgoal by (rule receive_data_in_order) simp_all
    done
qed

text \<open>
  C4 on a fresh ESTABLISHED connection that sends, receives the DATA segment number 1 and
  sends again: the second acknowledged send carries 2.
\<close>

theorem sequence_number_counts_calls_witness:
  "state (ReliableSocket\<lparr>state := ESTABLISHED\<rparr>) = ESTABLISHED
   \<and> run_calls [Call_send (\<lambda>i. 7) 1, Call_receive [0, 0]] (ReliableSocket\<lparr>state := ESTABLISHED\<rparr>)
        [Recv 30 (header 0 0 RDT_ACK), Recv 0 (header 1 0 RDT_DATA @ [5]),
         Recv 30 (header 0 2 RDT_ACK)]
      = Done () (ReliableSocket\<lparr>state := ESTABLISHED, sequence_number := 2, estimated_rtt := 90,
          dev_rtt := 22, current_rtt := 30, rcvtimeo := 0,
          trace := [SetTimeout 140, Send (header 0 0 RDT_DATA @ [7]), SetTimeout 178,
                    SetTimeout 0, Send (htonl 1 @ htonl 1 @ [RDT_ACK, 0, 0, 0])]\<rparr>)
          [Recv 30 (header 0 2 RDT_ACK)]
   \<and> send_data (\<lambda>i. 9) 1 (ReliableSocket\<lparr>state := ESTABLISHED, sequence_number := 2,
          estimated_rtt := 90, dev_rtt := 22, current_rtt := 30, rcvtimeo := 0,
          trace := [SetTimeout 140, Send (header 0 0 RDT_DATA @ [7]), SetTimeout 178,
                    SetTimeout 0, Send (htonl 1 @ htonl 1 @ [RDT_ACK, 0, 0, 0])]\<rparr>)
        [Recv 30 (header 0 2 RDT_ACK)]
      = Done () (ReliableSocket\<lparr>state := ESTABLISHED, sequence_number := 3, estimated_rtt := 81,
          dev_rtt := 28, current_rtt := 30, rcvtimeo := 193,
          trace := [SetTimeout 140, Send (header 0 0 RDT_DATA @ [7]), SetTimeout 178,
                    SetTimeout 0, Send (htonl 1 @ htonl 1 @ [RDT_ACK, 0, 0, 0]),
                    SetTimeout 178, Send (header 2 0 RDT_DATA @ [9]), SetTimeout 193]\<rparr>) []
   \<and> sends [SetTimeout 178, Send (header 2 0 RDT_DATA @ [9]), SetTimeout 193]
        = [header 2 0 RDT_DATA @ [9]]"
proof -
  define s0 where "s0 = ReliableSocket\<lparr>state := ESTABLISHED\<rparr>"
  define sa where "sa = ReliableSocket\<lparr>state := ESTABLISHED, sequence_number := 1,
          estimated_rtt := 90, dev_rtt := 22, current_rtt := 30, rcvtimeo := 178,
          trace := [SetTimeout 140, Send (header 0 0 RDT_DATA @ [7]), SetTimeout 178]\<rparr>"
  define s1 where "s1 = ReliableSocket\<lparr>state := ESTABLISHED, sequence_number := 2,
          estimated_rtt := 90, dev_rtt := 22, current_rtt := 30, rcvtimeo := 0,
          trace := [SetTimeout 140, Send (header 0 0 RDT_DATA @ [7]), SetTimeout 178,
                    SetTimeout 0, Send (htonl 1 @ htonl 1 @ [RDT_ACK, 0, 0, 0])]\<rparr>"
  define s2 where "s2 = ReliableSocket\<lparr>state := ESTABLISHED, sequence_number := 3,
          estimated_rtt := 81, dev_rtt := 28, current_rtt := 30, rcvtimeo := 193,
          trace := [SetTimeout 140, Send (header 0 0 RDT_DATA @ [7]), SetTimeout 178,
                    SetTimeout 0, Send (htonl 1 @ htonl 1 @ [RDT_ACK, 0, 0, 0]),
                    SetTimeout 178, Send (header 2 0 RDT_DATA @ [9]), SetTimeout 193]\<rparr>"
  have h1: "state s0 = ESTABLISHED" by (simp add: s0_def)
  have c1: "send_data (\<lambda>i. 7) 1 s0 (Recv 30 (header 0 0 RDT_ACK) # es) = Done () sa es" for es
    unfolding s0_def sa_def by (rule first_send)
  have td: "hdr_type (recv_buf (header 1 0 RDT_DATA @ [5])) = RDT_DATA"
    by (rule hdr_type_recv_header)
  have sd: "hdr_sequence_number (recv_buf (header 1 0 RDT_DATA @ [5])) = htonl 1"
    by (rule hdr_seq_recv_header)
  have pd: "take (Suc 0) (drop sizeof_RDTHeader (recv_buf (header 1 0 RDT_DATA @ [5]))) = [5]"
    by (simp add: recv_buf_def segment_def size_defs header_def)
  have cd: "recv_ret (header 1 0 RDT_DATA @ [5]) - int sizeof_RDTHeader = 1"
    by (simp add: recv_ret_def size_defs)
  have "state sa = ESTABLISHED"
    "ntohl (hdr_sequence_number (recv_buf (header 1 0 RDT_DATA @ [5]))) = sequence_number sa"
    "0 \<le> recv_ret (header 1 0 RDT_DATA @ [5]) - int sizeof_RDTHeader"
    "recv_ret (header 1 0 RDT_DATA @ [5]) - int sizeof_RDTHeader \<le> int (length [0 :: byte, 0])"
    by (simp_all add: sa_def sd ntohl_htonl cd)
  from receive_data_in_order [OF this(1) td this(2,3,4)]
  have c2: "receive_data [0, 0] sa (Recv 0 (header 1 0 RDT_DATA @ [5]) # es)
      = Done (1, [5, 0]) s1 es" for es
    unfolding cd sd by (simp add: pd sa_def s1_def)
  have h2: "run_calls [Call_send (\<lambda>i. 7) 1, Call_receive [0, 0]] s0
        [Recv 30 (header 0 0 RDT_ACK), Recv 0 (header 1 0 RDT_DATA @ [5]),
         Recv 30 (header 0 2 RDT_ACK)]
      = Done () s1 [Recv 30 (header 0 2 RDT_ACK)]"
    by (simp add: c1 c2)
  have h3: "state s1 = ESTABLISHED" by (simp add: s1_def)
  have ty: "hdr_type (recv_buf (header 0 2 RDT_ACK)) = RDT_ACK"
    using hdr_type_recv_header [of 0 2 RDT_ACK "[]"] by simp
  have ak: "ntohl (hdr_ack_number (recv_buf (header 0 2 RDT_ACK))) = sequence_number s1"
    using hdr_ack_recv_header [of 0 2 RDT_ACK "[]"]
    by (simp add: ntohl_htonl s1_def)
  have "(0 :: int) \<le> 1" by simp
  from send_data_acked_at_once [OF h3 this ty ak, of "\<lambda>i. 9" 30 "[]"]
  have h4: "send_data (\<lambda>i. 9) 1 s1 [Recv 30 (header 0 2 RDT_ACK)] = Done () s2 []"
    unfolding s1_def s2_def
    by (simp add: set_estimated_rtt_def Let_def double_to_int_def set_timeout_length_def
        emit_def ReliableSocket_def)
  from sequence_number_counts_calls [OF h1 h2 h3 h4, THEN conjunct2, THEN conjunct2,
      THEN conjunct1]
  have "sequence_number s2 = sequence_number s1 + 1" .
  with h1 h2 h4 show ?thesis
    unfolding s0_def s1_def s2_def by simp
qed

section \<open>Recovery from expiries and discarded replies\<close>

text \<open>Deadline expiries inside send_seg_reliable do not show in the member variables.\<close>

lemma no_timeouts_idem [simp]: "no_timeouts (no_timeouts evs) = no_timeouts evs"
  by (induction evs rule: no_timeouts.induct) simp_all

lemma send_seg_loop_expiries:
  "fields a = fields b \<Longrightarrow>
     same_ending (send_seg_loop seg n lt cur a evs) (send_seg_loop seg n lt' cur' b (no_timeouts evs))"
proof (induction evs arbitrary: a lt cur)
  case Nil
  then show ?case by simp
next
  case (Cons ev evs)
  show ?case
  proof (cases ev)
    case (Recv dt bs)
    with Cons.prems show ?thesis
      by (auto simp: Let_def intro: fields_current_rtt)
  next
    case Timeout
    let ?c = "if lt then 2 * cur else ((estimated_rtt a + 4 * dev_rtt a) * 2) :: u32"
    let ?a2 = "set_timeout_length (emit (Diag ''TIMEOUT. DOUBLING THE LENGTH OF TIMEOUT'')
      ((emit (Send (take n seg)) a)\<lparr>errno := EAGAIN\<rparr>)) ?c"
    have eq: "send_seg_loop seg n lt cur a (ev # evs) = send_seg_loop seg n True ?c ?a2 evs"
      using Timeout by (cases lt) (simp_all add: Let_def)
    have "fields ?a2 = fields b"
      using Cons.prems by simp
    from Cons.IH [OF this, of True ?c] show ?thesis
      unfolding eq using Timeout by simp
  next
    case Error
    with Cons.prems show ?thesis
      by (simp add: Let_def)
  qed
qed

lemma send_seg_reliable_expiries:
  assumes "fields a = fields b"
  shows "same_ending (send_seg_reliable seg n a evs) (send_seg_reliable seg n b (no_timeouts evs))"
proof -
  let ?a0 = "set_timeout_length a ((estimated_rtt a + 4 * dev_rtt a))"
  let ?b0 = "set_timeout_length b ((estimated_rtt b + 4 * dev_rtt b))"
  have "fields ?a0 = fields ?b0"
    using assms by simp
  then have "same_ending (send_seg_loop seg n False 0 ?a0 evs)
      (send_seg_loop seg n False 0 ?b0 (no_timeouts evs))"
    by (rule send_seg_loop_expiries)
  then show ?thesis
    by (cases "send_seg_loop seg n False 0 ?a0 evs";
        cases "send_seg_loop seg n False 0 ?b0 (no_timeouts evs)")
      (auto simp: send_seg_reliable_def Let_def intro: fields_set_estimated_rtt)
qed

lemma fields_sequence_number: "fields a = fields b \<Longrightarrow> sequence_number a = sequence_number b"
  by (simp add: fields_def)

lemma send_data_loop_expiries:
  "fields a = fields b \<Longrightarrow>
     same_ending (send_data_loop seg n a evs) (send_data_loop seg n b (no_timeouts evs))"
proof (induction seg n a evs arbitrary: b rule: send_data_loop.induct)
  case (1 seg n a evs)
  let ?ra = "send_seg_reliable seg (sizeof_RDTHeader + n) a evs"
  let ?rb = "send_seg_reliable seg (sizeof_RDTHeader + n) b (no_timeouts evs)"
  have sim: "same_ending ?ra ?rb"
    using "1.prems" by (rule send_seg_reliable_expiries)
  show ?case
  proof (cases ?ra)
    case (Done r a1 evs1)
    with sim obtain b1 where rb: "?rb = Done r b1 (no_timeouts evs1)" and f: "fields a1 = fields b1"
      by (cases ?rb) simp_all
    show ?thesis
    proof (cases "hdr_type r = RDT_ACK \<and> sequence_number a1 = ntohl (hdr_ack_number r)")
      case True
      then have "send_data_loop seg n a evs = Done () a1 evs1"
        using Done by (intro send_data_loop_done) simp_all
      moreover have "send_data_loop seg n b (no_timeouts evs) = Done () b1 (no_timeouts evs1)"
        using rb True fields_sequence_number [OF f] by (intro send_data_loop_done) simp_all
      ultimately show ?thesis using f by simp
    next
      case False
      then have "send_data_loop seg n a evs = send_data_loop seg n a1 evs1"
        using Done by (intro send_data_loop_retry) auto
      moreover have "send_data_loop seg n b (no_timeouts evs)
          = send_data_loop seg n b1 (no_timeouts evs1)"
        using rb False fields_sequence_number [OF f] by (intro send_data_loop_retry) auto
      moreover have "same_ending (send_data_loop seg n a1 evs1)
          (send_data_loop seg n b1 (no_timeouts evs1))"
        using False Done f "1.IH" by auto
      ultimately show ?thesis by simp
    qed
  next
    case (Exit a1)
    with sim obtain b1 where rb: "?rb = Exit b1" and f: "fields a1 = fields b1"
      by (cases ?rb) simp_all
    show ?thesis
      using Exit rb f
      by (subst send_data_loop.simps, subst (2) send_data_loop.simps) simp
  next
    case (Fault g a1)
    with sim obtain b1 where rb: "?rb = Fault g b1" and f: "fields a1 = fields b1"
      by (cases ?rb) simp_all
    show ?thesis
      using Fault rb f
      by (subst send_data_loop.simps, subst (2) send_data_loop.simps) simp
  next
    case (Blocked a1)
    with sim obtain b1 where rb: "?rb = Blocked b1" and f: "fields a1 = fields b1"
      by (cases ?rb) simp_all
    show ?thesis
      using Blocked rb f
      by (subst send_data_loop.simps, subst (2) send_data_loop.simps) simp
  qed
qed

lemma send_data_expiries:
  "same_ending (send_data data length_arg s evs) (send_data data length_arg s (no_timeouts evs))"
proof (cases "state s \<noteq> ESTABLISHED")
  case True
  then show ?thesis by (simp add: send_data_def)
next
  case est: False
  show ?thesis
  proof (cases "length_arg < 0")
    case True
    with est show ?thesis by (simp add: send_data_def)
  next
    case False
    let ?seg = "data_segment (sequence_number s) data (nat length_arg)"
    have "same_ending (send_data_loop ?seg (nat length_arg) s evs)
        (send_data_loop ?seg (nat length_arg) s (no_timeouts evs))"
      by (rule send_data_loop_expiries) simp
    then show ?thesis
      using est False
      by (cases "send_data_loop ?seg (nat length_arg) s evs";
          cases "send_data_loop ?seg (nat length_arg) s (no_timeouts evs)")
        (simp_all add: send_data_def fields_def)
  qed
qed

text \<open>
  receive_data does not read the process state beside the member variables: two runs from
  states with the same member variables end the same way.
\<close>

lemma send_timeout_same:
  "fields a = fields b \<Longrightarrow> same_result (send_timeout seg a evs) (send_timeout seg b evs)"
proof (induction evs arbitrary: a b)
  case Nil
  then show ?case by (simp add: Let_def)
next
  case (Cons ev evs)
  show ?case
  proof (cases ev)
    case (Recv dt bs)
    let ?a2 = "set_timeout_length (emit (Send (take sizeof_RDTHeader seg)) a)
        (estimated_rtt (emit (Send (take sizeof_RDTHeader seg)) a)
          + 4 * dev_rtt (emit (Send (take sizeof_RDTHeader seg)) a))"
    let ?b2 = "set_timeout_length (emit (Send (take sizeof_RDTHeader seg)) b)
        (estimated_rtt (emit (Send (take sizeof_RDTHeader seg)) b)
          + 4 * dev_rtt (emit (Send (take sizeof_RDTHeader seg)) b))"
    have "fields ?a2 = fields ?b2"
      using Cons.prems by simp
    from Cons.IH [OF this] show ?thesis
      using Recv by (simp add: Let_def)
  next
    case Timeout
    with Cons.prems show ?thesis by (simp add: Let_def)
  next
    case Error
    with Cons.prems show ?thesis by (simp add: Let_def)
  qed
qed

lemma fields_state:
  "fields a = fields b \<Longrightarrow> fields (a\<lparr>state := st\<rparr>) = fields (b\<lparr>state := st\<rparr>)"
  by (simp add: fields_def)

lemma fields_next:
  "fields a = fields b \<Longrightarrow> fields (a\<lparr>sequence_number := sequence_number a + 1\<rparr>)
     = fields (b\<lparr>sequence_number := sequence_number b + 1\<rparr>)"
  by (simp add: fields_def)

lemma receive_loop_same:
  "fields a = fields b \<Longrightarrow> same_result (receive_loop buffer a evs) (receive_loop buffer b evs)"
proof (induction evs arbitrary: a b)
  case Nil
  then show ?case by simp
next
  case (Cons ev evs)
  show ?case
  proof (cases ev)
    case Timeout
    with Cons.prems show ?thesis by simp
  next
    case Error
    with Cons.prems show ?thesis by simp
  next
    case (Recv dt bs)
    show ?thesis
    proof (cases "hdr_type (recv_buf bs) = RDT_ACK")
      case True
      with Recv Cons.IH [OF Cons.prems] show ?thesis
        by (simp add: Let_def)
    next
      case notack: False
      show ?thesis
      proof (cases "hdr_type (recv_buf bs) = RDT_CLOSE")
        case True
        have sim: "same_result (send_timeout (header 0 0 RDT_ACK) a evs)
            (send_timeout (header 0 0 RDT_ACK) b evs)"
          using Cons.prems by (rule send_timeout_same)
        have eq: "receive_loop buffer c (ev # evs)
            = (case send_timeout (header 0 0 RDT_ACK) c evs of
                 Done u s1 evs1 \<Rightarrow> Done (0, buffer) (s1\<lparr>state := FIN\<rparr>) evs1
               | Exit s1 \<Rightarrow> Exit s1
               | Fault f s1 \<Rightarrow> Fault f s1
               | Blocked s1 \<Rightarrow> Blocked s1)" for c
          using Recv notack True by (simp add: Let_def)
        show ?thesis
          unfolding eq using sim
          by (cases "send_timeout (header 0 0 RDT_ACK) a evs";
              cases "send_timeout (header 0 0 RDT_ACK) b evs")
            (auto intro: fields_state)
      next
        case notclose: False
        let ?sn = "hdr_sequence_number (recv_buf bs)"
        let ?a1 = "emit (Send (?sn @ ?sn @ [RDT_ACK, 0, 0, 0])) a"
        let ?b1 = "emit (Send (?sn @ ?sn @ [RDT_ACK, 0, 0, 0])) b"
        have f1: "fields ?a1 = fields ?b1"
          using Cons.prems by simp
        have sq: "sequence_number b = sequence_number a"
          using Cons.prems by (simp add: fields_def)
        show ?thesis
        proof (cases "ntohl ?sn = sequence_number a")
          case True
          have fn: "fields (?a1\<lparr>sequence_number := sequence_number ?a1 + 1\<rparr>)
              = fields (?b1\<lparr>sequence_number := sequence_number ?b1 + 1\<rparr>)"
            using f1 by (rule fields_next)
          show ?thesis
            using Recv notack notclose True sq fn
            by (simp add: Let_def)
        next
          case False
          have "receive_loop buffer a (ev # evs) = receive_loop buffer ?a1 evs"
            using Recv notack notclose False by (simp add: Let_def)
          moreover have "receive_loop buffer b (ev # evs) = receive_loop buffer ?b1 evs"
            using Recv notack notclose False sq by (simp add: Let_def)
          ultimately show ?thesis
            using Cons.IH [OF f1] by simp
        qed
      qed
    qed
  qed
qed

text \<open>
  The datagrams receive_data recovers from: an ACK, which it ignores, and a segment of any
  other tag but RDT_CLOSE whose sequence number is not the connection's, which it
  acknowledges and drops.
\<close>

lemma receive_loop_strays:
  assumes "fields a = fields b"
    and "list_all (\<lambda>(dt, bs). hdr_type (recv_buf bs) = RDT_ACK
            \<or> hdr_type (recv_buf bs) \<noteq> RDT_CLOSE
              \<and> ntohl (hdr_sequence_number (recv_buf bs)) \<noteq> sequence_number b) strays"
  shows "same_result (receive_loop buffer a (map (\<lambda>(dt, bs). Recv dt bs) strays @ evs))
           (receive_loop buffer b evs)"
  using assms
proof (induction strays arbitrary: a)
  case Nil
  then show ?case by (simp add: receive_loop_same)
next
  case (Cons x strays)
  obtain dt bs where x: "x = (dt, bs)" by (cases x)
  from Cons.prems(2) x have
    h: "hdr_type (recv_buf bs) = RDT_ACK
        \<or> hdr_type (recv_buf bs) \<noteq> RDT_CLOSE
          \<and> ntohl (hdr_sequence_number (recv_buf bs)) \<noteq> sequence_number b"
    and rest: "list_all (\<lambda>(dt, bs). hdr_type (recv_buf bs) = RDT_ACK
            \<or> hdr_type (recv_buf bs) \<noteq> RDT_CLOSE
              \<and> ntohl (hdr_sequence_number (recv_buf bs)) \<noteq> sequence_number b) strays"
    by simp_all
  have sq: "sequence_number a = sequence_number b"
    using Cons.prems(1) by (simp add: fields_def)
  let ?sn = "hdr_sequence_number (recv_buf bs)"
  let ?a1 = "emit (Send (?sn @ ?sn @ [RDT_ACK, 0, 0, 0])) a"
  show ?case
  proof (cases "hdr_type (recv_buf bs) = RDT_ACK")
    case True
    then have "receive_loop buffer a (map (\<lambda>(dt, bs). Recv dt bs) (x # strays) @ evs)
        = receive_loop buffer a (map (\<lambda>(dt, bs). Recv dt bs) strays @ evs)"
      using x by (simp add: Let_def)
    with Cons.IH [OF Cons.prems(1) rest] show ?thesis by simp
  next
    case False
    with h have "hdr_type (recv_buf bs) \<noteq> RDT_CLOSE"
      "ntohl (hdr_sequence_number (recv_buf bs)) \<noteq> sequence_number a"
      using sq by simp_all
    with False have "receive_loop buffer a (map (\<lambda>(dt, bs). Recv dt bs) (x # strays) @ evs)
        = receive_loop buffer ?a1 (map (\<lambda>(dt, bs). Recv dt bs) strays @ evs)"
      using x by (simp add: Let_def)
    moreover have "fields ?a1 = fields b"
      using Cons.prems(1) by simp
    ultimately show ?thesis
      using Cons.IH [OF _ rest, of ?a1] by simp
  qed
qed

lemma receive_data_strays:
  assumes "state s = ESTABLISHED"
    and "list_all (\<lambda>(dt, bs). hdr_type (recv_buf bs) = RDT_ACK
            \<or> hdr_type (recv_buf bs) \<noteq> RDT_CLOSE
              \<and> ntohl (hdr_sequence_number (recv_buf bs)) \<noteq> sequence_number s) strays"
  shows "same_result (receive_data buffer s (map (\<lambda>(dt, bs). Recv dt bs) strays @ evs))
           (receive_data buffer s evs)"
proof -
  let ?s0 = "set_timeout_length s 0"
  have "list_all (\<lambda>(dt, bs). hdr_type (recv_buf bs) = RDT_ACK
            \<or> hdr_type (recv_buf bs) \<noteq> RDT_CLOSE
              \<and> ntohl (hdr_sequence_number (recv_buf bs)) \<noteq> sequence_number ?s0) strays"
    using assms(2) by simp
  from receive_loop_strays [OF refl this, of buffer evs] show ?thesis
    using assms(1) by (simp add: receive_data_def)
qed

text \<open>The control fields through the remaining loops.\<close>

lemma accept_loop_control:
  "control (outcome_state (accept_loop seg s evs)) = control s"
proof (induction seg s evs rule: accept_loop.induct)
  case (1 seg s evs)
  let ?s1 = "set_timeout_length s ((estimated_rtt s + 4 * dev_rtt s))"
  let ?r = "send_seg_reliable seg sizeof_RDTHeader ?s1 evs"
  have c: "control (outcome_state ?r) = control s"
    by (simp add: send_seg_reliable_control)
  show ?case
  proof (cases ?r)
    case (Done r s2 evs2)
    with c have c2: "control s2 = control s" by simp
    show ?thesis
    proof (cases "hdr_type r = RDT_ACK \<or> hdr_type r = RDT_DATA")
      case True
      with Done c2 show ?thesis
        by (subst accept_loop.simps) (auto simp: Let_def)
    next
      case False
      then have "accept_loop seg s evs = accept_loop seg s2 evs2"
        using Done by (subst accept_loop.simps) (auto simp: Let_def)
      moreover have "control (outcome_state (accept_loop seg s2 evs2)) = control s2"
        using False Done "1.IH" by auto
      ultimately show ?thesis using c2 by simp
    qed
  next
    case (Exit s2)
    with c show ?thesis by (subst accept_loop.simps) (simp add: Let_def)
  next
    case (Fault f s2)
    with c show ?thesis by (subst accept_loop.simps) (simp add: Let_def)
  next
    case (Blocked s2)
    with c show ?thesis by (subst accept_loop.simps) (simp add: Let_def)
  qed
qed

lemma accept_connection_control:
  assumes "state s = INIT"
  shows "case accept_connection s evs of
     Done u s' evs' \<Rightarrow> control s' = (sequence_number s, expected_sequence_number s, ESTABLISHED)
   | Exit s' \<Rightarrow> control s' = control s
   | Fault f s' \<Rightarrow> control s' = control s
   | Blocked s' \<Rightarrow> control s' = control s"
proof (cases evs)
  case Nil
  with assms show ?thesis by (simp add: accept_connection_def)
next
  case (Cons ev evs1)
  show ?thesis
  proof (cases ev)
    case (Recv dt bs)
    have c: "control (outcome_state (accept_loop (segment (header 0 0 RDT_SYNACK)) s evs1)) = control s"
      by (rule accept_loop_control)
    show ?thesis
      using assms Cons Recv c
      by (cases "accept_loop (segment (header 0 0 RDT_SYNACK)) s evs1")
        (simp_all add: accept_connection_def control_def)
  next
    case Timeout
    with assms Cons show ?thesis by (simp add: accept_connection_def)
  next
    case Error
    with assms Cons show ?thesis by (simp add: accept_connection_def)
  qed
qed

lemma connect_to_remote_control:
  assumes "state s = INIT"
  shows "case connect_to_remote s evs of
     Done u s' evs' \<Rightarrow> control s' = (sequence_number s, expected_sequence_number s, ESTABLISHED)
   | Exit s' \<Rightarrow> control s' = control s
   | Fault f s' \<Rightarrow> control s' = control s
   | Blocked s' \<Rightarrow> control s' = control s"
proof -
  let ?s1 = "set_timeout_length s ((estimated_rtt s + 4 * dev_rtt s))"
  let ?r = "send_seg_reliable (segment (header 0 0 RDT_SYN)) sizeof_RDTHeader ?s1 evs"
  have c: "control (outcome_state ?r) = control s"
    by (simp add: send_seg_reliable_control)
  show ?thesis
  proof (cases ?r)
    case (Done r s2 evs2)
    let ?s3 = "if hdr_type r \<noteq> RDT_SYNACK then emit (Diag ''Not a SYNACK'') s2 else s2"
    from Done c have c3: "control ?s3 = control s" by simp
    have c4: "control (outcome_state (send_timeout (segment (header 0 0 RDT_ACK)) ?s3 evs2)) = control s"
      using c3 by (simp add: send_timeout_control)
    show ?thesis
      using assms Done c4
      by (cases "send_timeout (segment (header 0 0 RDT_ACK)) ?s3 evs2")
        (simp_all add: connect_to_remote_def Let_def control_def)
  next
    case (Exit s2)
    with assms c show ?thesis by (simp add: connect_to_remote_def Let_def)
  next
    case (Fault f s2)
    with assms c show ?thesis by (simp add: connect_to_remote_def Let_def)
  next
    case (Blocked s2)
    with assms c show ?thesis by (simp add: connect_to_remote_def Let_def)
  qed
qed

lemma send_close_request_control:
  "control (outcome_state (send_close_request seg s evs)) = control s"
proof (induction seg s evs rule: send_close_request.induct)
  case (1 seg s evs)
  let ?r = "send_seg_reliable seg sizeof_RDTHeader s evs"
  have c: "control (outcome_state ?r) = control s"
    by (rule send_seg_reliable_control)
  show ?case
  proof (cases ?r)
    case (Done r s1 evs1)
    with c have c1: "control s1 = control s" by simp
    show ?thesis
    proof (cases "hdr_type r = RDT_ACK \<or> hdr_type r = RDT_CLOSE")
      case True
      with Done c1 show ?thesis
        by (subst send_close_request.simps) auto
    next
      case False
      then have "send_close_request seg s evs = send_close_request seg s1 evs1"
        using Done by (subst send_close_request.simps) auto
      moreover have "control (outcome_state (send_close_request seg s1 evs1)) = control s1"
        using False Done "1.IH" by auto
      ultimately show ?thesis using c1 by simp
    qed
  next
    case (Exit s1)
    with c show ?thesis by (subst send_close_request.simps) simp
  next
    case (Fault f s1)
    with c show ?thesis by (subst send_close_request.simps) simp
  next
    case (Blocked s1)
    with c show ?thesis by (subst send_close_request.simps) simp
  qed
qed

lemma send_close_await_control:
  "control (outcome_state (send_close_await s evs)) = control s"
  by (induction s evs rule: send_close_await.induct) simp_all

lemma send_close_wait_control:
  "control (outcome_state (send_close_wait seg s evs)) = control s"
proof (induction evs arbitrary: s)
  case Nil
  show ?case by simp
next
  case (Cons ev evs)
  show ?case by (cases ev) (simp_all add: Let_def Cons.IH)
qed

lemma send_close_control:
  "control (outcome_state (send_close s evs)) = control s"
proof -
  let ?r1 = "send_close_request (segment (header 0 0 RDT_CLOSE)) s evs"
  have c1: "control (outcome_state ?r1) = control s"
    by (rule send_close_request_control)
  show ?thesis
  proof (cases ?r1)
    case (Done u s1 evs1)
    with c1 have c: "control s1 = control s" by simp
    have c2: "control (outcome_state (send_close_await s1 evs1)) = control s"
      using c by (simp add: send_close_await_control)
    show ?thesis
    proof (cases "send_close_await s1 evs1")
      case d2: (Done u2 s2 evs2)
      with c2 have "control s2 = control s" by simp
      then show ?thesis
        using Done d2 by (simp add: send_close_def send_close_wait_control)
    next
      case (Exit s2)
      with Done c2 show ?thesis by (simp add: send_close_def)
    next
      case (Fault f s2)
      with Done c2 show ?thesis by (simp add: send_close_def)
    next
      case (Blocked s2)
      with Done c2 show ?thesis by (simp add: send_close_def)
    qed
  next
    case (Exit s1)
    with c1 show ?thesis by (simp add: send_close_def)
  next
    case (Fault f s1)
    with c1 show ?thesis by (simp add: send_close_def)
  next
    case (Blocked s1)
    with c1 show ?thesis by (simp add: send_close_def)
  qed
qed

lemma recv_close_loop_control:
  "control (outcome_state (recv_close_loop seg s evs)) = control s"
proof (induction seg s evs rule: recv_close_loop.induct)
  case (1 seg s evs)
  let ?r = "send_seg_reliable seg sizeof_RDTHeader s evs"
  have c: "control (outcome_state ?r) = control s"
    by (rule send_seg_reliable_control)
  show ?case
  proof (cases ?r)
    case (Done r s1 evs1)
    with c have c1: "control s1 = control s" by simp
    show ?thesis
    proof (cases "hdr_type r = RDT_ACK")
      case True
      with Done c1 show ?thesis
        by (subst recv_close_loop.simps) auto
    next
      case False
      then have "recv_close_loop seg s evs = recv_close_loop seg s1 evs1"
        using Done by (subst recv_close_loop.simps) auto
      moreover have "control (outcome_state (recv_close_loop seg s1 evs1)) = control s1"
        using False Done "1.IH" by auto
      ultimately show ?thesis using c1 by simp
    qed
  next
    case (Exit s1)
    with c show ?thesis by (subst recv_close_loop.simps) simp
  next
    case (Fault f s1)
    with c show ?thesis by (subst recv_close_loop.simps) simp
  next
    case (Blocked s1)
    with c show ?thesis by (subst recv_close_loop.simps) simp
  qed
qed

lemma recv_close_control:
  "control (outcome_state (recv_close s evs)) = control s"
  by (simp add: recv_close_def recv_close_loop_control)

lemma close_connection_control:
  "case close_connection s evs of
     Done u s' evs' \<Rightarrow> control s' = (sequence_number s, expected_sequence_number s, CLOSED)
   | Exit s' \<Rightarrow> control s' = control s
   | Fault f s' \<Rightarrow> control s' = control s
   | Blocked s' \<Rightarrow> control s' = control s"
proof -
  let ?r = "if state s \<noteq> FIN then send_close s evs else recv_close s evs"
  have c: "control (outcome_state ?r) = control s"
    by (simp add: send_close_control recv_close_control)
  show ?thesis
    using c by (cases ?r) (simp_all add: close_connection_def control_def)
qed

lemma two_samples:
  "send_data (\<lambda>i. 7) 1 (ReliableSocket\<lparr>state := ESTABLISHED\<rparr>)
       [Recv 30 (header 0 7 RDT_ACK), Recv 30 (header 0 0 RDT_ACK)]
     = Done () (ReliableSocket\<lparr>state := ESTABLISHED, sequence_number := 1, estimated_rtt := 81,
          dev_rtt := 28, current_rtt := 30, rcvtimeo := 193,
          trace := [SetTimeout 140, Send (header 0 0 RDT_DATA @ [7]), SetTimeout 178,
                    SetTimeout 178, Send (header 0 0 RDT_DATA @ [7]), SetTimeout 193]\<rparr>) []"
proof -
  define s0 where "s0 = ReliableSocket\<lparr>state := ESTABLISHED\<rparr>"
  define s1 where "s1 = ReliableSocket\<lparr>state := ESTABLISHED, estimated_rtt := 90,
          dev_rtt := 22, current_rtt := 30, rcvtimeo := 178,
          trace := [SetTimeout 140, Send (header 0 0 RDT_DATA @ [7]), SetTimeout 178]\<rparr>"
  define s2 where "s2 = ReliableSocket\<lparr>state := ESTABLISHED, estimated_rtt := 81,
          dev_rtt := 28, current_rtt := 30, rcvtimeo := 193,
          trace := [SetTimeout 140, Send (header 0 0 RDT_DATA @ [7]), SetTimeout 178,
                    SetTimeout 178, Send (header 0 0 RDT_DATA @ [7]), SetTimeout 193]\<rparr>"
  define seg where "seg = data_segment 0 (\<lambda>i. 7) 1"
  have tk: "take (sizeof_RDTHeader + 1) seg = header 0 0 RDT_DATA @ [7]"
    unfolding seg_def using data_segment_layout(5) [where sq = 0 and data = "\<lambda>i. 7" and n = 1]
    by (simp add: size_defs)
  have ty: "hdr_type (recv_buf (header 0 7 RDT_ACK)) = RDT_ACK"
    "hdr_type (recv_buf (header 0 0 RDT_ACK)) = RDT_ACK"
    using hdr_type_recv_header [of 0 7 RDT_ACK "[]"] hdr_type_recv_header [of 0 0 RDT_ACK "[]"]
    by simp_all
  have ak: "ntohl (hdr_ack_number (recv_buf (header 0 7 RDT_ACK))) = 7"
    "ntohl (hdr_ack_number (recv_buf (header 0 0 RDT_ACK))) = 0"
    using hdr_ack_recv_header [of 0 7 RDT_ACK "[]"] hdr_ack_recv_header [of 0 0 RDT_ACK "[]"]
    by (simp_all add: ntohl_htonl)
  have r1: "send_seg_reliable seg (sizeof_RDTHeader + 1) s0
      [Recv 30 (header 0 7 RDT_ACK), Recv 30 (header 0 0 RDT_ACK)]
      = Done (recv_buf (header 0 7 RDT_ACK)) s1 [Recv 30 (header 0 0 RDT_ACK)]"
    unfolding send_seg_reliable_reply tk s0_def s1_def
    by (simp add: set_estimated_rtt_def Let_def double_to_int_def set_timeout_length_def
        emit_def ReliableSocket_def)
  have r2: "send_seg_reliable seg (sizeof_RDTHeader + 1) s1 [Recv 30 (header 0 0 RDT_ACK)]
      = Done (recv_buf (header 0 0 RDT_ACK)) s2 []"
    unfolding send_seg_reliable_reply tk s1_def s2_def
    by (simp add: set_estimated_rtt_def Let_def double_to_int_def set_timeout_length_def
        emit_def ReliableSocket_def)
  have q1: "sequence_number s1 = 0" and q2: "sequence_number s2 = 0"
    by (simp_all add: s1_def s2_def ReliableSocket_def)
  have "send_data_loop seg 1 s0 [Recv 30 (header 0 7 RDT_ACK), Recv 30 (header 0 0 RDT_ACK)]
      = send_data_loop seg 1 s1 [Recv 30 (header 0 0 RDT_ACK)]"
    using r1 by (rule send_data_loop_retry) (simp add: q1 ak)
  also have "\<dots> = Done () s2 []"
    using r2 ty(2) by (rule send_data_loop_done) (simp add: q2 ak)
  finally have loop: "send_data_loop seg 1 s0
      [Recv 30 (header 0 7 RDT_ACK), Recv 30 (header 0 0 RDT_ACK)] = Done () s2 []" .
  have st: "state s0 = ESTABLISHED" "sequence_number s0 = 0"
    by (simp_all add: s0_def ReliableSocket_def)
  have "send_data (\<lambda>i. 7) 1 s0 [Recv 30 (header 0 7 RDT_ACK), Recv 30 (header 0 0 RDT_ACK)]
      = Done () (s2\<lparr>sequence_number := sequence_number s2 + 1\<rparr>) []"
    using loop by (simp add: send_data_def st size_defs seg_def)
  then show ?thesis
    unfolding s0_def s2_def by (simp add: ReliableSocket_def)
qed

text \<open>
  C9, as stated, on a fresh ESTABLISHED connection that sends one byte. In the first run the
  matching ACK arrives at once. In the second an ACK with the ack number 7 arrives first
  and is discarded, then the matching ACK arrives: send_seg_reliable has taken a sample for
  the discarded reply too, and estimated_rtt and dev_rtt end as 81 and 28 instead of 90
  and 22.
\<close>

theorem discarded_reply_changes_rtt:
  "send_data (\<lambda>i. 7) 1 (ReliableSocket\<lparr>state := ESTABLISHED\<rparr>) [Recv 30 (header 0 0 RDT_ACK)]
     = Done () (ReliableSocket\<lparr>state := ESTABLISHED, sequence_number := 1, estimated_rtt := 90,
          dev_rtt := 22, current_rtt := 30, rcvtimeo := 178,
          trace := [SetTimeout 140, Send (header 0 0 RDT_DATA @ [7]), SetTimeout 178]\<rparr>) []
   \<and> send_data (\<lambda>i. 7) 1 (ReliableSocket\<lparr>state := ESTABLISHED\<rparr>)
       [Recv 30 (header 0 7 RDT_ACK), Recv 30 (header 0 0 RDT_ACK)]
     = Done () (ReliableSocket\<lparr>state := ESTABLISHED, sequence_number := 1, estimated_rtt := 81,
          dev_rtt := 28, current_rtt := 30, rcvtimeo := 193,
          trace := [SetTimeout 140, Send (header 0 0 RDT_DATA @ [7]), SetTimeout 178,
                    SetTimeout 178, Send (header 0 0 RDT_DATA @ [7]), SetTimeout 193]\<rparr>) []
   \<and> fields (outcome_state (send_data (\<lambda>i. 7) 1 (ReliableSocket\<lparr>state := ESTABLISHED\<rparr>)
         [Recv 30 (header 0 7 RDT_ACK), Recv 30 (header 0 0 RDT_ACK)]))
     \<noteq> fields (outcome_state (send_data (\<lambda>i. 7) 1 (ReliableSocket\<lparr>state := ESTABLISHED\<rparr>)
         [Recv 30 (header 0 0 RDT_ACK)]))"
  by (simp add: first_send two_samples fields_def)

text \<open>
  C9, amended. Where an operation recovers, it leaves the member variables as the exchange
  without the error leaves them, in these cases. Deadline expiries in send_seg_reliable
  and in send_data: the call ends the same way, with the same member variables (state,
  sequence number and RTT statistics), as on the events without the expiries. In
  receive_data, ACKs, and segments of any tag but RDT_CLOSE whose sequence number is not
  the expected one: the call ends the same way, with the same count, the same buffer and
  the same member variables, as if they had not arrived. And no recovery touches the
  state, the sequence number or the expected sequence number: however a call of
  send_seg_reliable, send_data, accept_connection, connect_to_remote or close_connection
  ends on whatever events, these three are what they were at its start, but for a call
  that returns, where they are what the call yields without any error (send_data: the
  sequence number plus 1; accept and connect: ESTABLISHED; close: CLOSED). The RTT
  statistics after a discarded reply are not covered: a reply that send_data, accept,
  connect or close discards is a sample of the estimator like any other. Nor is a segment
  of a tag other than RDT_ACK and RDT_CLOSE that carries the expected sequence number:
  receive_data does not recover from it but accepts it as DATA.
\<close>

theorem recovery_keeps_control:
  "control (outcome_state (send_seg_reliable seg n s evs)) = control s
   \<and> same_ending (send_seg_reliable seg n s evs) (send_seg_reliable seg n s (no_timeouts evs))
   \<and> same_ending (send_data data length_arg s evs) (send_data data length_arg s (no_timeouts evs))
   \<and> (state s = ESTABLISHED \<longrightarrow>
        (case send_data data length_arg s evs of
           Done u s' evs' \<Rightarrow>
             control s' = (sequence_number s + 1, expected_sequence_number s, ESTABLISHED)
         | Exit s' \<Rightarrow> control s' = control s
         | Fault f s' \<Rightarrow> control s' = control s
         | Blocked s' \<Rightarrow> control s' = control s))
   \<and> (state s = ESTABLISHED
        \<and> list_all (\<lambda>(dt, bs). hdr_type (recv_buf bs) = RDT_ACK
              \<or> hdr_type (recv_buf bs) \<noteq> RDT_CLOSE
                \<and> ntohl (hdr_sequence_number (recv_buf bs)) \<noteq> sequence_number s) strays
        \<longrightarrow> same_result (receive_data buffer s (map (\<lambda>(dt, bs). Recv dt bs) strays @ evs))
              (receive_data buffer s evs))
   \<and> (state s = INIT \<longrightarrow>
        (case accept_connection s evs of
           Done u s' evs' \<Rightarrow>
             control s' = (sequence_number s, expected_sequence_number s, ESTABLISHED)
         | Exit s' \<Rightarrow> control s' = control s
         | Fault f s' \<Rightarrow> control s' = control s
         | Blocked s' \<Rightarrow> control s' = control s))
   \<and> (state s = INIT \<longrightarrow>
        (case connect_to_remote s evs of
           Done u s' evs' \<Rightarrow>
             control s' = (sequence_number s, expected_sequence_number s, ESTABLISHED)
         | Exit s' \<Rightarrow> control s' = control s
         | Fault f s' \<Rightarrow> control s' = control s
         | Blocked s' \<Rightarrow> control s' = control s))
   \<and> (case close_connection s evs of
         Done u s' evs' \<Rightarrow> control s' = (sequence_number s, expected_sequence_number s, CLOSED)
       | Exit s' \<Rightarrow> control s' = control s
       | Fault f s' \<Rightarrow> control s' = control s
       | Blocked s' \<Rightarrow> control s' = control s)"
proof (intro conjI impI)
  show "control (outcome_state (send_seg_reliable seg n s evs)) = control s"
    by (rule send_seg_reliable_control)
  show "same_ending (send_seg_reliable seg n s evs) (send_seg_reliable seg n s (no_timeouts evs))"
    by (rule send_seg_reliable_expiries) simp
  show "same_ending (send_data data length_arg s evs) (send_data data length_arg s (no_timeouts evs))"
    by (rule send_data_expiries)
  show "case close_connection s evs of
         Done u s' evs' \<Rightarrow> control s' = (sequence_number s, expected_sequence_number s, CLOSED)
       | Exit s' \<Rightarrow> control s' = control s
       | Fault f s' \<Rightarrow> control s' = control s
       | Blocked s' \<Rightarrow> control s' = control s"
    by (rule close_connection_control)
next
  assume "state s = ESTABLISHED"
  then show "case send_data data length_arg s evs of
           Done u s' evs' \<Rightarrow>
             control s' = (sequence_number s + 1, expected_sequence_number s, ESTABLISHED)
         | Exit s' \<Rightarrow> control s' = control s
         | Fault f s' \<Rightarrow> control s' = control s
         | Blocked s' \<Rightarrow> control s' = control s"
    by (rule send_data_control)
next
  assume "state s = ESTABLISHED
        \<and> list_all (\<lambda>(dt, bs). hdr_type (recv_buf bs) = RDT_ACK
              \<or> hdr_type (recv_buf bs) \<noteq> RDT_CLOSE
                \<and> ntohl (hdr_sequence_number (recv_buf bs)) \<noteq> sequence_number s) strays"
  then show "same_result (receive_data buffer s (map (\<lambda>(dt, bs). Recv dt bs) strays @ evs))
              (receive_data buffer s evs)"
    using receive_data_strays by blast
next
  assume "state s = INIT"
  then show "case accept_connection s evs of
           Done u s' evs' \<Rightarrow>
             control s' = (sequence_number s, expected_sequence_number s, ESTABLISHED)
         | Exit s' \<Rightarrow> control s' = control s
         | Fault f s' \<Rightarrow> control s' = control s
         | Blocked s' \<Rightarrow> control s' = control s"
    by (rule accept_connection_control)
next
  assume "state s = INIT"
  then show "case connect_to_remote s evs of
           Done u s' evs' \<Rightarrow>
             control s' = (sequence_number s, expected_sequence_number s, ESTABLISHED)
         | Exit s' \<Rightarrow> control s' = control s
         | Fault f s' \<Rightarrow> control s' = control s
         | Blocked s' \<Rightarrow> control s' = control s"
    by (rule connect_to_remote_control)
qed

text \<open>
  C9 on a fresh connection: send_data through two deadline expiries and one discarded ACK;
  receive_data through a stray ACK and the DATA segment number 5 before the DATA segment
  number 0; and connect_to_remote cut short by a deadline expiry.
\<close>

theorem recovery_keeps_control_witness:
  "state (ReliableSocket\<lparr>state := ESTABLISHED\<rparr>) = ESTABLISHED
   \<and> state ReliableSocket = INIT
   \<and> list_all (\<lambda>(dt, bs). hdr_type (recv_buf bs) = RDT_ACK
        \<or> hdr_type (recv_buf bs) \<noteq> RDT_CLOSE
          \<and> ntohl (hdr_sequence_number (recv_buf bs))
              \<noteq> sequence_number (ReliableSocket\<lparr>state := ESTABLISHED\<rparr>))
       [(0 :: i32, header 0 0 RDT_ACK), (0, header 5 0 RDT_DATA @ [1, 2, 3])]
   \<and> (\<exists>s' evs'. send_data (\<lambda>i. 7) 1 (ReliableSocket\<lparr>state := ESTABLISHED\<rparr>)
          [Timeout, Recv 30 (header 0 7 RDT_ACK), Timeout, Recv 30 (header 0 0 RDT_ACK)]
          = Done () s' evs'
        \<and> fields s' = (1, 0, 81, 28, 30, ESTABLISHED)
        \<and> control s' = (1, 0, ESTABLISHED))
   \<and> (\<exists>s'. receive_data [7, 7, 7] (ReliableSocket\<lparr>state := ESTABLISHED\<rparr>)
          (map (\<lambda>(dt, bs). Recv dt bs)
             [(0, header 0 0 RDT_ACK), (0, header 5 0 RDT_DATA @ [1, 2, 3])]
           @ [Recv 0 (header 0 0 RDT_DATA @ [8, 9])])
          = Done (2, [8, 9, 7]) s' []
        \<and> fields s' = (1, 0, 100, 10, 0, ESTABLISHED))
   \<and> (case connect_to_remote ReliableSocket [Timeout] of
         Done u s' evs' \<Rightarrow> control s' = (0, 0, ESTABLISHED)
       | Exit s' \<Rightarrow> control s' = control ReliableSocket
       | Fault f s' \<Rightarrow> control s' = control ReliableSocket
       | Blocked s' \<Rightarrow> control s' = control ReliableSocket)"
proof -
  define s0 where "s0 = ReliableSocket\<lparr>state := ESTABLISHED\<rparr>"
  define b0 where "b0 = header 0 0 RDT_DATA @ [8 :: byte, 9]"
  define strays where
    "strays = [(0 :: i32, header 0 0 RDT_ACK), (0, header 5 0 RDT_DATA @ [1, 2, 3])]"
  let ?evs = "[Timeout, Recv 30 (header 0 7 RDT_ACK), Timeout, Recv 30 (header 0 0 RDT_ACK)]"
  let ?r = "send_data (\<lambda>i. 7) 1 s0 ?evs"
  have h1: "state s0 = ESTABLISHED" by (simp add: s0_def)
  have sq0: "sequence_number s0 = 0" by (simp add: s0_def ReliableSocket_def)
  have h2: "state ReliableSocket = INIT" by (simp add: ReliableSocket_def)
  have ta: "hdr_type (recv_buf (header 0 0 RDT_ACK)) = RDT_ACK"
    using hdr_type_recv_header [of 0 0 RDT_ACK "[]"] by simp
  have t5: "hdr_type (recv_buf (header 5 0 RDT_DATA @ [1, 2, 3])) = RDT_DATA"
    by (rule hdr_type_recv_header)
  have s5: "hdr_sequence_number (recv_buf (header 5 0 RDT_DATA @ [1, 2, 3])) = htonl 5"
    by (rule hdr_seq_recv_header)
  have h3: "list_all (\<lambda>(dt, bs). hdr_type (recv_buf bs) = RDT_ACK
        \<or> hdr_type (recv_buf bs) \<noteq> RDT_CLOSE
          \<and> ntohl (hdr_sequence_number (recv_buf bs)) \<noteq> sequence_number s0) strays"
    by (simp add: strays_def ta t5 s5 ntohl_htonl sq0 RDT_distinct)
  have nt: "no_timeouts ?evs = [Recv 30 (header 0 7 RDT_ACK), Recv 30 (header 0 0 RDT_ACK)]"
    by simp
  note t = recovery_keeps_control [of "[]" 0 s0 ?evs "\<lambda>i. 7" 1 strays "[7, 7, 7]"]
  have se: "same_ending ?r (send_data (\<lambda>i. 7) 1 s0 (no_timeouts ?evs))"
    using t [THEN conjunct2, THEN conjunct2, THEN conjunct1] .
  have ct: "case ?r of
        Done u s' evs' \<Rightarrow>
          control s' = (sequence_number s0 + 1, expected_sequence_number s0, ESTABLISHED)
      | Exit s' \<Rightarrow> control s' = control s0
      | Fault f s' \<Rightarrow> control s' = control s0
      | Blocked s' \<Rightarrow> control s' = control s0"
    using t [THEN conjunct2, THEN conjunct2, THEN conjunct2, THEN conjunct1] h1 by blast
  have a: "\<exists>s' evs'. ?r = Done () s' evs' \<and> fields s' = (1, 0, 81, 28, 30, ESTABLISHED)
      \<and> control s' = (1, 0, ESTABLISHED)"
    using se ct unfolding nt s0_def two_samples
    by (cases "send_data (\<lambda>i. 7) 1 (ReliableSocket\<lparr>state := ESTABLISHED\<rparr>) ?evs")
      (simp_all add: fields_def ReliableSocket_def)
  have tb: "hdr_type (recv_buf b0) = RDT_DATA"
    unfolding b0_def by (rule hdr_type_recv_header)
  have sb: "hdr_sequence_number (recv_buf b0) = htonl 0"
    unfolding b0_def by (rule hdr_seq_recv_header)
  have cb: "recv_ret b0 - int sizeof_RDTHeader = 2"
    by (simp add: b0_def recv_ret_def size_defs)
  have pb: "take 2 (drop sizeof_RDTHeader (recv_buf b0)) = [8, 9]"
    by (simp add: b0_def recv_buf_def segment_def size_defs header_def)
  have "ntohl (hdr_sequence_number (recv_buf b0)) = sequence_number s0"
    "0 \<le> recv_ret b0 - int sizeof_RDTHeader"
    "recv_ret b0 - int sizeof_RDTHeader \<le> int (length [7 :: byte, 7, 7])"
    by (simp_all add: sb ntohl_htonl sq0 cb)
  from receive_data_in_order [OF h1 tb this, of 0 "[]"]
  have direct: "receive_data [7, 7, 7] s0 [Recv 0 b0]
      = Done (2, [8, 9, 7]) (s0\<lparr>rcvtimeo := 0, sequence_number := sequence_number s0 + 1,
            trace := trace s0 @ [SetTimeout 0, Send (htonl 0 @ htonl 0 @ [RDT_ACK, 0, 0, 0])]\<rparr>) []"
    unfolding cb sb by (simp add: pb)
  from recovery_keeps_control [of "[]" 0 s0 "[Recv 0 b0]" "\<lambda>i. 7" 1 strays "[7, 7, 7]",
      THEN conjunct2, THEN conjunct2, THEN conjunct2, THEN conjunct2, THEN conjunct1] h1 h3
  have "same_result (receive_data [7, 7, 7] s0
        (map (\<lambda>(dt, bs). Recv dt bs) strays @ [Recv 0 b0]))
      (receive_data [7, 7, 7] s0 [Recv 0 b0])"
    by blast
  then have c: "\<exists>s'. receive_data [7, 7, 7] s0
        (map (\<lambda>(dt, bs). Recv dt bs) strays @ [Recv 0 b0]) = Done (2, [8, 9, 7]) s' []
      \<and> fields s' = (1, 0, 100, 10, 0, ESTABLISHED)"
    unfolding direct
    by (cases "receive_data [7, 7, 7] s0 (map (\<lambda>(dt, bs). Recv dt bs) strays @ [Recv 0 b0])")
      (simp_all add: fields_def s0_def ReliableSocket_def)
  from recovery_keeps_control [of "[]" 0 ReliableSocket "[Timeout]" "\<lambda>i. 7" 1 "[]" "[]",
      THEN conjunct2, THEN conjunct2, THEN conjunct2, THEN conjunct2, THEN conjunct2,
      THEN conjunct2, THEN conjunct1] h2
  have b0': "case connect_to_remote ReliableSocket [Timeout] of
         Done u s' evs' \<Rightarrow>
           control s' = (sequence_number ReliableSocket, expected_sequence_number ReliableSocket,
             ESTABLISHED)
       | Exit s' \<Rightarrow> control s' = control ReliableSocket
       | Fault f s' \<Rightarrow> control s' = control ReliableSocket
       | Blocked s' \<Rightarrow> control s' = control ReliableSocket"
    by blast
  have sq: "sequence_number ReliableSocket = 0" "expected_sequence_number ReliableSocket = 0"
    by (simp_all add: ReliableSocket_def)
  have b: "case connect_to_remote ReliableSocket [Timeout] of
         Done u s' evs' \<Rightarrow> control s' = (0, 0, ESTABLISHED)
       | Exit s' \<Rightarrow> control s' = control ReliableSocket
       | Fault f s' \<Rightarrow> control s' = control ReliableSocket
       | Blocked s' \<Rightarrow> control s' = control ReliableSocket"
    using b0' unfolding sq .
  note all = conjI [OF h1 conjI [OF h2 conjI [OF h3 conjI [OF a conjI [OF c b]]]]]
  show ?thesis
    using all unfolding s0_def b0_def strays_def .
qed

end
